(* ===== verification/Prelude.thy ===== *)
theory Prelude
  imports
    Main
    "HOL-Library.AList"
    "HOL-Library.Char_ord"
    "HOL-Library.List_Lexorder"
    "HOL-Library.Multiset"
    "HOL-Library.Sublist"
begin

text \<open>
  The vocabulary every component shares.

  \<^item> Go values. A Go \<open>string\<close> is a byte sequence and is an HOL \<open>string\<close>; \<open><\<close> on it is
    the byte-wise lexicographic order, as in Go. A Go map is an association list with
    distinct keys (\<open>gomap\<close>): the list order stands for one possible iteration order, the
    value looked up is \<open>map_of\<close>, an assignment \<open>m[k] = v\<close> is \<open>AList.update k v m\<close>.
    \<open>map[string]struct{}\<close> is a \<open>goset\<close>, the list of its distinct keys.
  \<^item> Process termination. \<open>logrus.Fatalf\<close> ends the process and a \<open>panic\<close> that nobody
    recovers does too: both are values of \<open>abort\<close>, and a computation that can end the
    process returns \<open>abort + 'a\<close>.
  \<^item> The functions of the packages \<open>strings\<close>, \<open>bytes\<close> and \<open>sort\<close> that the program calls.
    \<open>strings.ToLower\<close> is modelled on ASCII strings (its first branch in the standard
    library); bytes of 128 and above are left as they are.
\<close>

named_theorems gostr "facts about the string functions of the Go standard library"
named_theorems gomap_simps "facts about Go maps as association lists"

subsection \<open>Process termination\<close>

datatype abort = Fatal string | Panic string

subsection \<open>Strings\<close>

definition HasPrefix :: "string \<Rightarrow> string \<Rightarrow> bool" where
  "HasPrefix s p = (take (length p) s = p)"

definition HasSuffix :: "string \<Rightarrow> string \<Rightarrow> bool" where
  "HasSuffix s suf = (length suf \<le> length s \<and> drop (length s - length suf) s = suf)"

definition TrimPrefix :: "string \<Rightarrow> string \<Rightarrow> string" where
  "TrimPrefix s p = (if HasPrefix s p then drop (length p) s else s)"

definition TrimSuffix :: "string \<Rightarrow> string \<Rightarrow> string" where
  "TrimSuffix s suf = (if HasSuffix s suf then take (length s - length suf) s else s)"

definition TrimLeft :: "string \<Rightarrow> string \<Rightarrow> string" where
  "TrimLeft s cutset = dropWhile (\<lambda>c. c \<in> set cutset) s"

definition TrimRight :: "string \<Rightarrow> string \<Rightarrow> string" where
  "TrimRight s cutset = rev (dropWhile (\<lambda>c. c \<in> set cutset) (rev s))"

definition Trim :: "string \<Rightarrow> string \<Rightarrow> string" where
  "Trim s cutset = TrimRight (TrimLeft s cutset) cutset"

text \<open>The ASCII white space of \<open>strings.TrimSpace\<close>: tab, newline, vertical tab, form feed,
  carriage return, blank.\<close>

definition white_space :: string where
  "white_space = [CHR 0x09, CHR 0x0A, CHR 0x0B, CHR 0x0C, CHR 0x0D, CHR 0x20]"

definition TrimSpace :: "string \<Rightarrow> string" where
  "TrimSpace s = Trim s white_space"

definition lower_char :: "char \<Rightarrow> char" where
  "lower_char c = (if CHR ''A'' \<le> c \<and> c \<le> CHR ''Z'' then char_of (of_char c + 32 :: nat) else c)"

definition ToLower :: "string \<Rightarrow> string" where
  "ToLower s = map lower_char s"

fun Join :: "string list \<Rightarrow> string \<Rightarrow> string" where
  "Join [] sep = []"
| "Join [x] sep = x"
| "Join (x # y # ys) sep = x @ sep @ Join (y # ys) sep"

text \<open>\<open>strings.Split\<close> with a separator of one byte: there is always at least one part.\<close>

fun Split :: "string \<Rightarrow> char \<Rightarrow> string list" where
  "Split [] sep = [[]]"
| "Split (c # cs) sep =
     (if c = sep then [] # Split cs sep
      else (case Split cs sep of [] \<Rightarrow> [[c]] | p # ps \<Rightarrow> (c # p) # ps))"

fun Index :: "string \<Rightarrow> string \<Rightarrow> nat option" where
  "Index [] sep = (if sep = [] then Some 0 else None)"
| "Index (c # cs) sep =
     (if HasPrefix (c # cs) sep then Some 0 else map_option Suc (Index cs sep))"

definition ContainsAny :: "string \<Rightarrow> string \<Rightarrow> bool" where
  "ContainsAny s chars = list_ex (\<lambda>c. c \<in> set chars) s"

definition ReplaceAllChar :: "string \<Rightarrow> char \<Rightarrow> string \<Rightarrow> string" where
  "ReplaceAllChar s c new = concat (map (\<lambda>d. if d = c then new else [d]) s)"

text \<open>\<open>strconv.ParseBool\<close>.\<close>

definition ParseBool :: "string \<Rightarrow> bool option" where
  "ParseBool s =
     (if s \<in> {''1'', ''t'', ''T'', ''TRUE'', ''true'', ''True''} then Some True
      else if s \<in> {''0'', ''f'', ''F'', ''FALSE'', ''false'', ''False''} then Some False
      else None)"

subsection \<open>Maps and sets\<close>

type_synonym 'v gomap = "(string \<times> 'v) list"
type_synonym goset = "string list"

definition gomap_wf :: "'v gomap \<Rightarrow> bool" where
  "gomap_wf m = distinct (map fst m)"

definition goset_add :: "string \<Rightarrow> goset \<Rightarrow> goset" where
  "goset_add k s = (if k \<in> set s then s else s @ [k])"

text \<open>\<open>reflect.DeepEqual\<close> on two maps: the same number of entries, and every key of the one
  has an equal value in the other.\<close>

definition gomap_DeepEqual :: "'v gomap \<Rightarrow> 'v gomap \<Rightarrow> bool" where
  "gomap_DeepEqual m n =
     (length m = length n \<and> list_all (\<lambda>(k, v). map_of n k = Some v) m)"

subsection \<open>sort.Slice\<close>

text \<open>
  \<open>sort.Slice\<close> sorts by a comparison function and promises nothing about equal elements.
  On a comparison that is a strict linear order of the elements the result is determined
  (\<open>sort_slice_unique\<close> below), and any sorting algorithm computes it: insertion here.
\<close>

fun insert_by :: "('a \<Rightarrow> 'a \<Rightarrow> bool) \<Rightarrow> 'a \<Rightarrow> 'a list \<Rightarrow> 'a list" where
  "insert_by lt x [] = [x]"
| "insert_by lt x (y # ys) = (if lt x y then x # y # ys else y # insert_by lt x ys)"

fun sort_slice :: "('a \<Rightarrow> 'a \<Rightarrow> bool) \<Rightarrow> 'a list \<Rightarrow> 'a list" where
  "sort_slice lt [] = []"
| "sort_slice lt (x # xs) = insert_by lt x (sort_slice lt xs)"

text \<open>What \<open>sort.Slice\<close> asks of its comparison, on the set of elements it sorts.\<close>

locale comparison =
  fixes lt :: "'a \<Rightarrow> 'a \<Rightarrow> bool" and A :: "'a set"
  assumes less_irrefl: "x \<in> A \<Longrightarrow> \<not> lt x x"
    and less_trans: "x \<in> A \<Longrightarrow> y \<in> A \<Longrightarrow> z \<in> A \<Longrightarrow> lt x y \<Longrightarrow> lt y z \<Longrightarrow> lt x z"
    and less_total: "x \<in> A \<Longrightarrow> y \<in> A \<Longrightarrow> x \<noteq> y \<Longrightarrow> lt x y \<or> lt y x"
begin

lemma less_asym: "x \<in> A \<Longrightarrow> y \<in> A \<Longrightarrow> lt x y \<Longrightarrow> \<not> lt y x"
  using less_irrefl less_trans by blast

lemma mset_insert_by: "mset (insert_by lt x xs) = add_mset x (mset xs)"
  by (induction xs) auto

lemma mset_sort_slice: "mset (sort_slice lt xs) = mset xs"
  by (induction xs) (auto simp: mset_insert_by)

lemma set_insert_by: "set (insert_by lt x xs) = insert x (set xs)"
  by (induction xs) auto

lemma set_sort_slice: "set (sort_slice lt xs) = set xs"
  by (induction xs) (auto simp: set_insert_by)

lemma sorted_insert_by:
  assumes "sorted_wrt lt xs" and "x \<in> A" and "set xs \<subseteq> A" and "x \<notin> set xs"
  shows "sorted_wrt lt (insert_by lt x xs)"
  using assms
proof (induction xs)
  case (Cons y ys)
  then have xy: "x \<noteq> y" "y \<in> A" and sorted: "sorted_wrt lt (insert_by lt x ys)" by simp_all
  show ?case
  proof (cases "lt x y")
    case True
    then have "lt x z" if "z \<in> set ys" for z
      using that Cons.prems less_trans [of x y z] by auto
    with True Cons.prems show ?thesis by simp
  next
    case False
    with xy Cons.prems have "lt y x" using less_total [of x y] by simp
    with False Cons.prems sorted show ?thesis by (simp add: set_insert_by)
  qed
qed simp

lemma sorted_sort_slice:
  assumes "distinct xs" and "set xs \<subseteq> A"
  shows "sorted_wrt lt (sort_slice lt xs)"
  using assms by (induction xs) (simp_all add: sorted_insert_by set_sort_slice)

lemma sorted_unique:
  assumes "sorted_wrt lt xs" and "sorted_wrt lt ys" and "mset xs = mset ys"
    and "set xs \<subseteq> A"
  shows "xs = ys"
  using assms
proof (induction xs arbitrary: ys)
  case (Cons x xs)
  from Cons.prems(3) obtain y ys' where ys: "ys = y # ys'" by (cases ys) auto
  from Cons.prems(3) have sets: "set (x # xs) = set ys" by (metis set_mset_mset)
  have "x = y"
  proof (rule ccontr)
    assume "x \<noteq> y"
    with sets ys have "y \<in> set xs" and "x \<in> set ys'" by auto
    with Cons.prems ys have "lt x y" and "lt y x" and "y \<in> A" by auto
    with less_asym Cons.prems(4) show False by auto
  qed
  with Cons ys show ?case by auto
qed simp

lemma sort_slice_unique:
  assumes "distinct xs" and "set xs \<subseteq> A" and "mset ys = mset xs" and "sorted_wrt lt ys"
  shows "sort_slice lt xs = ys"
  using assms sorted_unique [of "sort_slice lt xs" ys] sorted_sort_slice
  by (auto simp: mset_sort_slice set_sort_slice)

lemma sort_slice_permute:
  assumes "distinct xs" and "set xs \<subseteq> A" and "mset ys = mset xs"
  shows "sort_slice lt ys = sort_slice lt xs"
proof -
  have "distinct ys" "set ys \<subseteq> A"
    using assms by (metis mset_eq_imp_distinct_iff, metis set_mset_mset)
  then show ?thesis
    using assms sort_slice_unique [of xs "sort_slice lt ys"]
    by (auto simp: mset_sort_slice sorted_sort_slice)
qed

end

text \<open>\<open>sort.Strings\<close> sorts by the order of strings; it agrees with the library's \<open>sort\<close>.\<close>

interpretation strings: comparison "(<) :: string \<Rightarrow> string \<Rightarrow> bool" UNIV
  by unfold_locales auto

subsection \<open>Facts about strings\<close>

lemma HasPrefix_iff [gostr]: "HasPrefix s p \<longleftrightarrow> prefix p s"
  by (auto simp: HasPrefix_def prefix_def) (metis append_take_drop_id)

lemma HasSuffix_iff [gostr]: "HasSuffix s suf \<longleftrightarrow> suffix suf s"
  by (auto simp: HasSuffix_def suffix_def) (metis append_take_drop_id)

lemma HasSuffix_append [simp]: "HasSuffix (s @ suf) suf"
  by (simp add: HasSuffix_def)

lemma TrimSuffix_append [simp]: "TrimSuffix (s @ suf) suf = s"
  by (simp add: TrimSuffix_def)

lemma TrimPrefix_append [simp]: "TrimPrefix (p @ s) p = s"
  by (simp add: TrimPrefix_def HasPrefix_def)

lemma TrimSuffix_cases: "HasSuffix s suf \<Longrightarrow> TrimSuffix s suf @ suf = s"
  by (auto simp: HasSuffix_def TrimSuffix_def) (metis append_take_drop_id)

lemma Index_Some:
  "Index s sep = Some n \<Longrightarrow> s = take n s @ sep @ drop (n + length sep) s"
proof (induction s sep arbitrary: n rule: Index.induct)
  case (2 c cs sep)
  show ?case
  proof (cases "HasPrefix (c # cs) sep")
    case True
    with 2 show ?thesis
      by (auto simp: HasPrefix_def) (metis append_take_drop_id)
  next
    case False
    with 2 show ?thesis by auto
  qed
qed (auto split: if_splits)

lemma Index_None: "Index s sep = None \<longleftrightarrow> \<not> sublist sep s"
proof (induction s sep rule: Index.induct)
  case (2 c cs sep)
  then show ?case
    by (auto simp: HasPrefix_iff sublist_Cons_right)
qed auto

lemma Index_length: "Index s sep = Some n \<Longrightarrow> n + length sep \<le> length s"
proof (induction s sep arbitrary: n rule: Index.induct)
  case (2 c cs sep)
  then show ?case
    by (auto simp: HasPrefix_def split: if_splits dest: arg_cong [of _ _ length])
qed (auto split: if_splits)

lemma length_Split: "length (Split s sep) = Suc (count_list s sep)"
  by (induction s sep rule: Split.induct) (auto split: list.splits)

lemma Split_no_sep: "p \<in> set (Split s sep) \<Longrightarrow> sep \<notin> set p"
proof (induction s sep arbitrary: p rule: Split.induct)
  case (2 c cs sep)
  then show ?case by (auto split: if_splits list.splits)
qed simp

lemma Join_Cons_char: "Join ((c # x) # xs) sep = c # Join (x # xs) sep"
  by (cases xs) simp_all

lemma Split_first: "c \<notin> set a \<Longrightarrow> Split (a @ c # b) c = a # Split b c"
  by (induction a) auto

lemma Split_none: "c \<notin> set a \<Longrightarrow> Split a c = [a]"
  by (induction a) auto

lemma Split_Join: "ps \<noteq> [] \<Longrightarrow> list_all (\<lambda>p. sep \<notin> set p) ps \<Longrightarrow> Split (Join ps [sep]) sep = ps"
  by (induction ps "[sep]" rule: Join.induct) (simp_all add: Split_first Split_none)

lemma Join_Split: "Join (Split s sep) [sep] = s"
proof (induction s sep rule: Split.induct)
  case (2 c cs sep)
  then show ?case
    using length_Split [of cs sep]
    by (cases "Split cs sep") (auto simp: Join_Cons_char)
qed simp

lemma lower_char_lower [gostr]: "lower_char (lower_char c) = lower_char c"
proof (cases "CHR ''A'' \<le> c \<and> c \<le> CHR ''Z''")
  case True
  then have "of_char c + (32::nat) < 256" "\<not> of_char c + (32::nat) \<le> 90"
    by (auto simp: less_eq_char_def)
  with True show ?thesis by (auto simp: lower_char_def less_eq_char_def)
next
  case False
  then have "lower_char c = c" unfolding lower_char_def by (rule if_not_P)
  then show ?thesis by simp
qed

lemma ToLower_ToLower [simp]: "ToLower (ToLower s) = ToLower s"
  by (simp add: ToLower_def lower_char_lower)

lemma ToLower_append [simp]: "ToLower (s @ t) = ToLower s @ ToLower t"
  by (simp add: ToLower_def)

lemma ToLower_Nil [simp]: "ToLower [] = []"
  by (simp add: ToLower_def)

lemma length_ToLower [simp]: "length (ToLower s) = length s"
  by (simp add: ToLower_def)

lemma hd_dropWhile_not: "dropWhile P xs \<noteq> [] \<Longrightarrow> \<not> P (hd (dropWhile P xs))"
  by (rule hd_dropWhile)

lemma TrimRight_last: "TrimRight s cs \<noteq> [] \<Longrightarrow> last (TrimRight s cs) \<notin> set cs"
  using hd_dropWhile_not [of "\<lambda>c. c \<in> set cs" "rev s"]
  by (simp add: TrimRight_def last_rev)

lemma prefix_TrimRight: "prefix (TrimRight s cs) s"
  unfolding TrimRight_def suffix_to_prefix [symmetric]
  by (metis suffix_dropWhile suffix_to_prefix rev_rev_ident)

lemma TrimLeft_hd: "TrimLeft s cs \<noteq> [] \<Longrightarrow> hd (TrimLeft s cs) \<notin> set cs"
  using hd_dropWhile_not [of "\<lambda>c. c \<in> set cs" s] by (simp add: TrimLeft_def)

lemma Trim_hd: "Trim s cs \<noteq> [] \<Longrightarrow> hd (Trim s cs) \<notin> set cs"
  unfolding Trim_def
  by (metis TrimLeft_hd append_is_Nil_conv hd_append2 prefixE prefix_TrimRight)

lemma Trim_last: "Trim s cs \<noteq> [] \<Longrightarrow> last (Trim s cs) \<notin> set cs"
  by (simp add: Trim_def TrimRight_last)

lemma Trim_sublist: "sublist (Trim s cs) s"
  unfolding Trim_def TrimLeft_def
  by (meson prefix_TrimRight prefix_imp_sublist suffix_dropWhile suffix_imp_sublist
      sublist_order.order_trans)

lemma TrimRight_id: "s = [] \<or> last s \<notin> set cs \<Longrightarrow> TrimRight s cs = s"
  by (cases s rule: rev_cases) (auto simp: TrimRight_def)

lemma Trim_id:
  assumes "s = [] \<or> hd s \<notin> set cs \<and> last s \<notin> set cs"
  shows "Trim s cs = s"
  using assms
  by (cases s) (auto simp: Trim_def TrimLeft_def TrimRight_id)

lemma Trim_Trim [simp]: "Trim (Trim s cs) cs = Trim s cs"
  using Trim_hd Trim_last by (intro Trim_id) blast

subsection \<open>Facts about maps and sets\<close>

lemma gomap_wf_Nil [simp]: "gomap_wf []"
  by (simp add: gomap_wf_def)

lemma gomap_wf_update [simp]: "gomap_wf m \<Longrightarrow> gomap_wf (AList.update k v m)"
  by (simp add: gomap_wf_def distinct_update)

lemma gomap_lookup [gomap_simps]: "map_of (AList.update k v m) k' = (if k' = k then Some v else map_of m k')"
  by (simp add: update_conv')

lemma gomap_keys [gomap_simps]: "fst ` set (AList.update k v m) = insert k (fst ` set m)"
  by (simp add: dom_update)

lemma dom_map_of_keys: "dom (map_of m) = fst ` set m"
  by (rule dom_map_of_conv_image_fst)

lemma gomap_Some_iff: "gomap_wf m \<Longrightarrow> map_of m k = Some v \<longleftrightarrow> (k, v) \<in> set m"
  by (simp add: gomap_wf_def)

lemma set_goset_add [simp]: "set (goset_add k s) = insert k (set s)"
  by (auto simp: goset_add_def)

lemma distinct_goset_add [simp]: "distinct s \<Longrightarrow> distinct (goset_add k s)"
  by (auto simp: goset_add_def)

lemma goset_add_neq_Nil [simp]: "goset_add k s \<noteq> []"
  by (auto simp: goset_add_def)

lemma gomap_DeepEqual_iff:
  assumes "gomap_wf m" and "gomap_wf n"
  shows "gomap_DeepEqual m n \<longleftrightarrow> map_of m = map_of n"
proof
  assume eq: "gomap_DeepEqual m n"
  then have sub: "set m \<subseteq> set n" and len: "length m = length n"
    using assms by (auto simp: gomap_DeepEqual_def list_all_iff gomap_wf_def)
  have "card (set m) = card (set n)"
    using len assms by (metis distinct_card distinct_map gomap_wf_def)
  with sub have "set m = set n" by (simp add: card_subset_eq)
  with assms show "map_of m = map_of n" by (simp add: gomap_wf_def map_of_inject_set)
next
  assume eq: "map_of m = map_of n"
  then have "set m = set n" using assms by (simp add: gomap_wf_def map_of_inject_set)
  then have "length m = length n"
    using assms by (metis distinct_card distinct_map gomap_wf_def)
  then show "gomap_DeepEqual m n"
    using \<open>set m = set n\<close> assms by (auto simp: gomap_DeepEqual_def list_all_iff gomap_wf_def)
qed

end
