(* ===== verification/Utils.thy ===== *)
theory Utils
  imports Prelude
begin

text \<open>
  The package \<open>utils\<close> (src/utils/utils.go): the record types the components exchange, the
  naming of records, the ownership record ("state RRSet") and the label sanitizer, together
  with the part of the vendored template library that \<open>FqdnFromTemplate\<close> runs
  (src/vendor/github.com/valyala/fasttemplate/template.go).

  The lemmas show that a sanitized label satisfies the label grammar and is a fixed point,
  that parsing a template loses nothing, and which name \<open>FqdnFromTemplate\<close> produces or how it
  ends the process.
\<close>

subsection \<open>Records\<close>

text \<open>\<open>TTL\<close> is a Go \<open>int\<close> of 64 bits; no operation of the program does arithmetic on it.\<close>

record dns_record =
  d_fqdn :: string
  d_records :: "string list"
  d_type :: string
  d_ttl :: int

record metadata_dns_record =
  m_service :: string
  m_stack :: string
  m_dns :: dns_record

subsection \<open>Names with and without the trailing dot\<close>

definition Fqdn :: "string \<Rightarrow> string" where
  "Fqdn name = (if name = [] \<or> last name = CHR ''.'' then name else name @ ''.'')"

definition UnFqdn :: "string \<Rightarrow> string" where
  "UnFqdn name = (if name \<noteq> [] \<and> last name = CHR ''.'' then butlast name else name)"

subsection \<open>sanitizeLabel\<close>

definition alnum_char :: "char \<Rightarrow> bool" where
  "alnum_char c = ((CHR ''a'' \<le> c \<and> c \<le> CHR ''z'') \<or> (CHR ''A'' \<le> c \<and> c \<le> CHR ''Z'')
     \<or> (CHR ''0'' \<le> c \<and> c \<le> CHR ''9''))"

definition label_char :: "char \<Rightarrow> bool" where
  "label_char c = (alnum_char c \<or> c = CHR ''-'')"

text \<open>
  \<open>[^a-zA-Z0-9-]\<close> matches one code point and \<open>[-]+\<close> a run of dashes. The model replaces
  byte by byte, which gives a run of dashes for a code point of several bytes; the second
  replacement makes one dash of the run, as it does of the one dash the program has there.
\<close>

definition replace_invalid :: "string \<Rightarrow> string" where
  "replace_invalid label = map (\<lambda>c. if label_char c then c else CHR ''-'') label"

function collapse_dashes :: "string \<Rightarrow> string" where
  "collapse_dashes [] = []"
| "collapse_dashes (c # cs) =
     (if c = CHR ''-'' then CHR ''-'' # collapse_dashes (dropWhile (\<lambda>d. d = CHR ''-'') cs)
      else c # collapse_dashes cs)"
  by pat_completeness auto
termination
  by (relation "measure length") (auto simp: less_Suc_eq_le length_dropWhile_le)

definition sanitizeLabel :: "string \<Rightarrow> string" where
  "sanitizeLabel label = Trim (collapse_dashes (replace_invalid label)) ''-''"

subsection \<open>fasttemplate\<close>

record template =
  t_template :: string
  t_texts :: "string list"
  t_tags :: "string list"

datatype template_error = EmptyTag | NoEndTag string

text \<open>The loop of \<open>Template.Reset\<close>. \<open>Reset\<close> panics on an empty tag before the loop starts;
  the loop tests it again, which makes it total.\<close>

function Reset_loop :: "string \<Rightarrow> string \<Rightarrow> string \<Rightarrow> template_error + string list \<times> string list" where
  "Reset_loop a b s =
     (if a = [] \<or> b = [] then Inl EmptyTag
      else case Index s a of
        None \<Rightarrow> Inr ([s], [])
      | Some n \<Rightarrow>
          (let s1 = drop (n + length a) s in
           case Index s1 b of
             None \<Rightarrow> Inl (NoEndTag s1)
           | Some k \<Rightarrow>
               (case Reset_loop a b (drop (k + length b) s1) of
                  Inl e \<Rightarrow> Inl e
                | Inr (texts, tags) \<Rightarrow> Inr (take n s # texts, take k s1 # tags))))"
  by pat_completeness auto
termination
proof (relation "measure (\<lambda>(a, b, s). length s)")
  fix a b s :: string and n k and s1
  assume tags: "\<not> (a = [] \<or> b = [])" and n: "Index s a = Some n"
  from n have "n + length a \<le> length s" by (rule Index_length)
  then show "((a, b, drop (k + length b) s1), a, b, s) \<in> measure (\<lambda>(a, b, s). length s)"
    if "s1 = drop (n + length a) s" using that tags by (cases a) auto
qed simp

declare Reset_loop.simps [simp del]

definition Reset :: "string \<Rightarrow> string \<Rightarrow> string \<Rightarrow> template_error + template" where
  "Reset template startTag endTag =
     (if startTag = [] \<or> endTag = [] then Inl EmptyTag
      else if Index template startTag = None
      then Inr \<lparr>t_template = template, t_texts = [], t_tags = []\<rparr>
      else (case Reset_loop startTag endTag template of
              Inl e \<Rightarrow> Inl e
            | Inr (texts, tags) \<Rightarrow>
                Inr \<lparr>t_template = template, t_texts = texts, t_tags = tags\<rparr>))"

definition NewTemplate :: "string \<Rightarrow> string \<Rightarrow> string \<Rightarrow> template_error + template" where
  "NewTemplate template startTag endTag = Reset template startTag endTag"

text \<open>\<open>ExecuteFunc\<close> writes each text followed by what the function writes for the tag after
  it, then the last text; it stops at the first error of the function.\<close>

fun write_tagged :: "(string \<Rightarrow> 'e + string) \<Rightarrow> (string \<times> string) list \<Rightarrow> 'e + string" where
  "write_tagged f [] = Inr []"
| "write_tagged f ((text, tag) # rest) =
     (case f tag of
        Inl e \<Rightarrow> Inl e
      | Inr v \<Rightarrow> (case write_tagged f rest of Inl e \<Rightarrow> Inl e | Inr r \<Rightarrow> Inr (text @ v @ r)))"

definition ExecuteFunc :: "template \<Rightarrow> (string \<Rightarrow> 'e + string) \<Rightarrow> 'e + string" where
  "ExecuteFunc t f =
     (if t_texts t = [] then Inr (t_template t)
      else (case write_tagged f (zip (butlast (t_texts t)) (t_tags t)) of
              Inl e \<Rightarrow> Inl e
            | Inr r \<Rightarrow> Inr (r @ last (t_texts t))))"

subsection \<open>FqdnFromTemplate\<close>

definition startTag :: string where "startTag = ''%{{''"
definition endTag :: string where "endTag = ''}}''"

definition template_tag :: "string \<Rightarrow> string \<Rightarrow> string \<Rightarrow> string \<Rightarrow> string + string" where
  "template_tag serviceName stackName environmentName tag =
     (if tag = ''service_name'' then Inr (sanitizeLabel serviceName)
      else if tag = ''stack_name'' then Inr (sanitizeLabel stackName)
      else if tag = ''environment_name'' then Inr (sanitizeLabel environmentName)
      else Inl tag)"

text \<open>A template that does not parse ends the process through \<open>logrus.Fatalf\<close>; an unknown
  placeholder makes \<open>ExecuteFuncString\<close> panic.\<close>

definition FqdnFromTemplate ::
    "string \<Rightarrow> string \<Rightarrow> string \<Rightarrow> string \<Rightarrow> string \<Rightarrow> abort + string" where
  "FqdnFromTemplate template serviceName stackName environmentName rootDomainName =
     (case NewTemplate template startTag endTag of
        Inl e \<Rightarrow> Inl (Fatal ''error while parsing fqdn template'')
      | Inr t \<Rightarrow>
          (case ExecuteFunc t (template_tag serviceName stackName environmentName) of
             Inl tag \<Rightarrow> Inl (Panic (''invalid placeholder in fqdn template: '' @ tag))
           | Inr fqdn \<Rightarrow> Inr (ToLower (Join [fqdn, rootDomainName] ''.''))))"

subsection \<open>The state RRSet\<close>

definition StateFqdn :: "string \<Rightarrow> string \<Rightarrow> string" where
  "StateFqdn environmentUUID rootDomainName =
     ToLower (''external-dns-'' @ environmentUUID @ ''.'' @ rootDomainName)"

definition StateRecord :: "string \<Rightarrow> int \<Rightarrow> goset \<Rightarrow> dns_record" where
  "StateRecord fqdn ttl entries =
     \<lparr>d_fqdn = fqdn, d_records = sort_slice (<) entries, d_type = ''TXT'', d_ttl = ttl\<rparr>"

subsection \<open>Lemmas: names\<close>

lemma UnFqdn_Fqdn: "last name \<noteq> CHR ''.'' \<Longrightarrow> UnFqdn (Fqdn name) = name"
  by (auto simp: Fqdn_def UnFqdn_def)

lemma Fqdn_UnFqdn: "name \<noteq> [] \<Longrightarrow> name \<noteq> ''.'' \<Longrightarrow> last name = CHR ''.'' \<Longrightarrow>
    last (butlast name) \<noteq> CHR ''.'' \<Longrightarrow> Fqdn (UnFqdn name) = name"
  by (cases name rule: rev_cases) (auto simp: Fqdn_def UnFqdn_def)

lemma Fqdn_Fqdn [simp]: "Fqdn (Fqdn name) = Fqdn name"
  by (simp add: Fqdn_def)

lemma Fqdn_last: "name \<noteq> [] \<Longrightarrow> last (Fqdn name) = CHR ''.''"
  by (simp add: Fqdn_def)

lemma Fqdn_eq_Nil [simp]: "Fqdn name = [] \<longleftrightarrow> name = []"
  by (simp add: Fqdn_def)

subsection \<open>Lemmas: sanitizeLabel\<close>

text \<open>The label grammar the comment above \<open>sanitizeLabel\<close> quotes from RFC 1123, plus what the
  function adds: no two dashes in a row. The empty label satisfies it.\<close>

definition no_double_dash :: "string \<Rightarrow> bool" where
  "no_double_dash s = successively (\<lambda>c d. \<not> (c = CHR ''-'' \<and> d = CHR ''-'')) s"

definition valid_label :: "string \<Rightarrow> bool" where
  "valid_label s = (list_all label_char s \<and> no_double_dash s
     \<and> (s \<noteq> [] \<longrightarrow> hd s \<noteq> CHR ''-'' \<and> last s \<noteq> CHR ''-''))"

lemma label_char_dash [simp]: "label_char (CHR ''-'')"
  by (simp add: label_char_def)

lemma replace_invalid_chars: "list_all label_char (replace_invalid s)"
  by (auto simp: replace_invalid_def list_all_iff)

lemma replace_invalid_id: "list_all label_char s \<Longrightarrow> replace_invalid s = s"
  by (induction s) (auto simp: replace_invalid_def)

lemma set_collapse_dashes: "set (collapse_dashes s) \<subseteq> set s"
proof (induction s rule: collapse_dashes.induct)
  case (2 c cs)
  have "set (dropWhile (\<lambda>d. d = CHR ''-'') cs) \<subseteq> set cs" by (auto dest: set_dropWhileD)
  with 2 show ?case by auto
qed simp

lemma hd_collapse_dashes: "s \<noteq> [] \<Longrightarrow> hd (collapse_dashes s) = hd s"
  by (cases s) auto

lemma collapse_dashes_eq_Nil [simp]: "collapse_dashes s = [] \<longleftrightarrow> s = []"
  by (cases s) auto

lemma no_double_dash_collapse: "no_double_dash (collapse_dashes s)"
proof (induction s rule: collapse_dashes.induct)
  case (2 c cs)
  let ?rest = "dropWhile (\<lambda>d. d = CHR ''-'') cs"
  have "?rest = [] \<or> hd (collapse_dashes ?rest) \<noteq> CHR ''-''"
    using hd_dropWhile_not [of "\<lambda>d. d = CHR ''-''" cs] hd_collapse_dashes by metis
  with 2 show ?case
    by (auto simp: no_double_dash_def successively_Cons)
qed (simp add: no_double_dash_def)

lemma collapse_dashes_id: "no_double_dash s \<Longrightarrow> collapse_dashes s = s"
proof (induction s rule: collapse_dashes.induct)
  case (2 c cs)
  then show ?case
    by (cases cs) (auto simp: no_double_dash_def successively_Cons)
qed simp

lemma no_double_dash_sublist: "no_double_dash s \<Longrightarrow> sublist t s \<Longrightarrow> no_double_dash t"
  by (auto simp: no_double_dash_def sublist_def successively_append_iff)

lemma sanitizeLabel_valid: "valid_label (sanitizeLabel s)"
proof -
  let ?c = "collapse_dashes (replace_invalid s)"
  have "list_all label_char ?c"
    using replace_invalid_chars set_collapse_dashes by (fastforce simp: list_all_iff)
  moreover have "sublist (sanitizeLabel s) ?c"
    by (simp add: sanitizeLabel_def Trim_sublist)
  moreover from this have "no_double_dash (sanitizeLabel s)"
    using no_double_dash_collapse no_double_dash_sublist by blast
  ultimately show ?thesis
    using Trim_hd [of ?c "''-''"] Trim_last [of ?c "''-''"]
    by (auto simp: valid_label_def sanitizeLabel_def list_all_iff dest!: set_mono_sublist)
qed

lemma sanitizeLabel_fixed: "valid_label s \<Longrightarrow> sanitizeLabel s = s"
  by (auto simp: valid_label_def sanitizeLabel_def replace_invalid_id collapse_dashes_id intro!: Trim_id)

lemma filter_alnum_dropWhile:
  "filter alnum_char (dropWhile (\<lambda>d. d = CHR ''-'') s) = filter alnum_char s"
  by (induction s) (auto simp: alnum_char_def)

lemma filter_alnum_collapse: "filter alnum_char (collapse_dashes s) = filter alnum_char s"
  by (induction s rule: collapse_dashes.induct)
    (auto simp: alnum_char_def filter_alnum_dropWhile [unfolded alnum_char_def])

lemma filter_alnum_replace: "filter alnum_char (replace_invalid s) = filter alnum_char s"
  by (induction s) (auto simp: replace_invalid_def label_char_def alnum_char_def)

lemma filter_alnum_Trim: "filter alnum_char (Trim s ''-'') = filter alnum_char s"
  using filter_alnum_dropWhile by (simp add: Trim_def TrimLeft_def TrimRight_def rev_filter [symmetric])

lemma sanitizeLabel_alnum: "filter alnum_char (sanitizeLabel s) = filter alnum_char s"
  by (simp add: sanitizeLabel_def filter_alnum_Trim filter_alnum_collapse filter_alnum_replace)

subsection \<open>Lemmas: templates\<close>

text \<open>The text a parsed template stands for, with its tags put back between their marks.\<close>

fun unparse :: "string \<Rightarrow> string \<Rightarrow> string list \<Rightarrow> string list \<Rightarrow> string" where
  "unparse a b (x # xs) (g # gs) = x @ a @ g @ b @ unparse a b xs gs"
| "unparse a b xs gs = concat xs"

lemma Reset_loop_unparse:
  "Reset_loop a b s = Inr (texts, tags) \<Longrightarrow>
     unparse a b texts tags = s \<and> length texts = Suc (length tags)"
proof (induction a b s arbitrary: texts tags rule: Reset_loop.induct)
  case (1 a b s)
  show ?case
  proof (cases "Index s a")
    case None
    with "1.prems" show ?thesis by (auto simp: Reset_loop.simps [of a b s] split: if_splits)
  next
    case (Some n)
    let ?s1 = "drop (n + length a) s"
    from "1.prems" Some obtain k xs gs where tags: "\<not> (a = [] \<or> b = [])"
      and k: "Index ?s1 b = Some k"
      and rest: "Reset_loop a b (drop (k + length b) ?s1) = Inr (xs, gs)"
      and eq: "texts = take n s # xs" "tags = take k ?s1 # gs"
      by (auto simp: Reset_loop.simps [of a b s] Let_def split: if_splits option.splits sum.splits)
    have "unparse a b xs gs = drop (k + length b) ?s1 \<and> length xs = Suc (length gs)"
      using "1.IH" [OF tags Some refl k rest] .
    with eq Index_Some [OF Some] Index_Some [OF k] show ?thesis by simp
  qed
qed

lemma unparse_Cons:
  "length xs = Suc (length gs) \<Longrightarrow>
     unparse a b xs gs = concat (map (\<lambda>(x, g). x @ a @ g @ b) (zip (butlast xs) gs)) @ last xs"
proof (induction gs arbitrary: xs)
  case Nil
  then show ?case by (cases xs) auto
next
  case (Cons g gs)
  then obtain x y ys where "xs = x # y # ys" by (metis length_Suc_conv)
  with Cons show ?case by simp
qed

text \<open>What \<open>ExecuteFunc\<close> writes when the function fails on no tag, and when it does.\<close>

lemma write_tagged_Inr:
  "\<forall>p \<in> set ps. f (snd p) = Inr (g (snd p)) \<Longrightarrow>
     write_tagged f ps = Inr (concat (map (\<lambda>(text, tag). text @ g tag) ps))"
  by (induction ps) (auto split: sum.splits)

lemma write_tagged_Inl:
  "(\<exists>e. write_tagged f ps = Inl e) \<longleftrightarrow> (\<exists>p \<in> set ps. \<exists>e. f (snd p) = Inl e)"
  by (induction ps) (auto split: sum.splits)

lemma Reset_cases:
  assumes "Reset template a b = Inr t"
  obtains "t_texts t = []" "t_template t = template"
  | texts where "t_texts t = texts" "Reset_loop a b template = Inr (texts, t_tags t)"
    "length texts = Suc (length (t_tags t))" "texts \<noteq> []"
  using assms that
  by (auto simp: Reset_def split: if_splits sum.splits dest!: Reset_loop_unparse)
     (metis length_0_conv nat.distinct(1) template.select_convs(2) template.select_convs(3))

lemma ExecuteFunc_identity:
  assumes "Reset template a b = Inr t"
  shows "ExecuteFunc t (\<lambda>tag. Inr (a @ tag @ b)) = Inr template"
  using assms
proof (cases rule: Reset_cases)
  case 1
  then show ?thesis by (simp add: ExecuteFunc_def)
next
  case (2 texts)
  then have "unparse a b texts (t_tags t) = template" using Reset_loop_unparse by blast
  with 2 show ?thesis
    by (simp add: ExecuteFunc_def unparse_Cons
        write_tagged_Inr [where g = "\<lambda>tag. a @ tag @ b"])
qed

lemma Reset_tags:
  assumes "Reset template a b = Inr t"
  shows "map snd (zip (butlast (t_texts t)) (t_tags t)) = (if t_texts t = [] then [] else t_tags t)"
  using assms by (cases rule: Reset_cases) auto

lemma Reset_no_texts: "Reset template a b = Inr t \<Longrightarrow> t_texts t = [] \<Longrightarrow> t_tags t = []"
  by (auto simp: Reset_def split: if_splits sum.splits dest: Reset_loop_unparse)

lemma ExecuteFunc_Inl:
  assumes "Reset template a b = Inr t"
  shows "(\<exists>e. ExecuteFunc t f = Inl e) \<longleftrightarrow> (\<exists>tag \<in> set (t_tags t). \<exists>e. f tag = Inl e)"
proof -
  let ?ps = "zip (butlast (t_texts t)) (t_tags t)"
  have "(\<exists>p \<in> set ?ps. \<exists>e. f (snd p) = Inl e) \<longleftrightarrow> (\<exists>tag \<in> set (map snd ?ps). \<exists>e. f tag = Inl e)"
    by simp
  then show ?thesis
    using write_tagged_Inl [of f ?ps] Reset_no_texts [OF assms] Reset_tags [OF assms]
    by (auto simp: ExecuteFunc_def split: sum.splits if_splits)
qed

definition known_tags :: "string set" where
  "known_tags = {''service_name'', ''stack_name'', ''environment_name''}"

lemma template_tag_Inl: "(\<exists>e. template_tag s k n tag = Inl e) \<longleftrightarrow> tag \<notin> known_tags"
  by (auto simp: template_tag_def known_tags_def)

lemma FqdnFromTemplate_Inr_iff:
  "(\<exists>f. FqdnFromTemplate template s k n root = Inr f) \<longleftrightarrow>
     (\<exists>t. NewTemplate template startTag endTag = Inr t \<and> set (t_tags t) \<subseteq> known_tags)"
proof (cases "NewTemplate template startTag endTag")
  case (Inr t)
  then have "Reset template startTag endTag = Inr t" by (simp add: NewTemplate_def)
  note ex = ExecuteFunc_Inl [OF this, of "template_tag s k n"]
  show ?thesis
  proof (cases "ExecuteFunc t (template_tag s k n)")
    case Inl
    with Inr ex show ?thesis by (auto simp: FqdnFromTemplate_def template_tag_Inl)
  next
    case (Inr v)
    with ex have "set (t_tags t) \<subseteq> known_tags" by (auto simp: template_tag_Inl)
    with Inr \<open>NewTemplate template startTag endTag = Inr t\<close> show ?thesis
      by (simp add: FqdnFromTemplate_def)
  qed
qed (simp add: FqdnFromTemplate_def)

lemma FqdnFromTemplate_root:
  "FqdnFromTemplate template s k n root = Inr f \<Longrightarrow>
     HasSuffix f (ToLower (''.'' @ root)) \<and> ToLower f = f"
  by (auto simp: FqdnFromTemplate_def simp del: append_Cons append_Nil ToLower_append
      split: sum.splits)
     (metis HasSuffix_append ToLower_append append_assoc)

subsection \<open>Lemmas: the state RRSet\<close>

lemma StateFqdn_lower: "ToLower (StateFqdn u root) = StateFqdn u root"
  by (simp add: StateFqdn_def)

lemma StateRecord_sel [simp]:
  "d_fqdn (StateRecord f t es) = f" "d_type (StateRecord f t es) = ''TXT''"
  "d_ttl (StateRecord f t es) = t" "set (d_records (StateRecord f t es)) = set es"
  by (simp_all add: StateRecord_def strings.set_sort_slice)

lemma StateRecord_sort:
  assumes "distinct es"
  shows "d_records (StateRecord f t es) = sort es"
  using assms
  by (simp add: StateRecord_def strings.sort_slice_unique strict_sorted_iff)

subsection \<open>Properties\<close>

text \<open>
  C36. \<open>sanitizeLabel\<close> turns any string into a label of letters, digits and single dashes that
  neither starts nor ends with a dash, keeps all letters and digits in their order, and leaves
  such labels as they are.
\<close>
theorem sanitizeLabel_correct:
  "valid_label (sanitizeLabel label) \<and> filter alnum_char (sanitizeLabel label) = filter alnum_char label
   \<and> (valid_label label \<longleftrightarrow> sanitizeLabel label = label)"
  by (metis sanitizeLabel_valid sanitizeLabel_alnum sanitizeLabel_fixed)

text \<open>
  C38. The template parser loses nothing: a template that is accepted, written with its tags put
  back between their marks, is the template.
\<close>
theorem template_roundtrip:
  assumes "NewTemplate template start stop = Inr t"
  shows "ExecuteFunc t (\<lambda>tag. Inr (start @ tag @ stop)) = (Inr template :: template_error + string)"
  using assms ExecuteFunc_identity by (simp add: NewTemplate_def split: sum.splits)

theorem template_roundtrip_witness:
  "\<exists>t. NewTemplate ''%{{service_name}}.x'' ''%{{'' ''}}'' = Inr t
     \<and> ExecuteFunc t (\<lambda>tag. Inr (''%{{'' @ tag @ ''}}'')) = (Inr ''%{{service_name}}.x'' :: template_error + string)"
proof -
  have "isl (NewTemplate ''%{{service_name}}.x'' ''%{{'' ''}}'') = False" by code_simp
  then obtain t where "NewTemplate ''%{{service_name}}.x'' ''%{{'' ''}}'' = Inr t" by (metis isl_def sum.exhaust)
  with template_roundtrip [OF this] show ?thesis by blast
qed

text \<open>
  C37. \<open>FqdnFromTemplate\<close> returns a name exactly when the template parses and uses only the three
  known placeholders, and ends the process otherwise; the name is in lower case and ends in the
  root domain.
\<close>
theorem FqdnFromTemplate_outcome:
  "case FqdnFromTemplate template service stack environment root of
     Inr fqdn \<Rightarrow> HasSuffix fqdn (ToLower (''.'' @ root)) \<and> ToLower fqdn = fqdn
       \<and> (\<exists>t. NewTemplate template startTag endTag = Inr t \<and> set (t_tags t) \<subseteq> known_tags)
   | Inl _ \<Rightarrow> \<not> (\<exists>t. NewTemplate template startTag endTag = Inr t \<and> set (t_tags t) \<subseteq> known_tags)"
  using FqdnFromTemplate_Inr_iff [of template service stack environment root]
    FqdnFromTemplate_root [of template service stack environment root]
  by (auto split: sum.splits)

text \<open>
  The state RRSet does not depend on the iteration order of the set of names: its values are
  the names in ascending order, without repetition.
\<close>
lemma StateRecord_deterministic:
  assumes "distinct names" and "mset names' = mset names"
  shows "StateRecord fqdn ttl names' = StateRecord fqdn ttl names
    \<and> d_records (StateRecord fqdn ttl names) = sort names"
proof -
  have "distinct names'" using assms mset_eq_imp_distinct_iff by blast
  moreover have "sort names' = sort names" using assms(2) by (metis sorted_list_of_multiset_mset)
  ultimately have "d_records (StateRecord fqdn ttl names') = d_records (StateRecord fqdn ttl names)"
    using assms(1) by (simp add: StateRecord_sort)
  then have "StateRecord fqdn ttl names' = StateRecord fqdn ttl names" by (simp add: StateRecord_def)
  with StateRecord_sort [OF assms(1)] show ?thesis by simp
qed

text \<open>A name without letters and digits has an empty label, and an unknown placeholder ends the
  process.\<close>

lemma sanitizeLabel_may_be_empty: "sanitizeLabel ''___'' = []"
  by code_simp

lemma unknown_placeholder_aborts:
  "\<exists>a. FqdnFromTemplate ''%{{container_name}}'' service stack environment root = Inl a"
proof -
  have "NewTemplate ''%{{container_name}}'' startTag endTag
      = Inr \<lparr>t_template = ''%{{container_name}}'', t_texts = [[], []], t_tags = [''container_name'']\<rparr>" by code_simp
  then have "\<not> (\<exists>f. FqdnFromTemplate ''%{{container_name}}'' service stack environment root = Inr f)"
    by (simp add: FqdnFromTemplate_Inr_iff known_tags_def)
  then show ?thesis by (metis sum.exhaust)
qed

end
