(* ===== verification/Provider.thy ===== *)
theory Provider
  imports Utils
begin

text \<open>
  The package \<open>providers\<close> (src/providers/provider.go): the interface every DNS provider
  implements and the registry the program selects one from. A Go interface value is a record
  of functions; the state a provider keeps, together with the remote zone it talks to, is an
  argument \<open>'p\<close> that every method takes and returns. An error result is \<open>Some\<close> or \<open>Inl\<close>.

  \<open>dns_provider\<close> is the contract the synchronization relies on: it reads the zone as a partial
  function from name and type to the set of values, says what a successful change does to it,
  and that a change, even one that fails, touches no other name and type. \<open>storable\<close> are the
  records the provider can keep, \<open>removable\<close> the names and types it can remove again.
\<close>

record ('e, 'p) provider =
  pInit :: "string \<Rightarrow> 'p \<Rightarrow> 'e option \<times> 'p"
  pGetName :: string
  pHealthCheck :: "'p \<Rightarrow> 'e option \<times> 'p"
  pAddRecord :: "dns_record \<Rightarrow> 'p \<Rightarrow> 'e option \<times> 'p"
  pRemoveRecord :: "dns_record \<Rightarrow> 'p \<Rightarrow> 'e option \<times> 'p"
  pUpdateRecord :: "dns_record \<Rightarrow> 'p \<Rightarrow> 'e option \<times> 'p"
  pGetRecords :: "'p \<Rightarrow> ('e + dns_record list) \<times> 'p"

datatype 'e registry_error = InitFailed 'e | NoSuchProvider string

definition RegisterProvider ::
    "string \<Rightarrow> ('e, 'p) provider \<Rightarrow> ('e, 'p) provider gomap \<Rightarrow> abort + ('e, 'p) provider gomap" where
  "RegisterProvider name provider providers =
     (if map_of providers name \<noteq> None
      then Inl (Fatal (''Provider tried to register twice: '' @ name))
      else Inr (AList.update name provider providers))"

definition GetProvider ::
    "string \<Rightarrow> string \<Rightarrow> ('e, 'p) provider gomap \<Rightarrow> 'p \<Rightarrow> ('e registry_error + ('e, 'p) provider) \<times> 'p" where
  "GetProvider name rootDomainName providers s =
     (case map_of providers name of
        Some provider \<Rightarrow>
          (case pInit provider rootDomainName s of
             (Some e, s') \<Rightarrow> (Inl (InitFailed e), s')
           | (None, s') \<Rightarrow> (Inr provider, s'))
      | None \<Rightarrow> (Inl (NoSuchProvider name), s))"

subsection \<open>The contract of a provider\<close>

definition rkey :: "dns_record \<Rightarrow> string \<times> string" where
  "rkey r = (d_fqdn r, d_type r)"

definition rview :: "dns_record list \<Rightarrow> (string \<times> string) \<rightharpoonup> string set" where
  "rview rs = map_of (map (\<lambda>r. (rkey r, set (d_records r))) rs)"

lemma rview_Some: "distinct (map rkey rs) \<Longrightarrow> r \<in> set rs \<Longrightarrow> rview rs (rkey r) = Some (set (d_records r))"
  by (auto simp: rview_def comp_def intro!: map_of_is_SomeI)

lemma rview_find: "rview rs key = map_option (\<lambda>r. set (d_records r)) (find (\<lambda>r. rkey r = key) rs)"
  by (induction rs) (auto simp: rview_def)

locale dns_provider =
  fixes P :: "('e, 'p) provider"
    and inv :: "'p \<Rightarrow> bool"
    and zone :: "'p \<Rightarrow> (string \<times> string) \<rightharpoonup> string set"
    and storable :: "dns_record \<Rightarrow> bool"
    and removable :: "string \<times> string \<Rightarrow> bool"
  assumes get_frame: "inv s \<Longrightarrow> pGetRecords P s = (res, s') \<Longrightarrow> inv s' \<and> zone s' = zone s"
    and get_view: "inv s \<Longrightarrow> pGetRecords P s = (Inr rs, s') \<Longrightarrow>
          distinct (map rkey rs) \<and> rview rs = zone s"
    and add_frame: "inv s \<Longrightarrow> storable r \<Longrightarrow> pAddRecord P r s = (e, s') \<Longrightarrow>
          inv s' \<and> (\<forall>k. k \<noteq> rkey r \<longrightarrow> zone s' k = zone s k)"
    and add_ok: "inv s \<Longrightarrow> storable r \<Longrightarrow> zone s (rkey r) = None \<Longrightarrow>
          pAddRecord P r s = (None, s') \<Longrightarrow> zone s' (rkey r) = Some (set (d_records r))"
    and update_frame: "inv s \<Longrightarrow> storable r \<Longrightarrow> pUpdateRecord P r s = (e, s') \<Longrightarrow>
          inv s' \<and> (\<forall>k. k \<noteq> rkey r \<longrightarrow> zone s' k = zone s k)"
    and update_ok: "inv s \<Longrightarrow> storable r \<Longrightarrow> zone s (rkey r) \<noteq> None \<Longrightarrow>
          pUpdateRecord P r s = (None, s') \<Longrightarrow> zone s' (rkey r) = Some (set (d_records r))"
    and remove_frame: "inv s \<Longrightarrow> removable (rkey r) \<Longrightarrow> zone s (rkey r) \<noteq> None \<Longrightarrow> pRemoveRecord P r s = (e, s') \<Longrightarrow>
          inv s' \<and> (\<forall>k. k \<noteq> rkey r \<longrightarrow> zone s' k = zone s k)"
    and remove_ok: "inv s \<Longrightarrow> removable (rkey r) \<Longrightarrow> zone s (rkey r) \<noteq> None \<Longrightarrow>
          pRemoveRecord P r s = (None, s') \<Longrightarrow> zone s' (rkey r) = None"
begin

lemma get_record:
  assumes "inv s" and "pGetRecords P s = (Inr rs, s')" and "r \<in> set rs"
  shows "zone s (rkey r) = Some (set (d_records r))"
  using assms get_view [OF assms(1,2)] rview_Some by metis

end

text \<open>A provider that carries out every change it should: \<open>accepted\<close> are the records with valid values,
  and \<open>holds s r\<close> says that the provider has the record \<open>r\<close> as it is, so that it can be removed.\<close>

locale reliable_provider = dns_provider P inv zone storable removable
  for P :: "('e, 'p) provider" and inv :: "'p \<Rightarrow> bool"
    and zone :: "'p \<Rightarrow> (string \<times> string) \<rightharpoonup> string set" and storable :: "dns_record \<Rightarrow> bool"
    and removable :: "string \<times> string \<Rightarrow> bool" +
  fixes accepted :: "dns_record \<Rightarrow> bool" and holds :: "'p \<Rightarrow> dns_record \<Rightarrow> bool"
  assumes add_succeeds: "inv s \<Longrightarrow> storable r \<Longrightarrow> accepted r \<Longrightarrow> fst (pAddRecord P r s) = None"
    and update_succeeds: "inv s \<Longrightarrow> storable r \<Longrightarrow> accepted r \<Longrightarrow> fst (pUpdateRecord P r s) = None"
    and remove_succeeds: "inv s \<Longrightarrow> holds s r \<Longrightarrow> fst (pRemoveRecord P r s) = None"
    and add_holds: "inv s \<Longrightarrow> holds s r \<Longrightarrow> storable r' \<Longrightarrow> rkey r' \<noteq> rkey r \<Longrightarrow>
          pAddRecord P r' s = (e, s') \<Longrightarrow> holds s' r"
    and update_holds: "inv s \<Longrightarrow> holds s r \<Longrightarrow> storable r' \<Longrightarrow> rkey r' \<noteq> rkey r \<Longrightarrow>
          pUpdateRecord P r' s = (e, s') \<Longrightarrow> holds s' r"
    and remove_holds: "inv s \<Longrightarrow> holds s r \<Longrightarrow> removable (rkey r') \<Longrightarrow> zone s (rkey r') \<noteq> None \<Longrightarrow> rkey r' \<noteq> rkey r \<Longrightarrow>
          pRemoveRecord P r' s = (e, s') \<Longrightarrow> holds s' r"

subsection \<open>Lemmas: the registry\<close>

lemma RegisterProvider_Inr:
  assumes "gomap_wf providers" and "RegisterProvider name p providers = Inr reg"
  shows "gomap_wf reg \<and> map_of reg = (map_of providers)(name \<mapsto> p)"
  using assms by (auto simp: RegisterProvider_def update_conv' split: if_splits)

lemma RegisterProvider_twice:
  "RegisterProvider name p providers = Inr reg \<Longrightarrow> RegisterProvider name q reg \<noteq> Inr reg'"
  by (auto simp: RegisterProvider_def gomap_lookup split: if_splits)

text \<open>
  The registry: a name can be registered once and a second registration ends the process;
  looking a registered name up initializes that provider with the root domain and returns it
  exactly when the initialization succeeds; an unknown name is an error and touches nothing.
\<close>
lemma registry_correct:
  assumes "RegisterProvider name p providers = Inr reg"
  shows "(\<exists>e. RegisterProvider name q reg = Inl e)
    \<and> GetProvider name root reg s =
        (case pInit p root s of (Some e, s') \<Rightarrow> (Inl (InitFailed e), s') | (None, s') \<Rightarrow> (Inr p, s'))
    \<and> (\<forall>other. other \<noteq> name \<longrightarrow> GetProvider other root reg s = GetProvider other root providers s)"
  using assms by (auto simp: RegisterProvider_def GetProvider_def gomap_lookup split: if_splits)

end
