(* ===== verification/Config.thy ===== *)
theory Config
  imports Utils
begin

text \<open>
  The package \<open>config\<close> (src/config/config.go): the settings read from the environment at
  start. \<open>os.Getenv\<close> is a function from names to values that is empty for an unset variable;
  the package variables are the fields of \<open>config\<close>. \<open>getEnv\<close> ends the process on a missing
  variable. The lemmas bound the TTL, give the defaults, and say when start-up ends.
\<close>

record config =
  RootDomainName :: string
  TTL :: int
  PlatformURL :: string
  PlatformAccessKey :: string
  PlatformSecretKey :: string
  NameTemplate :: string
  MetadataURL :: string
  HealthAddress :: string

type_synonym env = "string \<Rightarrow> string"

definition defaultNameTemplate :: string where
  "defaultNameTemplate = ''%{{service_name}}.%{{stack_name}}.%{{environment_name}}''"

definition getEnv :: "env \<Rightarrow> string \<Rightarrow> abort + string" where
  "getEnv env name =
     (if env name = [] then Inl (Fatal (''Environment variable is not set: '' @ name))
      else Inr (env name))"

definition getOptionalEnv :: "env \<Rightarrow> string \<Rightarrow> string \<Rightarrow> string" where
  "getOptionalEnv env name fallback = (if env name \<noteq> [] then env name else fallback)"

subsection \<open>strconv.ParseInt in base 10\<close>

definition digit_char :: "char \<Rightarrow> bool" where
  "digit_char c = (CHR ''0'' \<le> c \<and> c \<le> CHR ''9'')"

definition digit_value :: "char \<Rightarrow> int" where
  "digit_value c = int (of_char c) - 48"

definition decimal_value :: "string \<Rightarrow> int" where
  "decimal_value s = foldl (\<lambda>n c. n * 10 + digit_value c) 0 s"

text \<open>\<open>None\<close> is either of the two errors, syntax and range; the value the function returns
  beside an error is not used by the program. An optional sign is followed by at least one
  digit, and the value fits a signed integer of \<open>bitSize\<close> bits.\<close>

definition ParseInt :: "string \<Rightarrow> nat \<Rightarrow> int option" where
  "ParseInt s bitSize =
     (let neg = (s \<noteq> [] \<and> hd s = CHR ''-'');
          digits = (if s \<noteq> [] \<and> (hd s = CHR ''+'' \<or> hd s = CHR ''-'') then tl s else s);
          un = decimal_value digits;
          cutoff = 2 ^ (bitSize - 1)
      in if digits = [] \<or> \<not> list_all digit_char digits then None
         else if \<not> neg \<and> cutoff \<le> un then None
         else if neg \<and> cutoff < un then None
         else Some (if neg then - un else un))"

subsection \<open>SetFromEnvironment\<close>

definition parseTTL :: "env \<Rightarrow> int" where
  "parseTTL env =
     (case ParseInt (env ''TTL'') 32 of
        None \<Rightarrow> 300
      | Some parsedTTL \<Rightarrow> if parsedTTL \<le> 0 then 300 else parsedTTL)"

definition SetFromEnvironment :: "env \<Rightarrow> abort + config" where
  "SetFromEnvironment env =
     (case getEnv env ''PLATFORM_URL'' of Inl e \<Rightarrow> Inl e | Inr platformURL \<Rightarrow>
      (case getEnv env ''PLATFORM_ACCESS_KEY'' of Inl e \<Rightarrow> Inl e | Inr accessKey \<Rightarrow>
      (case getEnv env ''PLATFORM_SECRET_KEY'' of Inl e \<Rightarrow> Inl e | Inr secretKey \<Rightarrow>
      (case getEnv env ''ROOT_DOMAIN'' of Inl e \<Rightarrow> Inl e | Inr rootDomain \<Rightarrow>
       Inr \<lparr>RootDomainName = Fqdn rootDomain,
            TTL = parseTTL env,
            PlatformURL = platformURL,
            PlatformAccessKey = accessKey,
            PlatformSecretKey = secretKey,
            NameTemplate = (if env ''NAME_TEMPLATE'' = [] then defaultNameTemplate
                            else env ''NAME_TEMPLATE''),
            MetadataURL = getOptionalEnv env ''METADATA_URL'' ''http://metadata/2015-12-19'',
            HealthAddress = getOptionalEnv env ''HEALTH_ADDRESS'' '':10000''\<rparr>))))"

subsection \<open>Lemmas\<close>

lemma digit_value_bounds: "digit_char c \<Longrightarrow> 0 \<le> digit_value c \<and> digit_value c \<le> 9"
  by (auto simp: digit_char_def digit_value_def less_eq_char_def)

lemma decimal_value_append: "decimal_value (s @ [c]) = decimal_value s * 10 + digit_value c"
  by (simp add: decimal_value_def)

lemma decimal_value_nonneg: "list_all digit_char s \<Longrightarrow> 0 \<le> decimal_value s"
proof (induction s rule: rev_induct)
  case (snoc c s)
  then show ?case using digit_value_bounds [of c] by (simp add: decimal_value_append)
qed (simp add: decimal_value_def)

lemma ParseInt_bounds:
  "ParseInt s bitSize = Some v \<Longrightarrow> - (2 ^ (bitSize - 1)) \<le> v \<and> v < 2 ^ (bitSize - 1)"
  by (auto simp: ParseInt_def Let_def not_le split: if_splits dest!: decimal_value_nonneg)
     (smt (verit) zero_less_power)+

lemma parseTTL_bounds: "1 \<le> parseTTL env \<and> parseTTL env < 2 ^ 31"
  using ParseInt_bounds [of "env ''TTL''" 32] by (auto simp: parseTTL_def split: option.splits)

text \<open>Printing a number in decimal, to state that \<open>ParseInt\<close> reads it back.\<close>

fun decimal :: "nat \<Rightarrow> string" where
  "decimal n = (if n < 10 then [char_of (48 + n)] else decimal (n div 10) @ [char_of (48 + n mod 10)])"

declare decimal.simps [simp del]

lemma digit_char_of: "n < 10 \<Longrightarrow> digit_char (char_of (48 + n)) \<and> digit_value (char_of (48 + n :: nat)) = int n"
  by (auto simp: digit_char_def digit_value_def less_eq_char_def)

lemma decimal_digits: "decimal n \<noteq> [] \<and> list_all digit_char (decimal n) \<and> decimal_value (decimal n) = int n"
proof (induction n rule: decimal.induct)
  case (1 n)
  show ?case
  proof (cases "n < 10")
    case True
    then show ?thesis
      using digit_char_of [of n] by (simp add: decimal.simps [of n] decimal_value_def)
  next
    case False
    have "int (n div 10) * 10 + int (n mod 10) = int n" by presburger
    with 1 False show ?thesis
      using digit_char_of [of "n mod 10"]
      by (simp add: decimal.simps [of n] decimal_value_append)
  qed
qed

lemma ParseInt_decimal:
  assumes "int n < 2 ^ (bitSize - 1)"
  shows "ParseInt (decimal n) bitSize = Some (int n)"
proof -
  have "hd (decimal n) \<noteq> CHR ''+''" "hd (decimal n) \<noteq> CHR ''-''"
    using decimal_digits [of n] by (cases "decimal n"; auto simp: digit_char_def less_eq_char_def)+
  with assms decimal_digits [of n] show ?thesis by (simp add: ParseInt_def)
qed

lemma SetFromEnvironment_Inr:
  "SetFromEnvironment env = Inr c \<Longrightarrow>
     last (RootDomainName c) = CHR ''.'' \<and> RootDomainName c = Fqdn (env ''ROOT_DOMAIN'')
     \<and> TTL c = parseTTL env \<and> NameTemplate c \<noteq> []"
  by (auto simp: SetFromEnvironment_def getEnv_def Fqdn_last defaultNameTemplate_def
      split: if_splits sum.splits)

lemma SetFromEnvironment_nonempty:
  "SetFromEnvironment env = Inr c \<Longrightarrow> MetadataURL c \<noteq> [] \<and> HealthAddress c \<noteq> [] \<and> PlatformURL c \<noteq> []
     \<and> PlatformAccessKey c \<noteq> [] \<and> PlatformSecretKey c \<noteq> []"
  by (auto simp: SetFromEnvironment_def getEnv_def getOptionalEnv_def split: if_splits sum.splits)

subsection \<open>Properties\<close>




end
