(* ===== verification/Sync_Engine.thy ===== *)
theory Sync_Engine
  imports Provider Config
begin

text \<open>
  src/external-dns.go: one synchronization of the provider's zone with the desired records,
  and the upgrade of zones that have no state RRSet yet. The package variables \<open>provider\<close>,
  \<open>m\<close> and \<open>config\<close> are arguments; the provider's state is passed along. A Go result
  \<open>(records, error)\<close> whose records are used although there is an error is a pair, one whose
  records are dropped is a sum. Log output is left out.
\<close>

subsection \<open>Operations\<close>

record op =
  Name :: string

definition Add :: op where "Add = \<lparr>Name = ''Add''\<rparr>"
definition Remove :: op where "Remove = \<lparr>Name = ''Remove''\<rparr>"
definition Update :: op where "Update = \<lparr>Name = ''Update''\<rparr>"

datatype 'e sync_error = ReadError 'e | OpError op string 'e | UnsupportedOp string

text \<open>The switch of \<open>updateRecords\<close>; \<open>None\<close> is its default branch.\<close>

definition apply_op ::
    "('e, 'p) provider \<Rightarrow> op \<Rightarrow> dns_record \<Rightarrow> 'p \<Rightarrow> ('e option \<times> 'p) option" where
  "apply_op P op r s =
     (if op = Add then Some (pAddRecord P r s)
      else if op = Remove then Some (pRemoveRecord P r s)
      else if op = Update then Some (pUpdateRecord P r s)
      else None)"

fun updateRecords_loop ::
    "('e, 'p) provider \<Rightarrow> op \<Rightarrow> metadata_dns_record list \<Rightarrow> metadata_dns_record list \<Rightarrow> 'p
       \<Rightarrow> metadata_dns_record list \<times> 'e sync_error option \<times> 'p" where
  "updateRecords_loop P op [] changed s = (changed, None, s)"
| "updateRecords_loop P op (value # rest) changed s =
     (case apply_op P op (m_dns value) s of
        None \<Rightarrow> (changed, Some (UnsupportedOp (Name op)), s)
      | Some (Some e, s') \<Rightarrow> (changed, Some (OpError op (d_fqdn (m_dns value)) e), s')
      | Some (None, s') \<Rightarrow>
          updateRecords_loop P op rest (if op \<noteq> Remove then changed @ [value] else changed) s')"

definition updateRecords ::
    "('e, 'p) provider \<Rightarrow> metadata_dns_record list \<Rightarrow> op \<Rightarrow> 'p
       \<Rightarrow> metadata_dns_record list \<times> 'e sync_error option \<times> 'p" where
  "updateRecords P toChange op s = updateRecords_loop P op toChange [] s"

subsection \<open>The order of the changes\<close>

text \<open>Indexing a Go map with a missing key yields the zero value of the element type.\<close>

definition zero_dns_record :: dns_record where
  "zero_dns_record = \<lparr>d_fqdn = [], d_records = [], d_type = [], d_ttl = 0\<rparr>"

definition zero_metadata_record :: metadata_dns_record where
  "zero_metadata_record = \<lparr>m_service = [], m_stack = [], m_dns = zero_dns_record\<rparr>"

definition gomap_get :: "'v \<Rightarrow> 'v gomap \<Rightarrow> string \<Rightarrow> 'v" where
  "gomap_get zero m k = (case map_of m k of None \<Rightarrow> zero | Some v \<Rightarrow> v)"

definition record_less :: "(string \<Rightarrow> dns_record) \<Rightarrow> string \<Rightarrow> string \<Rightarrow> bool" where
  "record_less recs i j =
     (if d_type (recs i) \<noteq> d_type (recs j) then d_type (recs i) \<noteq> ''TXT'' else i < j)"

definition sortedKeys :: "metadata_dns_record gomap \<Rightarrow> string list" where
  "sortedKeys records =
     sort_slice (record_less (\<lambda>k. m_dns (gomap_get zero_metadata_record records k))) (map fst records)"

definition sortedDNSRecordKeys :: "dns_record gomap \<Rightarrow> string list" where
  "sortedDNSRecordKeys records =
     sort_slice (record_less (gomap_get zero_dns_record records)) (map fst records)"

subsection \<open>Adding, updating, removing\<close>

definition toAdd :: "metadata_dns_record gomap \<Rightarrow> dns_record gomap \<Rightarrow> metadata_dns_record list" where
  "toAdd metadataRecs providerRecs =
     map (gomap_get zero_metadata_record metadataRecs)
       (filter (\<lambda>key. map_of providerRecs key = None) (sortedKeys metadataRecs))"

definition addMissingRecords ::
    "('e, 'p) provider \<Rightarrow> metadata_dns_record gomap \<Rightarrow> dns_record gomap \<Rightarrow> 'p
       \<Rightarrow> metadata_dns_record list \<times> 'e sync_error option \<times> 'p" where
  "addMissingRecords P metadataRecs providerRecs s =
     updateRecords P (toAdd metadataRecs providerRecs) Add s"

text \<open>The values of a record as the keys of a map, and the comparison of two such maps:
  different sizes, a key of the one that is not in the other, or the other way round.\<close>

definition value_set :: "string list \<Rightarrow> goset" where
  "value_set values = foldl (\<lambda>m s. goset_add s m) [] values"

definition needsUpdate :: "dns_record \<Rightarrow> dns_record \<Rightarrow> bool" where
  "needsUpdate metadataRec providerRec =
     (let metadataR = value_set (d_records metadataRec); providerR = value_set (d_records providerRec)
      in if length metadataR \<noteq> length providerR then True
         else list_ex (\<lambda>key. key \<notin> set providerR) metadataR
           \<or> list_ex (\<lambda>key. key \<notin> set metadataR) providerR)"

definition toUpdate :: "metadata_dns_record gomap \<Rightarrow> dns_record gomap \<Rightarrow> metadata_dns_record list" where
  "toUpdate metadataRecs providerRecs =
     map (gomap_get zero_metadata_record metadataRecs)
       (filter (\<lambda>key. map_of providerRecs key \<noteq> None
           \<and> needsUpdate (m_dns (gomap_get zero_metadata_record metadataRecs key))
               (gomap_get zero_dns_record providerRecs key))
         (sortedKeys metadataRecs))"

definition updateExistingRecords ::
    "('e, 'p) provider \<Rightarrow> metadata_dns_record gomap \<Rightarrow> dns_record gomap \<Rightarrow> 'p
       \<Rightarrow> metadata_dns_record list \<times> 'e sync_error option \<times> 'p" where
  "updateExistingRecords P metadataRecs providerRecs s =
     updateRecords P (toUpdate metadataRecs providerRecs) Update s"

definition toRemove :: "metadata_dns_record gomap \<Rightarrow> dns_record gomap \<Rightarrow> metadata_dns_record list" where
  "toRemove metadataRecs providerRecs =
     map (\<lambda>key. \<lparr>m_service = [], m_stack = [], m_dns = gomap_get zero_dns_record providerRecs key\<rparr>)
       (filter (\<lambda>key. map_of metadataRecs key = None) (sortedDNSRecordKeys providerRecs))"

definition removeExtraRecords ::
    "('e, 'p) provider \<Rightarrow> metadata_dns_record gomap \<Rightarrow> dns_record gomap \<Rightarrow> 'p
       \<Rightarrow> metadata_dns_record list \<times> 'e sync_error option \<times> 'p" where
  "removeExtraRecords P metadataRecs providerRecs s =
     updateRecords P (toRemove metadataRecs providerRecs) Remove s"

subsection \<open>What the provider holds\<close>

text \<open>The first record that is the state RRSet.\<close>

definition find_state :: "string \<Rightarrow> dns_record list \<Rightarrow> dns_record option" where
  "find_state stateFqdn recs = find (\<lambda>rec. d_fqdn rec = stateFqdn \<and> d_type rec = ''TXT'') recs"

text \<open>The loop over the address records, with the two maps it fills.\<close>

definition classify_step ::
    "goset \<Rightarrow> dns_record \<Rightarrow> dns_record gomap \<times> dns_record gomap \<Rightarrow> dns_record gomap \<times> dns_record gomap" where
  "classify_step ourFqdns rec maps =
     (case maps of (ourRecords, allRecords) \<Rightarrow>
        if d_type rec = ''A''
        then (if d_fqdn rec \<in> set ourFqdns then AList.update (d_fqdn rec) rec ourRecords else ourRecords,
              AList.update (d_fqdn rec) rec allRecords)
        else (ourRecords, allRecords))"

definition classify :: "string \<Rightarrow> dns_record list \<Rightarrow> dns_record gomap \<times> dns_record gomap" where
  "classify stateFqdn providerRecords =
     (let state = find_state stateFqdn providerRecords;
          ourFqdns = (case state of None \<Rightarrow> [] | Some rec \<Rightarrow> value_set (d_records rec));
          ourRecords0 = (case state of None \<Rightarrow> [] | Some rec \<Rightarrow> [(stateFqdn, rec)]);
          (ourRecords, allRecords) = fold (classify_step ourFqdns) providerRecords (ourRecords0, [])
      in case map_of ourRecords stateFqdn of
           None \<Rightarrow> (ourRecords, allRecords)
         | Some stateRec \<Rightarrow> (ourRecords, AList.update stateFqdn stateRec allRecords))"

definition getProviderDnsRecords ::
    "('e, 'p) provider \<Rightarrow> string \<Rightarrow> config \<Rightarrow> 'p \<Rightarrow> ('e + dns_record gomap \<times> dns_record gomap) \<times> 'p" where
  "getProviderDnsRecords P environmentUUID cfg s =
     (case pGetRecords P s of
        (Inl e, s') \<Rightarrow> (Inl e, s')
      | (Inr providerRecords, s') \<Rightarrow>
          (if providerRecords = [] then (Inr ([], []), s')
           else (Inr (classify (StateFqdn environmentUUID (RootDomainName cfg)) providerRecords), s')))"

subsection \<open>One synchronization\<close>

definition UpdateProviderDnsRecords ::
    "('e, 'p) provider \<Rightarrow> string \<Rightarrow> config \<Rightarrow> metadata_dns_record gomap \<Rightarrow> 'p
       \<Rightarrow> ('e sync_error + metadata_dns_record list) \<times> 'p" where
  "UpdateProviderDnsRecords P environmentUUID cfg metadataRecs s =
     (case getProviderDnsRecords P environmentUUID cfg s of
        (Inl e, s1) \<Rightarrow> (Inl (ReadError e), s1)
      | (Inr (ourRecords, allRecords), s1) \<Rightarrow>
          (case removeExtraRecords P metadataRecs ourRecords s1 of
             (_, Some e, s2) \<Rightarrow> (Inl e, s2)
           | (_, None, s2) \<Rightarrow>
               (case addMissingRecords P metadataRecs allRecords s2 of
                  (_, Some e, s3) \<Rightarrow> (Inl e, s3)
                | (added, None, s3) \<Rightarrow>
                    (case updateExistingRecords P metadataRecs allRecords s3 of
                       (_, Some e, s4) \<Rightarrow> (Inl e, s4)
                     | (changed, None, s4) \<Rightarrow> (Inr (added @ changed), s4)))))"

subsection \<open>The upgrade to the state RRSet\<close>

datatype 'e upgrade_error = UpgradeRead 'e | UpgradeAdd dns_record 'e

definition legacy_fqdns :: "string \<Rightarrow> config \<Rightarrow> dns_record list \<Rightarrow> goset" where
  "legacy_fqdns environmentName cfg allRecords =
     (let suffix = ''.'' @ ToLower (Join [environmentName, RootDomainName cfg] ''.'')
      in foldl (\<lambda>ourFqdns rec.
           if d_type rec = ''A'' \<and> HasSuffix (d_fqdn rec) suffix \<and> d_ttl rec = TTL cfg
           then goset_add (d_fqdn rec) ourFqdns else ourFqdns) [] allRecords)"

definition EnsureUpgradeToStateRRSet ::
    "('e, 'p) provider \<Rightarrow> string \<Rightarrow> string \<Rightarrow> config \<Rightarrow> 'p \<Rightarrow> 'e upgrade_error option \<times> 'p" where
  "EnsureUpgradeToStateRRSet P environmentName environmentUUID cfg s =
     (case pGetRecords P s of
        (Inl e, s1) \<Rightarrow> (Some (UpgradeRead e), s1)
      | (Inr allRecords, s1) \<Rightarrow>
          (let stateFqdn = StateFqdn environmentUUID (RootDomainName cfg) in
           if list_ex (\<lambda>rec. d_fqdn rec = stateFqdn \<and> d_type rec = ''TXT'') allRecords then (None, s1)
           else let ourFqdns = legacy_fqdns environmentName cfg allRecords in
             if ourFqdns = [] then (None, s1)
             else let stateRec = StateRecord stateFqdn (TTL cfg) ourFqdns in
               (case pAddRecord P stateRec s1 of
                  (Some e, s2) \<Rightarrow> (Some (UpgradeAdd stateRec e), s2)
                | (None, s2) \<Rightarrow> (None, s2))))"

subsection \<open>Lemmas: operations\<close>

lemma op_distinct [simp]:
  "Add \<noteq> Remove" "Add \<noteq> Update" "Remove \<noteq> Add" "Remove \<noteq> Update" "Update \<noteq> Add" "Update \<noteq> Remove"
  by (simp_all add: Add_def Remove_def Update_def)

lemma apply_op_simps [simp]:
  "apply_op P Add r s = Some (pAddRecord P r s)"
  "apply_op P Remove r s = Some (pRemoveRecord P r s)"
  "apply_op P Update r s = Some (pUpdateRecord P r s)"
  by (simp_all add: apply_op_def)

subsection \<open>Lemmas: the order of the changes\<close>

interpretation record_order: comparison "record_less recs" "{k. d_type (recs k) \<in> {''A'', ''TXT''}}"
  for recs
proof (unfold_locales, goal_cases)
  case (2 x y z)
  then show ?case by (simp, elim disjE) (simp_all add: record_less_def)
qed (auto simp: record_less_def split: if_splits)

lemma gomap_get_Some [simp]: "map_of m k = Some v \<Longrightarrow> gomap_get z m k = v"
  by (simp add: gomap_get_def)

lemma set_sortedKeys [simp]: "set (sortedKeys m) = dom (map_of m)"
  by (simp add: sortedKeys_def record_order.set_sort_slice dom_map_of_conv_image_fst)

lemma set_sortedDNSRecordKeys [simp]: "set (sortedDNSRecordKeys m) = dom (map_of m)"
  by (simp add: sortedDNSRecordKeys_def record_order.set_sort_slice dom_map_of_conv_image_fst)

lemma distinct_sort_slice_record: "distinct (sort_slice (record_less recs) xs) = distinct xs"
  by (rule mset_eq_imp_distinct_iff) (simp add: record_order.mset_sort_slice)

lemma distinct_sortedKeys [simp]: "distinct (sortedKeys m) \<longleftrightarrow> gomap_wf m"
  by (simp add: sortedKeys_def distinct_sort_slice_record gomap_wf_def)

lemma distinct_sortedDNSRecordKeys [simp]: "distinct (sortedDNSRecordKeys m) \<longleftrightarrow> gomap_wf m"
  by (simp add: sortedDNSRecordKeys_def distinct_sort_slice_record gomap_wf_def)

lemma sorted_record_less_TXT:
  assumes "sorted_wrt (record_less recs) (xs @ x # ys)" and "d_type (recs x) = ''TXT''" and "y \<in> set ys"
  shows "d_type (recs y) = ''TXT''"
  using assms by (auto simp: sorted_wrt_append record_less_def split: if_splits)

subsection \<open>Lemmas: comparing values\<close>

lemma value_set_fold:
  "set (foldl (\<lambda>m s. goset_add s m) m0 xs) = set m0 \<union> set xs
     \<and> (distinct m0 \<longrightarrow> distinct (foldl (\<lambda>m s. goset_add s m) m0 xs))"
  by (induction xs arbitrary: m0) auto

lemma set_value_set [simp]: "set (value_set xs) = set xs"
  by (simp add: value_set_def value_set_fold)

lemma distinct_value_set [simp]: "distinct (value_set xs)"
  by (simp add: value_set_def value_set_fold)

lemma needsUpdate_iff: "needsUpdate a b \<longleftrightarrow> set (d_records a) \<noteq> set (d_records b)"
proof
  assume "needsUpdate a b"
  then show "set (d_records a) \<noteq> set (d_records b)"
    using distinct_card [of "value_set (d_records a)"] distinct_card [of "value_set (d_records b)"]
    by (auto simp: needsUpdate_def Let_def list_ex_iff split: if_splits)
qed (auto simp: needsUpdate_def Let_def list_ex_iff)

subsection \<open>Lemmas: what the provider holds\<close>

definition lookup_rec :: "dns_record list \<Rightarrow> string \<Rightarrow> string \<Rightarrow> dns_record option" where
  "lookup_rec rs k t = find (\<lambda>r. rkey r = (k, t)) rs"

lemma find_state_lookup: "find_state sf rs = lookup_rec rs sf ''TXT''"
  by (simp add: find_state_def lookup_rec_def rkey_def)

lemma lookup_rec_Some: "lookup_rec rs k t = Some r \<Longrightarrow> r \<in> set rs \<and> d_fqdn r = k \<and> d_type r = t"
  by (auto simp: lookup_rec_def rkey_def find_Some_iff)

lemma lookup_rec_Cons:
  "lookup_rec (r # rs) k t = (if rkey r = (k, t) then Some r else lookup_rec rs k t)"
  by (simp add: lookup_rec_def)

lemma lookup_rec_None: "lookup_rec rs k t = None \<longleftrightarrow> (k, t) \<notin> rkey ` set rs"
  by (force simp: lookup_rec_def find_None_iff)

lemma classify_step_maps:
  assumes "classify_step F r (ours, alls) = (ours', alls')"
  shows "map_of alls' k = (if rkey r = (k, ''A'') then Some r else map_of alls k)
    \<and> map_of ours' k = (if rkey r = (k, ''A'') \<and> k \<in> set F then Some r else map_of ours k)
    \<and> (gomap_wf ours \<longrightarrow> gomap_wf ours') \<and> (gomap_wf alls \<longrightarrow> gomap_wf alls')"
  using assms by (auto simp: classify_step_def rkey_def gomap_lookup split: if_splits)

lemma fold_classify:
  assumes "distinct (map rkey rs)" and "fold (classify_step F) rs (ours, alls) = (ours', alls')"
  shows "map_of alls' k = (case lookup_rec rs k ''A'' of Some r \<Rightarrow> Some r | None \<Rightarrow> map_of alls k)
    \<and> map_of ours' k = (case lookup_rec rs k ''A'' of
           Some r \<Rightarrow> if k \<in> set F then Some r else map_of ours k | None \<Rightarrow> map_of ours k)
    \<and> (gomap_wf ours \<longrightarrow> gomap_wf ours') \<and> (gomap_wf alls \<longrightarrow> gomap_wf alls')"
  using assms
proof (induction rs arbitrary: ours alls)
  case (Cons r rs)
  obtain o1 a1 where step: "classify_step F r (ours, alls) = (o1, a1)" by fastforce
  with Cons.prems have rest: "distinct (map rkey rs)" "fold (classify_step F) rs (o1, a1) = (ours', alls')"
    by simp_all
  have later: "rkey r = (k, ''A'') \<Longrightarrow> lookup_rec rs k ''A'' = None"
    using Cons.prems(1) by (auto simp: lookup_rec_None)
  show ?case
    using Cons.IH [OF rest] classify_step_maps [OF step, of k] later
    by (cases "rkey r = (k, ''A'')") (auto simp: lookup_rec_Cons split: option.splits)
qed (simp add: lookup_rec_def)

text \<open>
  The two maps for a listing without duplicate names and types, and without an address record
  at the name of the state RRSet: \<open>allRecords\<close> holds every address record and the state RRSet,
  \<open>ourRecords\<close> the state RRSet and the address records it names.
\<close>

lemma classify_maps:
  assumes "distinct (map rkey rs)" and "lookup_rec rs sf ''A'' = None"
    and "classify sf rs = (ours, alls)"
  shows "map_of alls k = (if k = sf then lookup_rec rs sf ''TXT'' else lookup_rec rs k ''A'')"
    and "map_of ours k = (case lookup_rec rs sf ''TXT'' of
           None \<Rightarrow> None
         | Some st \<Rightarrow> if k = sf then Some st
             else if k \<in> set (d_records st) then lookup_rec rs k ''A'' else None)"
    and "gomap_wf ours \<and> gomap_wf alls"
proof -
  define F where "F = (case lookup_rec rs sf ''TXT'' of None \<Rightarrow> [] | Some rec \<Rightarrow> value_set (d_records rec))"
  define o0 where "o0 = (case lookup_rec rs sf ''TXT'' of None \<Rightarrow> [] | Some rec \<Rightarrow> [(sf, rec)])"
  obtain o1 a1 where fold: "fold (classify_step F) rs (o0, []) = (o1, a1)" by fastforce
  note maps = fold_classify [OF assms(1) fold]
  note maps1 = maps [THEN conjunct1] and maps2 = maps [THEN conjunct2, THEN conjunct1]
  have o1sf: "map_of o1 sf = lookup_rec rs sf ''TXT''"
    using maps2 [of sf] assms(2) by (auto simp: o0_def split: option.splits)
  have eq: "ours = o1"
    "alls = (case map_of o1 sf of None \<Rightarrow> a1 | Some st \<Rightarrow> AList.update sf st a1)"
    using assms(3) fold
    by (auto simp: classify_def find_state_lookup Let_def F_def o0_def split: option.splits)
  show "map_of alls k = (if k = sf then lookup_rec rs sf ''TXT'' else lookup_rec rs k ''A'')"
    using maps1 [of k] o1sf assms(2) by (auto simp: eq gomap_lookup split: option.splits)
  show "map_of ours k = (case lookup_rec rs sf ''TXT'' of None \<Rightarrow> None
       | Some st \<Rightarrow> if k = sf then Some st
           else if k \<in> set (d_records st) then lookup_rec rs k ''A'' else None)"
    using maps2 [of k] assms(2) by (auto simp: eq F_def o0_def split: option.splits)
  have "gomap_wf o0" by (simp add: o0_def gomap_wf_def split: option.splits)
  then show "gomap_wf ours \<and> gomap_wf alls"
    using maps by (auto simp: eq split: option.splits)
qed

lemma classify_Nil [simp]: "classify sf [] = ([], [])"
  by (simp add: classify_def find_state_def)

lemma getProviderDnsRecords_eq:
  "getProviderDnsRecords P u cfg s =
     (case pGetRecords P s of
        (Inl e, s') \<Rightarrow> (Inl e, s')
      | (Inr rs, s') \<Rightarrow> (Inr (classify (StateFqdn u (RootDomainName cfg)) rs), s'))"
  by (auto simp: getProviderDnsRecords_def split: prod.splits sum.splits)

end
