(* ===== verification/Sync_Correct.thy ===== *)
theory Sync_Correct
  imports Sync_Engine
begin

text \<open>
  Correctness of one synchronization. A synchronization is refined by a plan: the list of
  changes it wants, computed from the desired and the listed records, run until the first
  failure. The lemmas show that the order of Go's map iteration does not matter, that address
  records come before the state RRSet in each phase, and, for every provider that keeps the
  contract \<open>dns_provider\<close>, that a successful synchronization makes the zone hold exactly what
  is desired at every managed name, that no run touches anything else, and that a second run
  changes nothing.
\<close>

declare split_paired_All [simp del] split_paired_Ex [simp del]

subsection \<open>Plans\<close>

type_synonym change = "op \<times> metadata_dns_record"

definition plan :: "metadata_dns_record gomap \<Rightarrow> dns_record gomap \<Rightarrow> dns_record gomap \<Rightarrow> change list" where
  "plan desired ours alls =
     map (Pair Remove) (toRemove desired ours)
     @ map (Pair Add) (toAdd desired alls)
     @ map (Pair Update) (toUpdate desired alls)"

fun run_plan :: "('e, 'p) provider \<Rightarrow> change list \<Rightarrow> 'p \<Rightarrow> change list \<times> 'e sync_error option \<times> 'p" where
  "run_plan P [] s = ([], None, s)"
| "run_plan P ((op, v) # rest) s =
     (case apply_op P op (m_dns v) s of
        None \<Rightarrow> ([], Some (UnsupportedOp (Name op)), s)
      | Some (Some e, s') \<Rightarrow> ([], Some (OpError op (d_fqdn (m_dns v)) e), s')
      | Some (None, s') \<Rightarrow>
          (case run_plan P rest s' of (finished, err, s'') \<Rightarrow> ((op, v) # finished, err, s'')))"

lemma run_plan_append:
  "run_plan P (xs @ ys) s =
     (case run_plan P xs s of
        (d, Some e, s') \<Rightarrow> (d, Some e, s')
      | (d, None, s') \<Rightarrow> (case run_plan P ys s' of (d', e, s'') \<Rightarrow> (d @ d', e, s'')))"
  by (induction xs arbitrary: s) (auto split: option.splits prod.splits)

lemma updateRecords_loop_run:
  "updateRecords_loop P op vs changed s =
     (case run_plan P (map (Pair op) vs) s of
        (d, err, s') \<Rightarrow> (changed @ (if op = Remove then [] else map snd d), err, s'))"
  by (induction vs arbitrary: changed s) (auto split: option.splits prod.splits)

lemma updateRecords_run:
  "updateRecords P vs op s =
     (case run_plan P (map (Pair op) vs) s of
        (d, err, s') \<Rightarrow> (if op = Remove then [] else map snd d, err, s'))"
  by (simp add: updateRecords_def updateRecords_loop_run)

lemma run_plan_ops: "run_plan P ops s = (d, err, s') \<Longrightarrow> prefix d ops \<and> (err = None \<longrightarrow> d = ops)"
  by (induction ops arbitrary: s d) (auto split: option.splits prod.splits)

lemma run_plan_Pair:
  "run_plan P (map (Pair op) vs) s = (d, None, s') \<Longrightarrow> map snd d = vs"
  using run_plan_ops [of P "map (Pair op) vs" s d None s'] by (auto simp: comp_def)

text \<open>A synchronization runs the plan for the records it read; on success the result lists the
  added and then the updated records.\<close>

lemma UpdateProviderDnsRecords_plan:
  assumes "getProviderDnsRecords P u cfg s = (Inr (ours, alls), s1)"
  shows "UpdateProviderDnsRecords P u cfg desired s =
     (case run_plan P (plan desired ours alls) s1 of
        (_, Some e, s2) \<Rightarrow> (Inl e, s2)
      | (_, None, s2) \<Rightarrow> (Inr (toAdd desired alls @ toUpdate desired alls), s2))"
  unfolding UpdateProviderDnsRecords_def plan_def assms
  by (auto simp: removeExtraRecords_def addMissingRecords_def updateExistingRecords_def
      updateRecords_run run_plan_append split: prod.splits option.splits dest!: run_plan_Pair)

subsection \<open>Order\<close>

text \<open>Every record of the map is an address record or a TXT record.\<close>

definition plain_types :: "dns_record gomap \<Rightarrow> bool" where
  "plain_types m = (\<forall>(k, r) \<in> set m. d_type r \<in> {''A'', ''TXT''})"

definition desired_recs :: "metadata_dns_record gomap \<Rightarrow> dns_record gomap" where
  "desired_recs m = map (\<lambda>(k, v). (k, m_dns v)) m"

lemma desired_recs_lookup: "map_of (desired_recs m) k = map_option m_dns (map_of m k)"
  by (induction m) (auto simp: desired_recs_def)

lemma plain_types_get: "plain_types m \<Longrightarrow> k \<in> fst ` set m \<Longrightarrow> d_type (gomap_get z m k) \<in> {''A'', ''TXT''}"
proof -
  assume plain: "plain_types m" and "k \<in> fst ` set m"
  then obtain v where v: "map_of m k = Some v" by (metis map_of_eq_None_iff not_None_eq)
  then have "(k, v) \<in> set m" by (rule map_of_SomeD)
  with plain v show ?thesis by (auto simp: plain_types_def)
qed

lemma desired_types_get:
  assumes "plain_types (desired_recs m)" and "k \<in> fst ` set m"
  shows "d_type (m_dns (gomap_get z m k)) \<in> {''A'', ''TXT''}"
proof -
  have "k \<in> fst ` set (desired_recs m)" using assms(2) by (force simp: desired_recs_def)
  from plain_types_get [OF assms(1) this, of "m_dns z"] show ?thesis
    by (simp add: gomap_get_def desired_recs_lookup split: option.splits)
qed

lemma sorted_sortedKeys:
  assumes "gomap_wf m" and "plain_types (desired_recs m)"
  shows "sorted_wrt (record_less (\<lambda>k. m_dns (gomap_get zero_metadata_record m k))) (sortedKeys m)"
  unfolding sortedKeys_def
proof (rule record_order.sorted_sort_slice)
  show "distinct (map fst m)" using assms(1) by (simp add: gomap_wf_def)
  show "set (map fst m) \<subseteq> {k. d_type (m_dns (gomap_get zero_metadata_record m k)) \<in> {''A'', ''TXT''}}"
    using desired_types_get [OF assms(2)] by auto
qed

lemma gomap_get_mset:
  assumes "gomap_wf m" and "mset m' = mset m"
  shows "gomap_wf m' \<and> map_of m' = map_of m"
proof -
  from assms(2) have "mset (map fst m') = mset (map fst m)" by (metis mset_map)
  moreover from assms(2) have set: "set m' = set m" by (rule mset_eq_setD)
  ultimately have "distinct (map fst m')"
    using assms(1) mset_eq_imp_distinct_iff unfolding gomap_wf_def by metis
  then show ?thesis using assms(1) set by (simp add: gomap_wf_def map_of_inject_set)
qed

lemma sortedKeys_permute:
  assumes "gomap_wf m" and "plain_types (desired_recs m)" and "mset m' = mset m"
  shows "sortedKeys m' = sortedKeys m"
proof -
  have get: "gomap_get z m' = gomap_get z m" for z
    using gomap_get_mset [OF assms(1,3)] by (auto simp: gomap_get_def)
  show ?thesis
    unfolding sortedKeys_def get
  proof (rule record_order.sort_slice_permute)
    show "distinct (map fst m)" using assms(1) by (simp add: gomap_wf_def)
    show "set (map fst m) \<subseteq> {k. d_type (m_dns (gomap_get zero_metadata_record m k)) \<in> {''A'', ''TXT''}}"
      using desired_types_get [OF assms(2)] by auto
    show "mset (map fst m') = mset (map fst m)" using assms(3) by simp
  qed
qed

lemma filter_sorted_TXT_last:
  assumes "sorted_wrt (record_less recs) keys"
  shows "\<exists>as ts. filter Q keys = as @ ts \<and> (\<forall>k \<in> set as. d_type (recs k) \<noteq> ''TXT'')
     \<and> (\<forall>k \<in> set ts. d_type (recs k) = ''TXT'')"
proof -
  let ?as = "takeWhile (\<lambda>k. d_type (recs k) \<noteq> ''TXT'') (filter Q keys)"
  let ?ts = "dropWhile (\<lambda>k. d_type (recs k) \<noteq> ''TXT'') (filter Q keys)"
  have sorted: "sorted_wrt (record_less recs) (?as @ ?ts)"
    using assms by (simp add: sorted_wrt_filter)
  have "\<forall>k \<in> set ?ts. d_type (recs k) = ''TXT''"
  proof (cases ?ts)
    case (Cons t ts)
    then have t: "d_type (recs t) = ''TXT''"
      using hd_dropWhile_not [of "\<lambda>k. d_type (recs k) \<noteq> ''TXT''" "filter Q keys"] by simp
    have "d_type (recs y) = ''TXT''" if "y \<in> set ts" for y
      by (rule sorted_record_less_TXT [OF sorted [unfolded Cons] t that])
    with t show ?thesis unfolding Cons by simp
  next
    case Nil
    show ?thesis unfolding Nil by simp
  qed
  moreover have "\<forall>k \<in> set ?as. d_type (recs k) \<noteq> ''TXT''" by (auto dest: set_takeWhileD)
  ultimately show ?thesis by (metis takeWhile_dropWhile_id)
qed

subsection \<open>Managed names\<close>

text \<open>The name and type a desired record lives at, and the names the state RRSet of a zone
  claims (itself included).\<close>

definition managed_key :: "string \<Rightarrow> string \<Rightarrow> string \<times> string" where
  "managed_key sf k = (k, if k = sf then ''TXT'' else ''A'')"

definition owned :: "string \<Rightarrow> ((string \<times> string) \<rightharpoonup> string set) \<Rightarrow> string set" where
  "owned sf z = (case z (sf, ''TXT'') of None \<Rightarrow> {} | Some vs \<Rightarrow> insert sf vs)"

text \<open>The zone as a synchronization can manage it: the name of the state RRSet is not taken by an
  address record, and the provider can remove what the state RRSet claims.\<close>

definition manageable ::
    "(string \<times> string \<Rightarrow> bool) \<Rightarrow> string \<Rightarrow> ((string \<times> string) \<rightharpoonup> string set) \<Rightarrow> bool" where
  "manageable removable sf z = (z (sf, ''A'') = None \<and> (\<forall>k \<in> owned sf z. removable (managed_key sf k)))"

lemma manageable_all [simp]: "manageable (\<lambda>_. True) sf z \<longleftrightarrow> z (sf, ''A'') = None"
  by (simp add: manageable_def)

lemma manageableD: "manageable removable sf z \<Longrightarrow> z (sf, ''A'') = None"
  by (simp add: manageable_def)

text \<open>The desired records, as the metadata component builds them: every key is the name of its
  record, the state RRSet is the only TXT record, and the provider can store them.\<close>

definition desired_ok :: "(dns_record \<Rightarrow> bool) \<Rightarrow> string \<Rightarrow> metadata_dns_record gomap \<Rightarrow> bool" where
  "desired_ok storable sf m =
     (gomap_wf m \<and> (\<forall>(k, v) \<in> set m. rkey (m_dns v) = managed_key sf k \<and> storable (m_dns v)))"

text \<open>The state RRSet, when there is one, names only desired records.\<close>

definition closed_state :: "string \<Rightarrow> metadata_dns_record gomap \<Rightarrow> bool" where
  "closed_state sf m =
     (case map_of m sf of None \<Rightarrow> True | Some v \<Rightarrow> list_all (\<lambda>k. map_of m k \<noteq> None) (d_records (m_dns v)))"

text \<open>What a successful synchronization makes of a zone: the desired values at the desired names,
  nothing at the names that were claimed and are not desired, and no change elsewhere.\<close>

definition synchronized ::
    "string \<Rightarrow> metadata_dns_record gomap \<Rightarrow> ((string \<times> string) \<rightharpoonup> string set)
       \<Rightarrow> ((string \<times> string) \<rightharpoonup> string set) \<Rightarrow> bool" where
  "synchronized sf m z z' =
     ((\<forall>k v. map_of m k = Some v \<longrightarrow> z' (managed_key sf k) = Some (set (d_records (m_dns v))))
      \<and> (\<forall>k \<in> owned sf z. map_of m k = None \<longrightarrow> z' (managed_key sf k) = None)
      \<and> (\<forall>key. key \<notin> managed_key sf ` (dom (map_of m) \<union> owned sf z) \<longrightarrow> z' key = z key))"

lemma managed_key_inject [simp]: "managed_key sf j = managed_key sf k \<longleftrightarrow> j = k"
  by (auto simp: managed_key_def)

lemma desired_ok_lookup:
  assumes "desired_ok storable sf m" and "map_of m k = Some v"
  shows "rkey (m_dns v) = managed_key sf k" and "storable (m_dns v)"
  using assms map_of_SomeD by (fastforce simp: desired_ok_def)+

subsection \<open>Legal changes\<close>

definition change_key :: "change \<Rightarrow> string \<times> string" where
  "change_key c = rkey (m_dns (snd c))"

definition legal ::
    "(dns_record \<Rightarrow> bool) \<Rightarrow> (string \<times> string \<Rightarrow> bool) \<Rightarrow> ((string \<times> string) \<rightharpoonup> string set) \<Rightarrow> change \<Rightarrow> bool" where
  "legal storable removable z c =
     (if fst c = Add then storable (m_dns (snd c)) \<and> z (change_key c) = None
      else if fst c = Update then storable (m_dns (snd c)) \<and> z (change_key c) \<noteq> None
      else fst c = Remove \<and> removable (change_key c) \<and> z (change_key c) \<noteq> None)"

definition effect :: "change \<Rightarrow> string set option" where
  "effect c = (if fst c = Remove then None else Some (set (d_records (m_dns (snd c)))))"

lemma legal_cong: "z (change_key c) = z' (change_key c) \<Longrightarrow> legal storable removable z c = legal storable removable z' c"
  by (simp add: legal_def)

subsection \<open>The keys of a plan\<close>

definition plan_keys :: "metadata_dns_record gomap \<Rightarrow> dns_record gomap \<Rightarrow> dns_record gomap \<Rightarrow> string list" where
  "plan_keys desired ours alls =
     filter (\<lambda>key. map_of desired key = None) (sortedDNSRecordKeys ours)
     @ filter (\<lambda>key. map_of alls key = None) (sortedKeys desired)
     @ filter (\<lambda>key. map_of alls key \<noteq> None
         \<and> needsUpdate (m_dns (gomap_get zero_metadata_record desired key))
             (gomap_get zero_dns_record alls key)) (sortedKeys desired)"

lemma rview_lookup: "rview rs (k, t) = map_option (\<lambda>r. set (d_records r)) (lookup_rec rs k t)"
  by (simp add: rview_find lookup_rec_def)

lemma plan_iff:
  "c \<in> set (plan d own a) \<longleftrightarrow>
     (\<exists>k r. map_of own k = Some r \<and> map_of d k = None \<and> c = (Remove, \<lparr>m_service = [], m_stack = [], m_dns = r\<rparr>))
   \<or> (\<exists>k v. map_of d k = Some v \<and> map_of a k = None \<and> c = (Add, v))
   \<or> (\<exists>k v r. map_of d k = Some v \<and> map_of a k = Some r \<and> needsUpdate (m_dns v) r \<and> c = (Update, v))"
proof -
  have rem: "c \<in> set (map (Pair Remove) (toRemove d own)) \<longleftrightarrow>
      (\<exists>k r. map_of own k = Some r \<and> map_of d k = None \<and> c = (Remove, \<lparr>m_service = [], m_stack = [], m_dns = r\<rparr>))"
    by (auto simp: toRemove_def image_def Bex_def)
  have add: "c \<in> set (map (Pair Add) (toAdd d a)) \<longleftrightarrow>
      (\<exists>k v. map_of d k = Some v \<and> map_of a k = None \<and> c = (Add, v))"
    by (auto simp: toAdd_def image_def Bex_def)
  have upd: "c \<in> set (map (Pair Update) (toUpdate d a)) \<longleftrightarrow>
      (\<exists>k v r. map_of d k = Some v \<and> map_of a k = Some r \<and> needsUpdate (m_dns v) r \<and> c = (Update, v))"
    by (auto simp: toUpdate_def image_def Bex_def) blast
  show ?thesis unfolding plan_def set_append Un_iff rem add upd by (rule refl)
qed

lemma plan_keys_iff:
  "k \<in> set (plan_keys d own a) \<longleftrightarrow>
     (\<exists>r. map_of own k = Some r \<and> map_of d k = None)
   \<or> (\<exists>v. map_of d k = Some v \<and> map_of a k = None)
   \<or> (\<exists>v r. map_of d k = Some v \<and> map_of a k = Some r \<and> needsUpdate (m_dns v) r)"
  by (auto simp: plan_keys_def)

text \<open>A listing of the provider, split into the maps the synchronization works on.\<close>

definition listing ::
    "dns_record list \<Rightarrow> string \<Rightarrow> dns_record gomap \<Rightarrow> dns_record gomap
       \<Rightarrow> metadata_dns_record gomap \<Rightarrow> (dns_record \<Rightarrow> bool) \<Rightarrow> bool" where
  "listing rs sf ours alls desired storable =
     (distinct (map rkey rs) \<and> rview rs (sf, ''A'') = None \<and> classify sf rs = (ours, alls)
      \<and> desired_ok storable sf desired)"

lemma listing_maps:
  assumes "listing rs sf ours alls desired storable"
  shows "map_of alls k = (if k = sf then lookup_rec rs sf ''TXT'' else lookup_rec rs k ''A'')"
    and "map_of ours k = (case lookup_rec rs sf ''TXT'' of
           None \<Rightarrow> None
         | Some st \<Rightarrow> if k = sf then Some st
             else if k \<in> set (d_records st) then lookup_rec rs k ''A'' else None)"
    and "gomap_wf ours \<and> gomap_wf alls \<and> gomap_wf desired"
  using assms classify_maps [of rs sf ours alls]
  by (simp_all add: listing_def rview_lookup desired_ok_def)

lemma alls_view:
  assumes "listing rs sf ours alls desired storable"
  shows "rview rs (managed_key sf k) = map_option (\<lambda>r. set (d_records r)) (map_of alls k)"
  using listing_maps(1) [OF assms, of k] by (simp add: rview_lookup managed_key_def)

lemma alls_key:
  assumes "listing rs sf ours alls desired storable" and "map_of alls k = Some r"
  shows "rkey r = managed_key sf k"
  using listing_maps(1) [OF assms(1), of k] assms(2)
    lookup_rec_Some [of rs sf "''TXT''" r] lookup_rec_Some [of rs k "''A''" r]
  by (simp add: managed_key_def rkey_def split: if_splits)

lemma ours_alls:
  assumes "listing rs sf ours alls desired storable" and "map_of ours k = Some r"
  shows "map_of alls k = Some r \<and> k \<in> owned sf (rview rs)"
  using listing_maps(1,2) [OF assms(1), of k] assms(2)
  by (auto simp: owned_def rview_lookup split: option.splits if_splits)

lemma owned_ours:
  assumes "listing rs sf ours alls desired storable" and "k \<in> owned sf (rview rs)"
  shows "map_of ours k = map_of alls k"
  using listing_maps(1,2) [OF assms(1), of k] assms(2)
  by (auto simp: owned_def rview_lookup split: option.splits if_splits)

lemma listing_desired:
  assumes "listing rs sf ours alls desired storable" and "map_of desired k = Some v"
  shows "rkey (m_dns v) = managed_key sf k" and "storable (m_dns v)"
  using assms desired_ok_lookup [of storable sf desired k v] by (simp_all add: listing_def)

lemma distinct_plan_keys:
  assumes "listing rs sf ours alls desired storable"
  shows "distinct (plan_keys desired ours alls)"
  using listing_maps(3) [OF assms] by (auto simp: plan_keys_def)

lemma plan_keys_managed:
  assumes "listing rs sf ours alls desired storable"
  shows "set (plan_keys desired ours alls) \<subseteq> dom (map_of desired) \<union> owned sf (rview rs)"
  using ours_alls [OF assms] by (auto simp: plan_keys_iff)

lemma change_keys:
  assumes L: "listing rs sf ours alls desired storable"
  shows "map change_key (plan desired ours alls) = map (managed_key sf) (plan_keys desired ours alls)"
proof -
  have "rkey (gomap_get z ours k) = managed_key sf k" if "k \<in> dom (map_of ours)" for z k
    using that ours_alls [OF L] alls_key [OF L] by auto
  moreover have "rkey (m_dns (gomap_get z desired k)) = managed_key sf k" if "k \<in> dom (map_of desired)" for z k
    using that listing_desired(1) [OF L] by auto
  ultimately show ?thesis
    by (simp add: plan_def plan_keys_def toRemove_def toAdd_def toUpdate_def change_key_def comp_def)
qed

lemma plan_legal:
  assumes L: "listing rs sf ours alls desired storable" and "manageable removable sf (rview rs)"
    and "c \<in> set (plan desired ours alls)"
  shows "legal storable removable (rview rs) c"
  using assms(3) unfolding plan_iff
proof (elim disjE exE conjE)
  fix k r assume "map_of ours k = Some r" and c: "c = (Remove, \<lparr>m_service = [], m_stack = [], m_dns = r\<rparr>)"
  then show ?thesis
    using ours_alls [OF L, of k r] alls_key [OF L, of k r] alls_view [OF L, of k] assms(2)
    by (simp add: legal_def change_key_def manageable_def)
next
  fix k v assume "map_of desired k = Some v" "map_of alls k = None" "c = (Add, v)"
  then show ?thesis
    using listing_desired [OF L] alls_view [OF L, of k] by (simp add: legal_def change_key_def)
next
  fix k v r assume "map_of desired k = Some v" "map_of alls k = Some r" "c = (Update, v)"
  then show ?thesis
    using listing_desired [OF L] alls_view [OF L, of k] by (simp add: legal_def change_key_def)
qed

lemma plan_effect_desired:
  assumes L: "listing rs sf ours alls desired storable" and k: "map_of desired k = Some v"
    and "k \<in> set (plan_keys desired ours alls)"
  shows "\<exists>c \<in> set (plan desired ours alls).
     change_key c = managed_key sf k \<and> effect c = Some (set (d_records (m_dns v)))"
proof -
  from assms(2,3) have "(Add, v) \<in> set (plan desired ours alls) \<or> (Update, v) \<in> set (plan desired ours alls)"
    by (auto simp: plan_keys_iff plan_iff)
  then show ?thesis using listing_desired(1) [OF L k] by (force simp: effect_def change_key_def)
qed

lemma plan_effect_owned:
  assumes L: "listing rs sf ours alls desired storable"
    and "map_of desired k = None" and "map_of ours k = Some r"
  shows "\<exists>c \<in> set (plan desired ours alls). change_key c = managed_key sf k \<and> effect c = None"
proof -
  from assms(2,3) have "(Remove, \<lparr>m_service = [], m_stack = [], m_dns = r\<rparr>) \<in> set (plan desired ours alls)"
    by (auto simp: plan_iff)
  then show ?thesis
    using ours_alls [OF L assms(3)] alls_key [OF L] by (force simp: effect_def change_key_def)
qed

lemma unplanned_desired:
  assumes L: "listing rs sf ours alls desired storable" and "map_of desired k = Some v"
    and "k \<notin> set (plan_keys desired ours alls)"
  shows "rview rs (managed_key sf k) = Some (set (d_records (m_dns v)))"
  using assms(2,3) alls_view [OF L, of k] by (auto simp: plan_keys_iff needsUpdate_iff)

lemma unplanned_owned:
  assumes L: "listing rs sf ours alls desired storable"
    and "k \<in> owned sf (rview rs)" and "map_of desired k = None"
    and "k \<notin> set (plan_keys desired ours alls)"
  shows "rview rs (managed_key sf k) = None"
  using assms(3,4) owned_ours [OF L assms(2)] alls_view [OF L, of k]
  by (cases "map_of ours k") (auto simp: plan_keys_iff)

context dns_provider
begin

lemma apply_op_legal:
  assumes "inv s" and "legal storable removable (zone s) (op, v)" and "apply_op P op (m_dns v) s = Some (e, s')"
  shows "inv s' \<and> (\<forall>k. k \<noteq> change_key (op, v) \<longrightarrow> zone s' k = zone s k)
    \<and> (e = None \<longrightarrow> zone s' (change_key (op, v)) = effect (op, v))"
proof -
  consider "op = Add" | "op = Update" | "op = Remove"
    using assms(2) by (auto simp: legal_def split: if_splits)
  then show ?thesis
  proof cases
    case 1
    with assms add_frame [of s "m_dns v" e s'] add_ok [of s "m_dns v" s'] show ?thesis
      by (simp add: legal_def change_key_def effect_def)
  next
    case 2
    with assms update_frame [of s "m_dns v" e s'] update_ok [of s "m_dns v" s'] show ?thesis
      by (simp add: legal_def change_key_def effect_def)
  next
    case 3
    with assms remove_frame [of s "m_dns v" e s'] remove_ok [of s "m_dns v" s'] show ?thesis
      by (simp add: legal_def change_key_def effect_def)
  qed
qed

lemma run_plan_legal:
  assumes "inv s" and "distinct (map change_key ops)" and "\<forall>c \<in> set ops. legal storable removable (zone s) c"
    and "run_plan P ops s = (d, err, s')"
  shows "inv s' \<and> (\<forall>k. k \<notin> change_key ` set ops \<longrightarrow> zone s' k = zone s k)
    \<and> (err = None \<longrightarrow> (\<forall>c \<in> set ops. zone s' (change_key c) = effect c))"
  using assms
proof (induction ops arbitrary: s d)
  case (Cons c ops)
  obtain op v where c: "c = (op, v)" by (cases c)
  from Cons.prems(3) c have leg: "legal storable removable (zone s) (op, v)" by simp
  then obtain e s1 where ap: "apply_op P op (m_dns v) s = Some (e, s1)"
    by (cases "the (apply_op P op (m_dns v) s)") (auto simp: legal_def apply_op_def split: if_splits)
  note step = apply_op_legal [OF Cons.prems(1) leg ap]
  show ?case
  proof (cases e)
    case (Some x)
    with Cons.prems(4) ap c step show ?thesis by auto
  next
    case None
    with Cons.prems(4) ap c obtain d1 where rest: "run_plan P ops s1 = (d1, err, s')"
      by (auto split: prod.splits)
    have fresh: "change_key c \<notin> change_key ` set ops" using Cons.prems(2) by simp
    have "legal storable removable (zone s1) x" if "x \<in> set ops" for x
    proof -
      have "change_key x \<noteq> change_key c" using fresh that by (metis imageI)
      then have "zone s1 (change_key x) = zone s (change_key x)" using step c by blast
      then show ?thesis using that Cons.prems(3) legal_cong [of "zone s1" x "zone s"] by simp
    qed
    then have IH: "inv s' \<and> (\<forall>k. k \<notin> change_key ` set ops \<longrightarrow> zone s' k = zone s1 k)
        \<and> (err = None \<longrightarrow> (\<forall>c \<in> set ops. zone s' (change_key c) = effect c))"
      using Cons.IH [OF step [THEN conjunct1] _ _ rest] Cons.prems(2) by simp
    with step None fresh c show ?thesis by auto
  qed
qed auto

text \<open>The three facts about a synchronization over a provider that keeps the contract. The name
  of the state RRSet must not be taken by an address record.\<close>

lemma sync_listing:
  assumes "inv s" and "zone s (StateFqdn u (RootDomainName cfg), ''A'') = None"
    and "desired_ok storable (StateFqdn u (RootDomainName cfg)) desired"
    and "pGetRecords P s = (Inr rs, s1)"
  obtains ours alls where
    "getProviderDnsRecords P u cfg s = (Inr (ours, alls), s1)"
    "listing rs (StateFqdn u (RootDomainName cfg)) ours alls desired storable"
    "inv s1" "zone s1 = zone s" "rview rs = zone s"
proof -
  obtain ours alls where "classify (StateFqdn u (RootDomainName cfg)) rs = (ours, alls)" by fastforce
  with assms get_view [OF assms(1,4)] get_frame [OF assms(1,4)] that [of ours alls] show ?thesis
    by (simp add: listing_def getProviderDnsRecords_eq)
qed

lemma sync_run:
  assumes "inv s" and "zone s (StateFqdn u (RootDomainName cfg), ''A'') = None"
    and "desired_ok storable (StateFqdn u (RootDomainName cfg)) desired"
    and "UpdateProviderDnsRecords P u cfg desired s = (res, s')"
  obtains (read) e where "res = Inl (ReadError e)" "inv s'" "zone s' = zone s"
  | (run) rs ours alls d err s1 where
      "listing rs (StateFqdn u (RootDomainName cfg)) ours alls desired storable"
      "inv s1" "zone s1 = zone s" "rview rs = zone s"
      "run_plan P (plan desired ours alls) s1 = (d, err, s')"
      "res = (case err of Some e \<Rightarrow> Inl e | None \<Rightarrow> Inr (toAdd desired alls @ toUpdate desired alls))"
proof (cases "pGetRecords P s")
  case (Pair r s1)
  show ?thesis
  proof (cases r)
    case (Inl e)
    with Pair assms(4) get_frame [OF assms(1) Pair] read [of e] show ?thesis
      by (simp add: UpdateProviderDnsRecords_def getProviderDnsRecords_eq)
  next
    case (Inr rs)
    with Pair sync_listing [OF assms(1-3), of rs s1] obtain ours alls where
      get: "getProviderDnsRecords P u cfg s = (Inr (ours, alls), s1)" and
      L: "listing rs (StateFqdn u (RootDomainName cfg)) ours alls desired storable" and
      s1: "inv s1" "zone s1 = zone s" "rview rs = zone s" by blast
    obtain d err s2 where r: "run_plan P (plan desired ours alls) s1 = (d, err, s2)"
      by (cases "run_plan P (plan desired ours alls) s1") auto
    with assms(4) UpdateProviderDnsRecords_plan [OF get, of desired] L s1 run show ?thesis
      by (auto split: option.splits)
  qed
qed

lemma sync_frame:
  assumes "inv s" and "manageable removable (StateFqdn u (RootDomainName cfg)) (zone s)"
    and "desired_ok storable (StateFqdn u (RootDomainName cfg)) desired"
    and "UpdateProviderDnsRecords P u cfg desired s = (res, s')"
    and "key \<notin> managed_key (StateFqdn u (RootDomainName cfg))
           ` (dom (map_of desired) \<union> owned (StateFqdn u (RootDomainName cfg)) (zone s))"
  shows "inv s' \<and> zone s' key = zone s key"
  using assms(1) manageableD [OF assms(2)] assms(3,4)
proof (cases rule: sync_run)
  case (run rs ours alls d err s1)
  let ?sf = "StateFqdn u (RootDomainName cfg)"
  have keys: "change_key ` set (plan desired ours alls) = managed_key ?sf ` set (plan_keys desired ours alls)"
    using change_keys [OF run(1)] by (metis list.set_map)
  have "distinct (map change_key (plan desired ours alls))"
    using distinct_plan_keys [OF run(1)] by (simp add: change_keys [OF run(1)] distinct_map inj_on_def)
  from run_plan_legal [OF run(2) this _ run(5)] plan_legal [OF run(1)] assms(2) run(3,4)
  have "inv s' \<and> (\<forall>k. k \<notin> change_key ` set (plan desired ours alls) \<longrightarrow> zone s' k = zone s k)" by simp
  moreover have "key \<notin> change_key ` set (plan desired ours alls)"
    using assms(5) plan_keys_managed [OF run(1)] run(4) unfolding keys by auto
  ultimately show ?thesis by blast
qed auto

lemma sync_keeps:
  assumes "inv s" and "manageable removable (StateFqdn u (RootDomainName cfg)) (zone s)"
    and "desired_ok storable (StateFqdn u (RootDomainName cfg)) desired"
    and "UpdateProviderDnsRecords P u cfg desired s = (res, s')"
  shows "inv s' \<and> zone s' (StateFqdn u (RootDomainName cfg), ''A'') = None"
proof -
  let ?sf = "StateFqdn u (RootDomainName cfg)"
  have "(?sf, ''A'') \<notin> range (managed_key ?sf)" by (auto simp: managed_key_def)
  then show ?thesis using sync_frame [OF assms, of "(?sf, ''A'')"] manageableD [OF assms(2)] by auto
qed

lemma sync_converges:
  assumes "inv s" and "manageable removable (StateFqdn u (RootDomainName cfg)) (zone s)"
    and "desired_ok storable (StateFqdn u (RootDomainName cfg)) desired"
    and "UpdateProviderDnsRecords P u cfg desired s = (Inr updated, s')"
  shows "(\<forall>k v. map_of desired k = Some v \<longrightarrow>
            zone s' (managed_key (StateFqdn u (RootDomainName cfg)) k) = Some (set (d_records (m_dns v))))
    \<and> (\<forall>k \<in> owned (StateFqdn u (RootDomainName cfg)) (zone s). map_of desired k = None \<longrightarrow>
            zone s' (managed_key (StateFqdn u (RootDomainName cfg)) k) = None)"
  using assms(1) manageableD [OF assms(2)] assms(3,4)
proof (cases rule: sync_run)
  case (run rs ours alls d err s1)
  let ?sf = "StateFqdn u (RootDomainName cfg)" and ?plan = "plan desired ours alls"
  from run(6) have "err = None" by (cases err) auto
  have dist: "distinct (map change_key ?plan)"
    using distinct_plan_keys [OF run(1)] by (simp add: change_keys [OF run(1)] distinct_map inj_on_def)
  have keys: "change_key ` set ?plan = managed_key ?sf ` set (plan_keys desired ours alls)"
    using change_keys [OF run(1)] by (metis list.set_map)
  from run_plan_legal [OF run(2) dist _ run(5)] plan_legal [OF run(1)] assms(2) run(3,4) \<open>err = None\<close>
  have ran: "(\<forall>k. k \<notin> change_key ` set ?plan \<longrightarrow> zone s' k = rview rs k)
      \<and> (\<forall>c \<in> set ?plan. zone s' (change_key c) = effect c)" by simp
  then have eff: "\<And>c. c \<in> set ?plan \<Longrightarrow> zone s' (change_key c) = effect c" by blast
  have "managed_key ?sf k \<notin> change_key ` set ?plan" if "k \<notin> set (plan_keys desired ours alls)" for k
    unfolding keys using that by auto
  with ran have same: "\<And>k. k \<notin> set (plan_keys desired ours alls) \<Longrightarrow>
      zone s' (managed_key ?sf k) = rview rs (managed_key ?sf k)" by blast
  have "zone s' (managed_key ?sf k) = Some (set (d_records (m_dns v)))" if "map_of desired k = Some v" for k v
    using that eff same plan_effect_desired [OF run(1) that] unplanned_desired [OF run(1) that]
    by (cases "k \<in> set (plan_keys desired ours alls)") fastforce+
  moreover have "zone s' (managed_key ?sf k) = None" if "k \<in> owned ?sf (zone s)" "map_of desired k = None" for k
    using that eff same plan_effect_owned [OF run(1) that(2)] unplanned_owned [OF run(1) _ that(2)] run(4)
    by (cases "k \<in> set (plan_keys desired ours alls)") (auto simp: plan_keys_iff, fastforce)
  ultimately show ?thesis by blast
qed auto

lemma sync_synchronized:
  assumes "inv s" and "manageable removable (StateFqdn u (RootDomainName cfg)) (zone s)"
    and "desired_ok storable (StateFqdn u (RootDomainName cfg)) desired"
    and "UpdateProviderDnsRecords P u cfg desired s = (Inr updated, s')"
  shows "inv s' \<and> synchronized (StateFqdn u (RootDomainName cfg)) desired (zone s) (zone s')"
  using sync_converges [OF assms] sync_frame [OF assms] sync_keeps [OF assms]
  by (simp add: synchronized_def)

lemma sync_owned:
  assumes "inv s" and "manageable removable (StateFqdn u (RootDomainName cfg)) (zone s)"
    and "desired_ok storable (StateFqdn u (RootDomainName cfg)) desired"
    and "closed_state (StateFqdn u (RootDomainName cfg)) desired"
    and "UpdateProviderDnsRecords P u cfg desired s = (Inr updated, s')"
  shows "owned (StateFqdn u (RootDomainName cfg)) (zone s') \<subseteq> dom (map_of desired)"
proof (cases "map_of desired (StateFqdn u (RootDomainName cfg))")
  let ?sf = "StateFqdn u (RootDomainName cfg)"
  note conv = sync_converges [OF assms(1-3,5)]
  case None
  then have "zone s' (?sf, ''TXT'') = None"
    using conv sync_frame [OF assms(1-3,5), of "(?sf, ''TXT'')"]
    by (cases "zone s (?sf, ''TXT'')") (auto simp: owned_def managed_key_def)
  then show ?thesis by (simp add: owned_def)
next
  let ?sf = "StateFqdn u (RootDomainName cfg)"
  note conv = sync_converges [OF assms(1-3,5)]
  case (Some v)
  then show ?thesis
    using conv [THEN conjunct1, THEN spec, THEN spec, THEN mp, OF Some] assms(4)
    by (auto simp: owned_def managed_key_def closed_state_def list_all_iff)
qed

lemma sync_idempotent:
  assumes "inv s" and "manageable removable (StateFqdn u (RootDomainName cfg)) (zone s)"
    and "desired_ok storable (StateFqdn u (RootDomainName cfg)) desired"
    and "closed_state (StateFqdn u (RootDomainName cfg)) desired"
    and "UpdateProviderDnsRecords P u cfg desired s = (Inr updated, s')"
  shows "UpdateProviderDnsRecords P u cfg desired s' =
           (case pGetRecords P s' of (Inl e, t) \<Rightarrow> (Inl (ReadError e), t) | (Inr _, t) \<Rightarrow> (Inr [], t))"
proof (cases "pGetRecords P s'")
  case (Pair r t)
  let ?sf = "StateFqdn u (RootDomainName cfg)"
  note conv = sync_converges [OF assms(1-3,5)]
  have inv': "inv s'" "zone s' (?sf, ''A'') = None"
    using sync_keeps [OF assms(1-3,5)] by auto
  show ?thesis
  proof (cases r)
    case (Inr rs)
    from sync_listing [OF inv' assms(3)] Pair Inr obtain ours alls where
      get: "getProviderDnsRecords P u cfg s' = (Inr (ours, alls), t)" and
      L: "listing rs ?sf ours alls desired storable" and view: "rview rs = zone s'" by metis
    from sync_owned [OF assms(1-5)] have "map_of desired k = None \<Longrightarrow> map_of ours k = None" for k
      using ours_alls [OF L, of k] view by (cases "map_of ours k") auto
    moreover have "map_of desired k = Some v \<Longrightarrow>
        map_option (\<lambda>r. set (d_records r)) (map_of alls k) = Some (set (d_records (m_dns v)))" for k v
      using conv alls_view [OF L, of k] view by simp
    ultimately have "k \<notin> set (plan_keys desired ours alls)" for k
      unfolding plan_keys_iff needsUpdate_iff by force
    then have "plan desired ours alls = []"
      using change_keys [OF L] by (metis list.map_disc_iff list.set_intros(1) neq_Nil_conv)
    with UpdateProviderDnsRecords_plan [OF get, of desired] Pair Inr show ?thesis
      by (simp add: plan_def)
  next
    case (Inl e)
    with Pair show ?thesis by (simp add: UpdateProviderDnsRecords_def getProviderDnsRecords_eq)
  qed
qed

text \<open>The upgrade: a zone without a state RRSet gets one that names the legacy address records.\<close>

lemma upgrade_run:
  assumes "inv s" and "EnsureUpgradeToStateRRSet P n u cfg s = (err, s')"
    and "\<And>rs t. pGetRecords P s = (Inr rs, t) \<Longrightarrow>
           storable (StateRecord (StateFqdn u (RootDomainName cfg)) (TTL cfg) (legacy_fqdns n cfg rs))"
  defines "sf \<equiv> StateFqdn u (RootDomainName cfg)"
  shows "inv s' \<and> (\<forall>k. k \<noteq> (sf, ''TXT'') \<longrightarrow> zone s' k = zone s k)
    \<and> (zone s (sf, ''TXT'') \<noteq> None \<longrightarrow> zone s' = zone s)
    \<and> (\<forall>rs t. err = None \<longrightarrow> zone s (sf, ''TXT'') = None \<longrightarrow> pGetRecords P s = (Inr rs, t) \<longrightarrow>
         zone s' (sf, ''TXT'') =
           (if legacy_fqdns n cfg rs = [] then None else Some (set (legacy_fqdns n cfg rs))))"
proof (cases "pGetRecords P s")
  case (Pair r t)
  note frame = get_frame [OF assms(1) Pair]
  show ?thesis
  proof (cases r)
    case (Inl e)
    with Pair assms(2) frame show ?thesis by (auto simp: EnsureUpgradeToStateRRSet_def)
  next
    case (Inr rs)
    let ?st = "StateRecord sf (TTL cfg) (legacy_fqdns n cfg rs)"
    have key: "rkey ?st = (sf, ''TXT'')" by (simp add: rkey_def)
    from get_view [OF assms(1) Pair [unfolded Inr]] rview_lookup [of rs sf "''TXT''"]
    have "zone s (sf, ''TXT'') = None \<longleftrightarrow> (sf, ''TXT'') \<notin> rkey ` set rs" by (simp add: lookup_rec_None)
    then have found: "list_ex (\<lambda>rec. d_fqdn rec = sf \<and> d_type rec = ''TXT'') rs \<longleftrightarrow> zone s (sf, ''TXT'') \<noteq> None"
      by (auto simp: list_ex_iff rkey_def image_iff)
    show ?thesis
    proof (cases "zone s (sf, ''TXT'') \<noteq> None \<or> legacy_fqdns n cfg rs = []")
      case True
      with Pair Inr assms(2) frame found show ?thesis
        by (auto simp: EnsureUpgradeToStateRRSet_def sf_def split: if_splits)
    next
      case False
      obtain e q where add: "pAddRecord P ?st t = (e, q)" by fastforce
      have storable: "storable ?st" using assms(3) Pair Inr by (simp add: sf_def)
      from False have free: "zone t (rkey ?st) = None" using frame by (simp add: key)
      from False Pair Inr assms(2) found add have "s' = q" "err = None \<longrightarrow> e = None"
        by (auto simp: EnsureUpgradeToStateRRSet_def sf_def split: option.splits)
      with add_frame [OF _ storable add] add_ok [OF _ storable free] add frame False Pair Inr show ?thesis
        by (auto simp: key)
    qed
  qed
qed

end

text \<open>Over a reliable provider a plan runs to its end, and so does a synchronization that can read the
  zone and whose removals name records as the provider has them.\<close>

context reliable_provider
begin

definition feasible :: "'p \<Rightarrow> change \<Rightarrow> bool" where
  "feasible s c = (if fst c = Remove then holds s (m_dns (snd c)) else accepted (m_dns (snd c)))"

lemma apply_op_feasible:
  assumes "inv s" and "legal storable removable (zone s) (op, v)" and "feasible s (op, v)"
  obtains s' where "apply_op P op (m_dns v) s = Some (None, s')"
    and "\<And>c. feasible s c \<Longrightarrow> change_key c \<noteq> change_key (op, v) \<Longrightarrow> feasible s' c"
proof -
  consider "op = Add" | "op = Update" | "op = Remove"
    using assms(2) by (auto simp: legal_def split: if_splits)
  then show thesis
  proof cases
    case 1
    with assms add_succeeds [of s "m_dns v"] obtain s' where s': "pAddRecord P (m_dns v) s = (None, s')"
      by (cases "pAddRecord P (m_dns v) s") (auto simp: legal_def feasible_def)
    with 1 assms add_holds [of s _ "m_dns v" None s'] that [of s'] show ?thesis
      by (auto simp: legal_def feasible_def change_key_def)
  next
    case 2
    with assms update_succeeds [of s "m_dns v"] obtain s' where s': "pUpdateRecord P (m_dns v) s = (None, s')"
      by (cases "pUpdateRecord P (m_dns v) s") (auto simp: legal_def feasible_def)
    with 2 assms update_holds [of s _ "m_dns v" None s'] that [of s'] show ?thesis
      by (auto simp: legal_def feasible_def change_key_def)
  next
    case 3
    with assms remove_succeeds [of s "m_dns v"] obtain s' where s': "pRemoveRecord P (m_dns v) s = (None, s')"
      by (cases "pRemoveRecord P (m_dns v) s") (auto simp: legal_def feasible_def)
    have "holds s' r" if "holds s r" "rkey r \<noteq> rkey (m_dns v)" for r
      using remove_holds [OF assms(1) that(1) _ _ _ s'] that(2) assms(2) 3
      by (simp add: legal_def change_key_def)
    with 3 s' that [of s'] show ?thesis by (simp add: feasible_def change_key_def)
  qed
qed

lemma run_plan_succeeds:
  assumes "inv s" and "distinct (map change_key ops)"
    and "\<forall>c \<in> set ops. legal storable removable (zone s) c \<and> feasible s c"
  shows "\<exists>d s'. run_plan P ops s = (d, None, s')"
  using assms
proof (induction ops arbitrary: s)
  case (Cons c ops)
  obtain op v where c: "c = (op, v)" by (cases c)
  from Cons.prems(3) c have leg: "legal storable removable (zone s) (op, v)" and "feasible s (op, v)" by simp_all
  then obtain s1 where ap: "apply_op P op (m_dns v) s = Some (None, s1)"
    and keep: "\<And>c. feasible s c \<Longrightarrow> change_key c \<noteq> change_key (op, v) \<Longrightarrow> feasible s1 c"
    using apply_op_feasible [OF Cons.prems(1)] by blast
  note step = apply_op_legal [OF Cons.prems(1) leg ap]
  have "legal storable removable (zone s1) x \<and> feasible s1 x" if "x \<in> set ops" for x
  proof -
    have other: "change_key x \<noteq> change_key (op, v)" using Cons.prems(2) that c by (auto simp: image_iff)
    then have "zone s1 (change_key x) = zone s (change_key x)" using step by blast
    with other show ?thesis using that Cons.prems(3) legal_cong [of "zone s1" x "zone s"] keep by simp
  qed
  with Cons.IH [of s1] step Cons.prems(2) obtain d s' where "run_plan P ops s1 = (d, None, s')" by auto
  with ap c show ?case by simp
qed simp

lemma sync_succeeds:
  assumes "inv s" and "manageable removable (StateFqdn u (RootDomainName cfg)) (zone s)"
    and "desired_ok storable (StateFqdn u (RootDomainName cfg)) desired"
    and "\<forall>k v. map_of desired k = Some v \<longrightarrow> accepted (m_dns v)"
    and "pGetRecords P s = (Inr rs, s1)"
    and "\<And>r. r \<in> set rs \<Longrightarrow> d_type r = ''A'' \<or> rkey r = (StateFqdn u (RootDomainName cfg), ''TXT'') \<Longrightarrow> holds s1 r"
  shows "\<exists>updated s'. UpdateProviderDnsRecords P u cfg desired s = (Inr updated, s')"
proof -
  let ?sf = "StateFqdn u (RootDomainName cfg)"
  from sync_listing [OF assms(1) manageableD [OF assms(2)] assms(3,5)] obtain ours alls where
    get: "getProviderDnsRecords P u cfg s = (Inr (ours, alls), s1)" and
    L: "listing rs ?sf ours alls desired storable" and
    s1: "inv s1" "zone s1 = zone s" "rview rs = zone s" .
  have "holds s1 r" if "map_of ours k = Some r" for k r
  proof -
    have all: "map_of alls k = Some r" using ours_alls [OF L that] by blast
    then have "r \<in> set rs" using listing_maps(1) [OF L, of k] lookup_rec_Some by (auto split: if_splits)
    moreover have "rkey r = managed_key ?sf k" by (rule alls_key [OF L all])
    ultimately show ?thesis using assms(6) by (auto simp: managed_key_def rkey_def split: if_splits)
  qed
  with assms(4) have feas: "feasible s1 c" if "c \<in> set (plan desired ours alls)" for c
    using that unfolding plan_iff feasible_def by auto
  have "distinct (map change_key (plan desired ours alls))"
    using distinct_plan_keys [OF L] by (simp add: change_keys [OF L] distinct_map inj_on_def)
  from run_plan_succeeds [OF s1(1) this] plan_legal [OF L] assms(2) feas s1(2,3)
  obtain d s2 where "run_plan P (plan desired ours alls) s1 = (d, None, s2)" by auto
  then show ?thesis by (simp add: UpdateProviderDnsRecords_plan [OF get])
qed

end

lemma set_legacy_fqdns:
  "set (legacy_fqdns n cfg rs) = {d_fqdn r | r. r \<in> set rs \<and> d_type r = ''A'' \<and> d_ttl r = TTL cfg
     \<and> HasSuffix (d_fqdn r) (''.'' @ ToLower (Join [n, RootDomainName cfg] ''.''))}"
proof -
  have "set (foldl (\<lambda>m r. if Q r then goset_add (d_fqdn r) m else m) m0 rs) = set m0 \<union> {d_fqdn r | r. r \<in> set rs \<and> Q r}"
    for Q m0 by (induction rs arbitrary: m0) auto
  then show ?thesis by (auto simp: legacy_fqdns_def Let_def)
qed

subsection \<open>Failures\<close>

lemma run_plan_error:
  assumes "run_plan P ops s = (d, Some err, s')" and "fst ` set ops \<subseteq> {Add, Remove, Update}"
  shows "\<exists>c rest e q. ops = d @ c # rest \<and> run_plan P d s = (d, None, q)
    \<and> apply_op P (fst c) (m_dns (snd c)) q = Some (Some e, s')
    \<and> err = OpError (fst c) (d_fqdn (m_dns (snd c))) e"
  using assms
proof (induction ops arbitrary: s d)
  case (Cons c ops)
  obtain op v where c: "c = (op, v)" by (cases c)
  with Cons.prems(2) obtain e s1 where ap: "apply_op P op (m_dns v) s = Some (e, s1)"
    by (cases "the (apply_op P op (m_dns v) s)") (auto simp: apply_op_def)
  show ?case
  proof (cases e)
    case (Some x)
    with Cons.prems(1) c ap have "d = []" "err = OpError op (d_fqdn (m_dns v)) x" "s' = s1" by auto
    with c ap Some show ?thesis by auto
  next
    case None
    with Cons.prems(1) c ap obtain d1 where d: "d = c # d1" "run_plan P ops s1 = (d1, Some err, s')"
      by (auto split: prod.splits)
    with Cons.IH [OF d(2)] Cons.prems(2) obtain c' rest x q where
      "ops = d1 @ c' # rest" "run_plan P d1 s1 = (d1, None, q)"
      "apply_op P (fst c') (m_dns (snd c')) q = Some (Some x, s')"
      "err = OpError (fst c') (d_fqdn (m_dns (snd c'))) x" by auto
    with c ap None d(1) show ?thesis by auto
  qed
qed simp

lemma plan_ops: "fst ` set (plan desired ours alls) \<subseteq> {Add, Remove, Update}"
  by (auto simp: plan_def)

subsection \<open>Order of the changes\<close>

text \<open>Address records first, the state RRSet last.\<close>

definition state_last :: "metadata_dns_record list \<Rightarrow> bool" where
  "state_last vs =
     (\<exists>as ts. vs = as @ ts \<and> list_all (\<lambda>v. d_type (m_dns v) \<noteq> ''TXT'') as \<and> list_all (\<lambda>v. d_type (m_dns v) = ''TXT'') ts)"

lemma state_last_map:
  assumes "sorted_wrt (record_less recs) keys" and "\<And>k. k \<in> set keys \<Longrightarrow> m_dns (f k) = recs k"
  shows "state_last (map f (filter Q keys))"
proof -
  from filter_sorted_TXT_last [OF assms(1), of Q] obtain as ts where
    split: "filter Q keys = as @ ts" and types: "\<forall>k \<in> set as. d_type (recs k) \<noteq> ''TXT''" "\<forall>k \<in> set ts. d_type (recs k) = ''TXT''"
    by blast
  have "set as \<union> set ts \<subseteq> set keys" using split by (metis filter_is_subset set_append)
  then have "\<forall>k \<in> set as \<union> set ts. m_dns (f k) = recs k" using assms(2) by blast
  with types show ?thesis
    unfolding state_last_def split
    by (intro exI [of _ "map f as"] exI [of _ "map f ts"]) (auto simp: list_all_iff)
qed

lemma listing_ours_plain:
  assumes "listing rs sf ours alls desired storable"
  shows "plain_types ours"
proof -
  have "d_type r \<in> {''A'', ''TXT''}" if "(k, r) \<in> set ours" for k r
  proof -
    from that have "map_of ours k = Some r" using listing_maps(3) [OF assms] by (simp add: gomap_Some_iff)
    from ours_alls [OF assms this] alls_key [OF assms, of k r] show ?thesis
      by (auto simp: managed_key_def rkey_def split: if_splits)
  qed
  then show ?thesis by (auto simp: plain_types_def)
qed

lemma sorted_sortedDNSRecordKeys:
  assumes "gomap_wf m" and "plain_types m"
  shows "sorted_wrt (record_less (gomap_get zero_dns_record m)) (sortedDNSRecordKeys m)"
  unfolding sortedDNSRecordKeys_def
proof (rule record_order.sorted_sort_slice)
  show "distinct (map fst m)" using assms(1) by (simp add: gomap_wf_def)
  show "set (map fst m) \<subseteq> {k. d_type (gomap_get zero_dns_record m k) \<in> {''A'', ''TXT''}}"
    using plain_types_get [OF assms(2)] by auto
qed

lemma desired_ok_plain: "desired_ok storable sf m \<Longrightarrow> plain_types (desired_recs m)"
  by (fastforce simp: desired_ok_def plain_types_def desired_recs_def managed_key_def rkey_def split: if_splits)

lemma plan_state_last:
  assumes L: "listing rs sf ours alls desired storable"
  shows "state_last (toRemove desired ours) \<and> state_last (toAdd desired alls) \<and> state_last (toUpdate desired alls)"
proof -
  have ok: "desired_ok storable sf desired" and wf: "gomap_wf desired" "gomap_wf ours"
    using L listing_maps(3) [OF L] by (simp_all add: listing_def)
  note keys = sorted_sortedKeys [OF wf(1) desired_ok_plain [OF ok]]
  show ?thesis
    unfolding toRemove_def toAdd_def toUpdate_def
    using state_last_map [OF sorted_sortedDNSRecordKeys [OF wf(2) listing_ours_plain [OF L]]]
      state_last_map [OF keys] by simp
qed

lemma plan_permute:
  assumes "gomap_wf m" and "plain_types (desired_recs m)" and "mset m' = mset m"
  shows "toRemove m' = toRemove m" and "toAdd m' = toAdd m" and "toUpdate m' = toUpdate m"
proof -
  have maps: "map_of m' = map_of m" using gomap_get_mset [OF assms(1,3)] by simp
  then have get: "gomap_get z m' = gomap_get z m" for z by (auto simp: gomap_get_def)
  note keys = sortedKeys_permute [OF assms]
  show "toRemove m' = toRemove m" "toAdd m' = toAdd m" "toUpdate m' = toUpdate m"
    by (auto simp: toRemove_def toAdd_def toUpdate_def maps get keys)
qed

end
