(* ===== verification/Net_URL.thy ===== *)
theory Net_URL
  imports Config
begin

text \<open>
  URLs. \<open>url\<close> has the fields of Go's \<open>url.URL\<close> that the program reads or writes (of the user
  information only whether it is there). The parser and the printer of \<open>net/url\<close> are arguments of
  the functions that call them; \<open>Hostname\<close>, \<open>Port\<close> and \<open>net.JoinHostPort\<close> are defined here.
  \<open>service_url\<close> is the policy that the clients of the metadata service and of Route 53 apply to a
  configured URL: HTTP or HTTPS, a host, no user information, no query and no fragment.
\<close>

record url =
  uScheme :: string
  uOpaque :: string
  uHasUser :: bool
  uHost :: string
  uPath :: string
  uRawPath :: string
  uForceQuery :: bool
  uRawQuery :: string
  uFragment :: string

definition service_url :: "url \<Rightarrow> bool" where
  "service_url u =
     (uScheme u \<in> {''http'', ''https''} \<and> uHost u \<noteq> [] \<and> \<not> uHasUser u \<and> uRawQuery u = [] \<and> uFragment u = [])"

text \<open>\<open>splitHostPort\<close> cuts at the last colon when only digits follow it, and drops the brackets
  of an IPv6 address.\<close>

definition cutLastColon :: "string \<Rightarrow> (string \<times> string) option" where
  "cutLastColon s =
     (if CHR '':'' \<in> set s
      then Some (rev (tl (dropWhile (\<lambda>c. c \<noteq> CHR '':'') (rev s))), rev (takeWhile (\<lambda>c. c \<noteq> CHR '':'') (rev s)))
      else None)"

definition splitHostPort :: "string \<Rightarrow> string \<times> string" where
  "splitHostPort hostPort =
     (let (host, port) = (case cutLastColon hostPort of
            Some (h, p) \<Rightarrow> if list_all digit_char p then (h, p) else (hostPort, [])
          | None \<Rightarrow> (hostPort, []))
      in (if HasPrefix host ''['' \<and> HasSuffix host '']'' then butlast (tl host) else host, port))"

definition Hostname :: "url \<Rightarrow> string" where "Hostname u = fst (splitHostPort (uHost u))"
definition Port :: "url \<Rightarrow> string" where "Port u = snd (splitHostPort (uHost u))"

definition JoinHostPort :: "string \<Rightarrow> string \<Rightarrow> string" where
  "JoinHostPort host port =
     (if CHR '':'' \<in> set host then ''['' @ host @ '']:'' @ port else host @ '':'' @ port)"

subsection \<open>Lemmas\<close>

lemma cutLastColon_join:
  assumes "cutLastColon s = Some (h, p)"
  shows "s = h @ '':'' @ p \<and> CHR '':'' \<notin> set p"
proof -
  let ?r = "rev s"
  from assms have colon: "CHR '':'' \<in> set ?r"
    and h: "h = rev (tl (dropWhile (\<lambda>c. c \<noteq> CHR '':'') ?r))" and p: "p = rev (takeWhile (\<lambda>c. c \<noteq> CHR '':'') ?r)"
    by (auto simp: cutLastColon_def split: if_splits)
  from colon have ne: "dropWhile (\<lambda>c. c \<noteq> CHR '':'') ?r \<noteq> []" by (auto simp: dropWhile_eq_Nil_conv)
  with hd_dropWhile_not [of "\<lambda>c. c \<noteq> CHR '':''" ?r]
  have "dropWhile (\<lambda>c. c \<noteq> CHR '':'') ?r = CHR '':'' # tl (dropWhile (\<lambda>c. c \<noteq> CHR '':'') ?r)"
    by (metis list.collapse)
  with takeWhile_dropWhile_id [of "\<lambda>c. c \<noteq> CHR '':''" ?r]
  have "?r = rev p @ CHR '':'' # rev h" by (simp add: h p)
  then have "s = h @ '':'' @ p" by (metis append.assoc append_Cons append_Nil rev.simps(2) rev_append rev_rev_ident)
  then show ?thesis using p by (auto dest: set_takeWhileD)
qed

lemma splitHostPort_Port: "list_all digit_char (snd (splitHostPort s))"
  by (auto simp: splitHostPort_def Let_def split: option.splits prod.splits if_splits)

text \<open>Splitting what \<open>JoinHostPort\<close> has joined gives the host and the port back.\<close>

lemma cutLastColon_append:
  assumes "CHR '':'' \<notin> set p"
  shows "cutLastColon (h @ '':'' @ p) = Some (h, p)"
proof -
  have "CHR '':'' \<notin> set q \<Longrightarrow> dropWhile (\<lambda>c. c \<noteq> CHR '':'') (q @ CHR '':'' # r) = CHR '':'' # r
      \<and> takeWhile (\<lambda>c. c \<noteq> CHR '':'') (q @ CHR '':'' # r) = q" for q r
    by (induction q) auto
  from this [of "rev p" "rev h"] assms
  have "dropWhile (\<lambda>c. c \<noteq> CHR '':'') (rev p @ CHR '':'' # rev h) = CHR '':'' # rev h"
    and "takeWhile (\<lambda>c. c \<noteq> CHR '':'') (rev p @ CHR '':'' # rev h) = rev p" by simp_all
  then show ?thesis by (simp add: cutLastColon_def)
qed

lemma splitHostPort_JoinHostPort:
  assumes "list_all digit_char port" and "CHR ''['' \<notin> set host"
  shows "splitHostPort (JoinHostPort host port) = (host, port)"
proof -
  have "CHR '':'' \<notin> set port" using assms(1) by (auto simp: list_all_iff digit_char_def less_eq_char_def)
  note cut = cutLastColon_append [OF this]
  show ?thesis
  proof (cases "CHR '':'' \<in> set host")
    case True
    have "cutLastColon (''['' @ host @ '']:'' @ port) = Some (''['' @ host @ '']'', port)"
      using cut [of "''['' @ host @ '']''"] by simp
    moreover have "HasSuffix (CHR ''['' # host @ '']'') '']''"
      using HasSuffix_append [of "CHR ''['' # host"] by simp
    ultimately show ?thesis
      using True assms(1) by (simp add: splitHostPort_def JoinHostPort_def HasPrefix_def butlast_append)
  next
    case False
    have "\<not> HasPrefix host ''[''" using assms(2) by (cases host) (auto simp: HasPrefix_def)
    with False cut [of host] assms(1) show ?thesis by (simp add: splitHostPort_def JoinHostPort_def)
  qed
qed

end
