(* ===== verification/Route53.thy ===== *)
theory Route53
  imports Sync_Correct Net_URL
begin

text \<open>
  The Route 53 provider (src/providers/route53/route53.go), the one provider the program is
  built with. The AWS client is not part of the repository: it is a record of functions over a
  world \<open>'w\<close> that stands for the service, and what the service documents about it is the
  locale \<open>route53_service\<close>. The provider's fields are the record \<open>route53\<close>, with the package
  variable \<open>route53MaxRetries\<close> and the world beside them. The token bucket only delays calls and
  is left out. \<open>url.Parse\<close> and the loading of the AWS configuration are arguments of \<open>Init\<close>.

  The paging loop of \<open>GetRecords\<close> ends only if the service stops sending continuation tokens;
  the model gives it a number of pages, \<open>fuel\<close>, and the error \<open>Unfinished\<close>. The lemma
  \<open>list_pages_finishes\<close> shows that a service that keeps its contract never needs more pages
  than there are record sets.
\<close>

subsection \<open>The types of the AWS client\<close>

datatype change_action = Upsert | Delete

text \<open>A pointer field is an option; of \<open>AliasTarget\<close> only its being set is read.\<close>

record rr_set =
  rName :: "string option"
  rType :: string
  rTTL :: "int option"
  rValues :: "string option list"
  rAliasTarget :: bool
  rTrafficPolicyInstanceId :: "string option"

record list_input =
  liHostedZoneId :: string
  liMaxItems :: int
  liStartRecordName :: "string option"
  liStartRecordType :: string
  liStartRecordIdentifier :: "string option"

record list_page =
  lpResourceRecordSets :: "rr_set list"
  lpIsTruncated :: bool
  lpNextRecordName :: "string option"
  lpNextRecordType :: string
  lpNextRecordIdentifier :: "string option"

record hosted_zone =
  hzId :: "string option"
  hzName :: "string option"

record ('e, 'w) route53Client =
  cChangeResourceRecordSets :: "string \<Rightarrow> change_action \<Rightarrow> rr_set \<Rightarrow> 'w \<Rightarrow> 'e option \<times> 'w"
  cGetHostedZone :: "string \<Rightarrow> 'w \<Rightarrow> ('e + hosted_zone option) \<times> 'w"
  cGetHostedZoneCount :: "'w \<Rightarrow> ('e + int) \<times> 'w"
  cListHostedZonesByName :: "string \<Rightarrow> int \<Rightarrow> 'w \<Rightarrow> ('e + hosted_zone list) \<times> 'w"
  cListResourceRecordSets :: "list_input \<Rightarrow> 'w \<Rightarrow> ('e + list_page) \<times> 'w"

text \<open>\<open>aws.ToString\<close> dereferences a string pointer, with the empty string for nil.\<close>

definition ToString :: "string option \<Rightarrow> string" where
  "ToString p = (case p of None \<Rightarrow> [] | Some s \<Rightarrow> s)"

record ('e, 'w) route53 =
  client :: "('e, 'w) route53Client"
  hostedZoneId :: string
  route53MaxRetries :: int
  world :: 'w

datatype 'e route53_error =
    ApiError 'e
  | NoValues string
  | NoContinuationToken
  | Unfinished
  | LegacyKeysIncomplete
  | LoadConfigFailed 'e
  | EndpointParse
  | EndpointScheme
  | EndpointHost
  | EndpointExtras
  | CouldNotListZones 'e
  | HostedZoneNotFound string
  | HostedZoneNoId
  | CouldNotLookUpZone 'e
  | HostedZoneNoName
  | HostedZoneMismatch string

subsection \<open>Changing records\<close>

definition quote :: string where "quote = [CHR 0x22]"

definition change_values :: "dns_record \<Rightarrow> string option list" where
  "change_values r =
     map (\<lambda>v. Some (if d_type r = ''TXT'' then quote @ v @ quote else v)) (d_records r)"

definition change_set :: "dns_record \<Rightarrow> rr_set" where
  "change_set r = \<lparr>rName = Some (d_fqdn r), rType = d_type r, rTTL = Some (d_ttl r),
     rValues = change_values r, rAliasTarget = False, rTrafficPolicyInstanceId = None\<rparr>"

definition changeRecord ::
    "dns_record \<Rightarrow> change_action \<Rightarrow> ('e, 'w) route53 \<Rightarrow> 'e route53_error option \<times> ('e, 'w) route53" where
  "changeRecord r action p =
     (if d_records r = [] then (Some (NoValues (d_fqdn r)), p)
      else case cChangeResourceRecordSets (client p) (hostedZoneId p) action (change_set r) (world p) of
        (err, w) \<Rightarrow> (map_option ApiError err, p\<lparr>world := w\<rparr>))"

definition AddRecord where "AddRecord r p = changeRecord r Upsert p"
definition UpdateRecord where "UpdateRecord r p = changeRecord r Upsert p"
definition RemoveRecord where "RemoveRecord r p = changeRecord r Delete p"

subsection \<open>Reading records\<close>

definition IsProprietary :: "rr_set \<Rightarrow> bool" where
  "IsProprietary rr = (rAliasTarget rr \<or> rTrafficPolicyInstanceId rr \<noteq> None)"

text \<open>The first loop of \<open>GetRecords\<close>: all pages, one after the other.\<close>

fun list_pages ::
    "nat \<Rightarrow> ('e, 'w) route53Client \<Rightarrow> list_input \<Rightarrow> rr_set list \<Rightarrow> 'w
       \<Rightarrow> ('e route53_error + rr_set list) \<times> 'w" where
  "list_pages 0 c params rrSets w = (Inl Unfinished, w)"
| "list_pages (Suc fuel) c params rrSets w =
     (case cListResourceRecordSets c params w of
        (Inl err, w') \<Rightarrow> (Inl (ApiError err), w')
      | (Inr page, w') \<Rightarrow>
          (let rrSets' = rrSets @ lpResourceRecordSets page in
           if \<not> lpIsTruncated page then (Inr rrSets', w')
           else if lpNextRecordName page = None \<or> lpNextRecordType page = []
           then (Inl NoContinuationToken, w')
           else list_pages fuel c
             (params\<lparr>liStartRecordName := lpNextRecordName page,
                     liStartRecordType := lpNextRecordType page,
                     liStartRecordIdentifier := lpNextRecordIdentifier page\<rparr>) rrSets' w'))"

text \<open>The second loop: incomplete, proprietary and TTL-less record sets are skipped, and the
  quotes of TXT values are trimmed.\<close>

definition set_values :: "rr_set \<Rightarrow> string list" where
  "set_values rr =
     map (\<lambda>v. if rType rr = ''TXT'' then Trim (ToString v) quote else ToString v)
       (filter (\<lambda>v. v \<noteq> None) (rValues rr))"

definition set_record :: "rr_set \<Rightarrow> dns_record option" where
  "set_record rr =
     (if rName rr = None \<or> rType rr = [] then None
      else if IsProprietary rr then None
      else case rTTL rr of
        None \<Rightarrow> None
      | Some ttl \<Rightarrow> Some \<lparr>d_fqdn = ToString (rName rr), d_records = set_values rr,
                         d_type = rType rr, d_ttl = ttl\<rparr>)"

definition sets_records :: "rr_set list \<Rightarrow> dns_record list" where
  "sets_records rrSets = List.map_filter set_record rrSets"

definition GetRecords ::
    "nat \<Rightarrow> ('e, 'w) route53 \<Rightarrow> ('e route53_error + dns_record list) \<times> ('e, 'w) route53" where
  "GetRecords fuel p =
     (let params = \<lparr>liHostedZoneId = hostedZoneId p, liMaxItems = 100, liStartRecordName = None,
                    liStartRecordType = [], liStartRecordIdentifier = None\<rparr>
      in case list_pages fuel (client p) params [] (world p) of
           (Inl err, w) \<Rightarrow> (Inl err, p\<lparr>world := w\<rparr>)
         | (Inr rrSets, w) \<Rightarrow> (Inr (sets_records rrSets), p\<lparr>world := w\<rparr>))"

definition HealthCheck :: "('e, 'w) route53 \<Rightarrow> 'e route53_error option \<times> ('e, 'w) route53" where
  "HealthCheck p =
     (case cGetHostedZoneCount (client p) (world p) of
        (Inl err, w) \<Rightarrow> (Some (ApiError err), p\<lparr>world := w\<rparr>)
      | (Inr _, w) \<Rightarrow> (None, p\<lparr>world := w\<rparr>))"

definition GetName :: string where "GetName = ''Route 53''"

subsection \<open>Init\<close>

definition validateHostedZoneId ::
    "string \<Rightarrow> ('e, 'w) route53 \<Rightarrow> 'e route53_error option \<times> ('e, 'w) route53" where
  "validateHostedZoneId rootDomainName p =
     (case cGetHostedZone (client p) (hostedZoneId p) (world p) of
        (Inl err, w) \<Rightarrow> (Some (CouldNotLookUpZone err), p\<lparr>world := w\<rparr>)
      | (Inr None, w) \<Rightarrow> (Some HostedZoneNoName, p\<lparr>world := w\<rparr>)
      | (Inr (Some z), w) \<Rightarrow>
          (if hzName z = None then (Some HostedZoneNoName, p\<lparr>world := w\<rparr>)
           else if ToString (hzName z) \<noteq> rootDomainName
           then (Some (HostedZoneMismatch rootDomainName), p\<lparr>world := w\<rparr>)
           else (None, p\<lparr>world := w\<rparr>)))"

definition setHostedZone ::
    "env \<Rightarrow> string \<Rightarrow> ('e, 'w) route53 \<Rightarrow> 'e route53_error option \<times> ('e, 'w) route53" where
  "setHostedZone env rootDomainName p =
     (if env ''ROUTE53_ZONE_ID'' \<noteq> []
      then validateHostedZoneId rootDomainName (p\<lparr>hostedZoneId := TrimSpace (env ''ROUTE53_ZONE_ID'')\<rparr>)
      else case cListHostedZonesByName (client p) (UnFqdn rootDomainName) 1 (world p) of
        (Inl err, w) \<Rightarrow> (Some (CouldNotListZones err), p\<lparr>world := w\<rparr>)
      | (Inr zones, w) \<Rightarrow>
          (if zones = [] \<or> ToString (hzName (hd zones)) \<noteq> rootDomainName
           then (Some (HostedZoneNotFound rootDomainName), p\<lparr>world := w\<rparr>)
           else let zoneID = ToString (hzId (hd zones)) in
             if zoneID = [] then (Some HostedZoneNoId, p\<lparr>world := w\<rparr>)
             else (None, p\<lparr>world := w, hostedZoneId := TrimPrefix zoneID ''/hostedzone/''\<rparr>)))"

definition validateEndpointURL :: "(string \<Rightarrow> url option) \<Rightarrow> string \<Rightarrow> 'e route53_error option" where
  "validateEndpointURL parse rawURL =
     (case parse rawURL of
        None \<Rightarrow> Some EndpointParse
      | Some parsed \<Rightarrow>
          if uScheme parsed \<noteq> ''http'' \<and> uScheme parsed \<noteq> ''https'' then Some EndpointScheme
          else if uHost parsed = [] then Some EndpointHost
          else if uHasUser parsed \<or> uRawQuery parsed \<noteq> [] \<or> uFragment parsed \<noteq> [] then Some EndpointExtras
          else None)"

definition max_retries :: "env \<Rightarrow> int \<Rightarrow> int" where
  "max_retries env current =
     (if env ''ROUTE53_MAX_RETRIES'' \<noteq> []
      then (case ParseInt (env ''ROUTE53_MAX_RETRIES'') 64 of
              Some i \<Rightarrow> if 0 \<le> i \<and> i \<le> 10 then i else 3
            | None \<Rightarrow> 3)
      else current)"

definition aws_region :: "env \<Rightarrow> string" where
  "aws_region env =
     (let region = TrimSpace (env ''AWS_REGION'');
          region = (if region = [] then TrimSpace (env ''AWS_DEFAULT_REGION'') else region)
      in if region = [] then ''us-east-1'' else region)"

record load_options =
  loRegion :: string
  loStaticCredentials :: "(string \<times> string \<times> string) option"

record client_options =
  coRetryMaxAttempts :: int
  coBaseEndpoint :: "string option"

text \<open>The calls \<open>Init\<close> makes outside the repository.\<close>

record ('e, 'w, 'cfg) aws_sdk =
  sdkLoadDefaultConfig :: "load_options \<Rightarrow> 'e + 'cfg"
  sdkNewFromConfig :: "'cfg \<Rightarrow> client_options \<Rightarrow> ('e, 'w) route53Client"
  sdkParseURL :: "string \<Rightarrow> url option"

definition legacy_credentials :: "env \<Rightarrow> 'e route53_error + (string \<times> string \<times> string) option" where
  "legacy_credentials env =
     (let accessKey = TrimSpace (env ''AWS_ACCESS_KEY''); secretKey = TrimSpace (env ''AWS_SECRET_KEY'')
      in if accessKey \<noteq> [] \<or> secretKey \<noteq> []
         then if accessKey = [] \<or> secretKey = [] then Inl LegacyKeysIncomplete
              else Inr (Some (accessKey, secretKey, TrimSpace (env ''AWS_SESSION_TOKEN'')))
         else Inr None)"

definition Init ::
    "('e, 'w, 'cfg) aws_sdk \<Rightarrow> env \<Rightarrow> string \<Rightarrow> ('e, 'w) route53
       \<Rightarrow> 'e route53_error option \<times> ('e, 'w) route53" where
  "Init sdk env rootDomainName p0 =
     (let p1 = p0\<lparr>route53MaxRetries := max_retries env (route53MaxRetries p0)\<rparr> in
      case legacy_credentials env of
        Inl err \<Rightarrow> (Some err, p1)
      | Inr credentials \<Rightarrow>
          (case sdkLoadDefaultConfig sdk \<lparr>loRegion = aws_region env, loStaticCredentials = credentials\<rparr> of
             Inl err \<Rightarrow> (Some (LoadConfigFailed err), p1)
           | Inr cfg \<Rightarrow>
               (let endpoint = TrimSpace (env ''ROUTE53_ENDPOINT_URL'') in
                case (if endpoint \<noteq> [] then validateEndpointURL (sdkParseURL sdk) endpoint else None) of
                  Some err \<Rightarrow> (Some err, p1)
                | None \<Rightarrow>
                    setHostedZone env rootDomainName
                      (p1\<lparr>client := sdkNewFromConfig sdk cfg
                            \<lparr>coRetryMaxAttempts = route53MaxRetries p1 + 1,
                             coBaseEndpoint = (if endpoint \<noteq> [] then Some endpoint else None)\<rparr>\<rparr>))))"

text \<open>The provider value that \<open>init\<close> registers.\<close>

definition route53_provider ::
    "('e, 'w, 'cfg) aws_sdk \<Rightarrow> env \<Rightarrow> nat \<Rightarrow> ('e route53_error, ('e, 'w) route53) provider" where
  "route53_provider sdk env fuel =
     \<lparr>pInit = Init sdk env, pGetName = GetName, pHealthCheck = HealthCheck,
      pAddRecord = AddRecord, pRemoveRecord = RemoveRecord, pUpdateRecord = UpdateRecord,
      pGetRecords = GetRecords fuel\<rparr>"

end
