(* ===== verification/Route53_Correct.thy ===== *)
theory Route53_Correct
  imports Route53
begin

text \<open>
  The Route 53 provider keeps the contract \<open>dns_provider\<close> that the synchronization relies on,
  for every service that keeps its own documented contract \<open>route53_service\<close>: listings are
  split into pages that continue where the last one ended, an UPSERT replaces one record set
  and a DELETE removes one. \<open>simulated\<close> is a service of that kind, with paging and with calls
  that fail; the contract is interpreted on it.
\<close>

subsection \<open>Record sets\<close>

definition set_key :: "rr_set \<Rightarrow> string \<times> string" where
  "set_key s = (ToString (rName s), rType s)"

definition lookup_set :: "rr_set list \<Rightarrow> string \<times> string \<Rightarrow> rr_set option" where
  "lookup_set sets key = find (\<lambda>s. set_key s = key) sets"

text \<open>A hosted zone without routing policies: one record set for each name and type.\<close>

definition sets_wf :: "rr_set list \<Rightarrow> bool" where
  "sets_wf sets = (distinct (map set_key sets) \<and> list_all (\<lambda>s. rName s \<noteq> None \<and> rType s \<noteq> []) sets)"

text \<open>The names that the service stores and lists as they are sent (other characters are listed
  as octal escapes, upper case as lower case, a missing final dot is added), and the values
  that need no escaping.\<close>

definition route53_char :: "char \<Rightarrow> bool" where
  "route53_char c = (CHR ''a'' \<le> c \<and> c \<le> CHR ''z'' \<or> digit_char c \<or> c \<in> set ''-_.'')"

definition route53_name :: "string \<Rightarrow> bool" where
  "route53_name n = (list_all route53_char n \<and> HasSuffix n ''.'')"

definition plain_value :: "string \<Rightarrow> bool" where
  "plain_value v = (CHR 0x22 \<notin> set v \<and> CHR 0x5C \<notin> set v)"

definition route53_storable :: "dns_record \<Rightarrow> bool" where
  "route53_storable r =
     (route53_name (d_fqdn r) \<and> d_type r \<in> {''A'', ''TXT''} \<and> list_all plain_value (d_records r))"

definition first_page :: "string \<Rightarrow> list_input" where
  "first_page zid = \<lparr>liHostedZoneId = zid, liMaxItems = 100, liStartRecordName = None,
     liStartRecordType = [], liStartRecordIdentifier = None\<rparr>"

definition next_page :: "list_page \<Rightarrow> list_input \<Rightarrow> list_input" where
  "next_page page params = params\<lparr>liStartRecordName := lpNextRecordName page,
     liStartRecordType := lpNextRecordType page,
     liStartRecordIdentifier := lpNextRecordIdentifier page\<rparr>"

subsection \<open>What the service documents\<close>

locale route53_service =
  fixes c :: "('e, 'w) route53Client"
    and zid :: string
    and ok :: "'w \<Rightarrow> bool"
    and sets :: "'w \<Rightarrow> rr_set list"
    and listed :: "'w \<Rightarrow> list_input \<Rightarrow> rr_set list"
  assumes sets_ok: "ok w \<Longrightarrow> sets_wf (sets w)"
    and list_first: "ok w \<Longrightarrow> listed w (first_page zid) = sets w"
    and list_frame: "ok w \<Longrightarrow> cListResourceRecordSets c params w = (res, w') \<Longrightarrow>
          ok w' \<and> sets w' = sets w \<and> listed w' = listed w"
    and list_page: "ok w \<Longrightarrow> liHostedZoneId params = zid \<Longrightarrow> 0 < liMaxItems params \<Longrightarrow>
          cListResourceRecordSets c params w = (Inr page, w') \<Longrightarrow>
          (if lpIsTruncated page
           then lpResourceRecordSets page \<noteq> []
             \<and> listed w params = lpResourceRecordSets page @ listed w (next_page page params)
           else listed w params = lpResourceRecordSets page)"
    and upsert_frame: "ok w \<Longrightarrow> route53_storable r \<Longrightarrow> d_records r \<noteq> [] \<Longrightarrow>
          cChangeResourceRecordSets c zid Upsert (change_set r) w = (err, w') \<Longrightarrow>
          ok w' \<and> (\<forall>k. k \<noteq> rkey r \<longrightarrow> lookup_set (sets w') k = lookup_set (sets w) k)"
    and upsert_ok: "ok w \<Longrightarrow> route53_storable r \<Longrightarrow> d_records r \<noteq> [] \<Longrightarrow>
          cChangeResourceRecordSets c zid Upsert (change_set r) w = (None, w') \<Longrightarrow>
          lookup_set (sets w') (rkey r) = Some (change_set r)"
    and delete_frame: "ok w \<Longrightarrow> lookup_set (sets w) (rkey r) \<noteq> None \<Longrightarrow>
          cChangeResourceRecordSets c zid Delete (change_set r) w = (err, w') \<Longrightarrow>
          ok w' \<and> (\<forall>k. k \<noteq> rkey r \<longrightarrow> lookup_set (sets w') k = lookup_set (sets w) k)"
    and delete_ok: "ok w \<Longrightarrow> lookup_set (sets w) (rkey r) \<noteq> None \<Longrightarrow>
          cChangeResourceRecordSets c zid Delete (change_set r) w = (None, w') \<Longrightarrow>
          lookup_set (sets w') (rkey r) = None"

subsection \<open>A simulated service\<close>

text \<open>
  A hosted zone in memory. \<open>simFaults\<close> says for each coming call whether it fails; a listing
  starts at the record set the input names and has at most \<open>liMaxItems\<close> entries; an UPSERT
  replaces the record set in place or appends it; a DELETE must give an existing record set as it
  is stored.
\<close>

record sim_world =
  simSets :: "rr_set list"
  simFaults :: "bool list"

definition sim_faulty :: "sim_world \<Rightarrow> bool" where
  "sim_faulty w = (simFaults w \<noteq> [] \<and> hd (simFaults w))"

definition sim_tick :: "sim_world \<Rightarrow> sim_world" where
  "sim_tick w = w\<lparr>simFaults := tl (simFaults w)\<rparr>"

definition sim_from :: "rr_set list \<Rightarrow> list_input \<Rightarrow> rr_set list" where
  "sim_from S params =
     (case liStartRecordName params of
        None \<Rightarrow> S
      | Some n \<Rightarrow> dropWhile (\<lambda>s. set_key s \<noteq> (n, liStartRecordType params)) S)"

definition sim_list :: "list_input \<Rightarrow> sim_world \<Rightarrow> (string + list_page) \<times> sim_world" where
  "sim_list params w =
     (let rest = sim_from (simSets w) params; n = nat (liMaxItems params); more = drop n rest in
      if sim_faulty w then (Inl ''Throttling'', sim_tick w)
      else if more = []
      then (Inr \<lparr>lpResourceRecordSets = rest, lpIsTruncated = False, lpNextRecordName = None,
                lpNextRecordType = [], lpNextRecordIdentifier = None\<rparr>, sim_tick w)
      else (Inr \<lparr>lpResourceRecordSets = take n rest, lpIsTruncated = True,
                lpNextRecordName = rName (hd more), lpNextRecordType = rType (hd more),
                lpNextRecordIdentifier = None\<rparr>, sim_tick w))"

fun sim_upsert :: "rr_set \<Rightarrow> rr_set list \<Rightarrow> rr_set list" where
  "sim_upsert s [] = [s]"
| "sim_upsert s (x # xs) = (if set_key x = set_key s then s # xs else x # sim_upsert s xs)"

definition sim_change ::
    "string \<Rightarrow> change_action \<Rightarrow> rr_set \<Rightarrow> sim_world \<Rightarrow> string option \<times> sim_world" where
  "sim_change zid action s w =
     (if sim_faulty w then (Some ''Throttling'', sim_tick w)
      else case action of
        Upsert \<Rightarrow> (None, (sim_tick w)\<lparr>simSets := sim_upsert s (simSets w)\<rparr>)
      | Delete \<Rightarrow>
          if lookup_set (simSets w) (set_key s) \<noteq> Some s then (Some ''InvalidChangeBatch'', sim_tick w)
          else (None, (sim_tick w)\<lparr>simSets := filter (\<lambda>x. set_key x \<noteq> set_key s) (simSets w)\<rparr>))"

definition simulated :: "hosted_zone \<Rightarrow> (string, sim_world) route53Client" where
  "simulated z =
     \<lparr>cChangeResourceRecordSets = sim_change,
      cGetHostedZone = (\<lambda>zid w. (if hzId z = Some zid then Inr (Some z) else Inl ''NoSuchHostedZone'', w)),
      cGetHostedZoneCount = (\<lambda>w. (if sim_faulty w then Inl ''Throttling'' else Inr 1, sim_tick w)),
      cListHostedZonesByName = (\<lambda>name n w. (Inr [z], w)),
      cListResourceRecordSets = sim_list\<rparr>"

definition sim_ok :: "sim_world \<Rightarrow> bool" where
  "sim_ok w = sets_wf (simSets w)"

definition sim_listed :: "sim_world \<Rightarrow> list_input \<Rightarrow> rr_set list" where
  "sim_listed w = sim_from (simSets w)"

text \<open>The state of the provider, as the contract sees it.\<close>

definition route53_inv ::
    "('e, 'w) route53Client \<Rightarrow> string \<Rightarrow> ('w \<Rightarrow> bool) \<Rightarrow> ('e, 'w) route53 \<Rightarrow> bool" where
  "route53_inv c zid ok p = (client p = c \<and> hostedZoneId p = zid \<and> ok (world p))"

definition route53_zone ::
    "('w \<Rightarrow> rr_set list) \<Rightarrow> ('e, 'w) route53 \<Rightarrow> (string \<times> string) \<rightharpoonup> string set" where
  "route53_zone sets p = rview (sets_records (sets (world p)))"

subsection \<open>Record sets and records\<close>

text \<open>A record set that is sent is read back as the record it was made from: the quotes that
  \<open>changeRecord\<close> puts around TXT values are the ones \<open>GetRecords\<close> trims.\<close>

lemma plain_value_trim:
  assumes "plain_value v"
  shows "Trim (quote @ v @ quote) quote = v"
proof (cases "v = []")
  case False
  then have "hd v \<in> set v" "last v \<in> set v" by simp_all
  with assms have "hd v \<noteq> CHR 0x22" "last v \<noteq> CHR 0x22" by (auto simp: plain_value_def)
  with False have "dropWhile (\<lambda>c. c \<in> set quote) (v @ quote) = v @ quote"
    and "dropWhile (\<lambda>c. c \<in> set quote) (rev v) = rev v"
    by (simp_all add: quote_def dropWhile_eq_self_iff hd_rev)
  then show ?thesis by (simp add: Trim_def TrimLeft_def TrimRight_def quote_def)
qed (simp add: Trim_def TrimLeft_def TrimRight_def quote_def)

lemma set_record_change_set:
  assumes "d_type r \<noteq> []" and "d_type r = ''TXT'' \<Longrightarrow> list_all plain_value (d_records r)"
  shows "set_record (change_set r) = Some r"
proof -
  have "map (\<lambda>v. Trim (quote @ v @ quote) quote) (d_records r) = d_records r" if "d_type r = ''TXT''"
    using assms(2) [OF that] by (intro map_idI) (simp add: list_all_iff plain_value_trim)
  then show ?thesis
    using assms(1) by (cases "d_type r = ''TXT''") (simp_all add: set_record_def change_set_def
        set_values_def change_values_def IsProprietary_def ToString_def comp_def)
qed

lemma set_key_change_set [simp]: "set_key (change_set r) = rkey r"
  by (simp add: set_key_def change_set_def rkey_def ToString_def)

lemma set_record_key: "set_record s = Some r \<Longrightarrow> rkey r = set_key s"
  by (auto simp: set_record_def set_key_def rkey_def split: if_splits option.splits)

lemma sets_records_Cons:
  "sets_records (s # S) = (case set_record s of None \<Rightarrow> sets_records S | Some r \<Rightarrow> r # sets_records S)"
  by (simp add: sets_records_def List.map_filter_def split: option.splits)

lemma sets_records_keys: "rkey ` set (sets_records S) \<subseteq> set_key ` set S"
  by (induction S) (auto simp: sets_records_Cons set_record_key sets_records_def
      List.map_filter_def split: option.splits)

lemma distinct_sets_records:
  "distinct (map set_key S) \<Longrightarrow> distinct (map rkey (sets_records S))"
proof (induction S)
  case (Cons s S)
  then have "set_key s \<notin> rkey ` set (sets_records S)" using sets_records_keys [of S] by auto
  with Cons show ?case by (simp add: sets_records_Cons set_record_key split: option.splits)
qed (simp add: sets_records_def List.map_filter_def)

lemma rview_Cons: "rview (r # rs) k = (if rkey r = k then Some (set (d_records r)) else rview rs k)"
  by (simp add: rview_find)

lemma lookup_set_Cons: "lookup_set (s # S) k = (if set_key s = k then Some s else lookup_set S k)"
  by (simp add: lookup_set_def)

lemma lookup_set_None: "lookup_set S k = None \<longleftrightarrow> k \<notin> set_key ` set S"
  by (force simp: lookup_set_def find_None_iff)

lemma rview_sets_records:
  "distinct (map set_key S) \<Longrightarrow> rview (sets_records S) k =
     (case lookup_set S k of None \<Rightarrow> None
      | Some s \<Rightarrow> map_option (\<lambda>r. set (d_records r)) (set_record s))"
proof (induction S)
  case (Cons s S)
  have "set_key s = k \<Longrightarrow> lookup_set S k = None" using Cons.prems by (auto simp: lookup_set_None)
  with Cons show ?case
    by (auto simp: sets_records_Cons rview_Cons lookup_set_Cons set_record_key split: option.splits)
qed (simp add: sets_records_def List.map_filter_def rview_def lookup_set_def)

subsection \<open>Configuration\<close>

lemma validateEndpointURL_None:
  "validateEndpointURL parse rawURL = None \<longleftrightarrow> (\<exists>u. parse rawURL = Some u \<and> service_url u)"
  by (auto simp: validateEndpointURL_def service_url_def split: option.splits)

lemma setHostedZone_None:
  assumes "setHostedZone env root p = (None, p')"
  shows "route53MaxRetries p' = route53MaxRetries p \<and> client p' = client p
    \<and> (if env ''ROUTE53_ZONE_ID'' \<noteq> []
       then hostedZoneId p' = TrimSpace (env ''ROUTE53_ZONE_ID'')
         \<and> (\<exists>z w. cGetHostedZone (client p) (hostedZoneId p') (world p) = (Inr (Some z), w) \<and> hzName z = Some root)
       else (\<exists>z zs w zoneID. cListHostedZonesByName (client p) (UnFqdn root) 1 (world p) = (Inr (z # zs), w)
              \<and> ToString (hzName z) = root \<and> hzId z = Some zoneID
              \<and> hostedZoneId p' = TrimPrefix zoneID ''/hostedzone/''))"
proof (cases "env ''ROUTE53_ZONE_ID'' = []")
  case True
  obtain r w where call: "cListHostedZonesByName (client p) (UnFqdn root) 1 (world p) = (r, w)" by fastforce
  with True assms obtain z zs where r: "r = Inr (z # zs)" and z: "ToString (hzName z) = root" "ToString (hzId z) \<noteq> []"
    and p': "p' = p\<lparr>world := w, hostedZoneId := TrimPrefix (ToString (hzId z)) ''/hostedzone/''\<rparr>"
    by (cases r) (auto simp: setHostedZone_def Let_def neq_Nil_conv split: if_splits)
  then obtain zoneID where "hzId z = Some zoneID" by (cases "hzId z") (auto simp: ToString_def)
  with True call r z p' show ?thesis by (simp add: ToString_def)
next
  case False
  let ?q = "p\<lparr>hostedZoneId := TrimSpace (env ''ROUTE53_ZONE_ID'')\<rparr>"
  obtain r w where call: "cGetHostedZone (client p) (TrimSpace (env ''ROUTE53_ZONE_ID'')) (world p) = (r, w)" by fastforce
  with False assms obtain z where "r = Inr (Some z)" "hzName z = Some root" "p' = ?q\<lparr>world := w\<rparr>"
    by (auto simp: setHostedZone_def validateHostedZoneId_def ToString_def split: sum.splits option.splits if_splits)
  with False call show ?thesis by simp
qed

subsection \<open>The provider keeps its contract\<close>

context route53_service
begin

lemma list_pages_sound:
  assumes "ok w" and "liHostedZoneId params = zid" and "0 < liMaxItems params"
    and "list_pages fuel c params acc w = (res, w')"
  shows "ok w' \<and> sets w' = sets w \<and> (\<forall>rs. res = Inr rs \<longrightarrow> rs = acc @ listed w params)"
  using assms
proof (induction fuel arbitrary: params acc w)
  case (Suc fuel)
  obtain r w1 where call: "cListResourceRecordSets c params w = (r, w1)" by fastforce
  note frame = list_frame [OF Suc.prems(1) call]
  show ?case
  proof (cases r)
    case (Inl e)
    with Suc.prems(4) call frame show ?thesis by auto
  next
    case (Inr page)
    note law = list_page [OF Suc.prems(1-3) call [unfolded Inr]]
    show ?thesis
    proof (cases "lpIsTruncated page \<and> lpNextRecordName page \<noteq> None \<and> lpNextRecordType page \<noteq> []")
      case True
      with Suc.prems(4) call Inr
      have rest: "list_pages fuel c (next_page page params) (acc @ lpResourceRecordSets page) w1 = (res, w')"
        by (simp add: Let_def next_page_def)
      have "liHostedZoneId (next_page page params) = zid" "0 < liMaxItems (next_page page params)"
        using Suc.prems(2,3) by (simp_all add: next_page_def)
      from Suc.IH [OF frame [THEN conjunct1] this rest] frame law True show ?thesis by simp
    next
      case False
      with Suc.prems(4) call Inr frame law show ?thesis by (auto simp: Let_def split: if_splits)
    qed
  qed
qed auto

lemma list_pages_finishes:
  assumes "ok w" and "liHostedZoneId params = zid" and "0 < liMaxItems params"
    and "length (listed w params) < fuel"
  shows "fst (list_pages fuel c params acc w) \<noteq> Inl Unfinished"
  using assms
proof (induction fuel arbitrary: params acc w)
  case (Suc fuel)
  obtain r w1 where call: "cListResourceRecordSets c params w = (r, w1)" by fastforce
  note frame = list_frame [OF Suc.prems(1) call]
  show ?case
  proof (cases r)
    case (Inr page)
    note law = list_page [OF Suc.prems(1-3) call [unfolded Inr]]
    show ?thesis
    proof (cases "lpIsTruncated page")
      case True
      have next_ok: "liHostedZoneId (next_page page params) = zid" "0 < liMaxItems (next_page page params)"
        using Suc.prems(2,3) by (simp_all add: next_page_def)
      from law True have "lpResourceRecordSets page \<noteq> []"
        and "listed w params = lpResourceRecordSets page @ listed w (next_page page params)" by simp_all
      then have "length (listed w1 (next_page page params)) < fuel"
        using Suc.prems(4) frame by (cases "lpResourceRecordSets page") auto
      from Suc.IH [OF frame [THEN conjunct1] next_ok this] call Inr True show ?thesis
        by (simp add: Let_def next_page_def)
    qed (simp add: call Inr Let_def)
  qed (simp add: call)
qed simp

lemma GetRecords_sound:
  assumes "route53_inv c zid ok p" and "GetRecords fuel p = (res, p')"
  shows "route53_inv c zid ok p' \<and> sets (world p') = sets (world p)
    \<and> (\<forall>rs. res = Inr rs \<longrightarrow> rs = sets_records (sets (world p)))"
proof -
  obtain r w where pages: "list_pages fuel c (first_page zid) [] (world p) = (r, w)" by fastforce
  have "ok (world p)" and p: "client p = c" "hostedZoneId p = zid"
    using assms(1) by (simp_all add: route53_inv_def)
  from list_pages_sound [OF this(1) _ _ pages] list_first [OF this(1)]
  have "ok w \<and> sets w = sets (world p) \<and> (\<forall>rs. r = Inr rs \<longrightarrow> rs = sets (world p))"
    by (simp add: first_page_def)
  then show ?thesis
    using assms(2) p pages
    by (auto simp: GetRecords_def route53_inv_def first_page_def split: sum.splits)
qed

lemma GetRecords_finishes:
  assumes "route53_inv c zid ok p" and "GetRecords fuel p = (res, p')"
    and "length (sets (world p)) < fuel"
  shows "res \<noteq> Inl Unfinished"
proof -
  have ok: "ok (world p)" and p: "client p = c" "hostedZoneId p = zid"
    using assms(1) by (simp_all add: route53_inv_def)
  have "fst (list_pages fuel c (first_page zid) [] (world p)) \<noteq> Inl Unfinished"
    using list_pages_finishes [OF ok] list_first [OF ok] assms(3) by (simp add: first_page_def)
  with assms(2) p show ?thesis
    by (auto simp: GetRecords_def first_page_def split: prod.splits sum.splits)
qed

lemma zone_lookup:
  assumes "ok (world p)"
  shows "route53_zone sets p k =
     (case lookup_set (sets (world p)) k of None \<Rightarrow> None
      | Some s \<Rightarrow> map_option (\<lambda>r. set (d_records r)) (set_record s))"
  using sets_ok [OF assms] by (simp add: route53_zone_def rview_sets_records sets_wf_def)

lemma upsert_contract:
  assumes "route53_inv c zid ok p" and "route53_storable r" and "changeRecord r Upsert p = (e, p')"
  shows "route53_inv c zid ok p' \<and> (\<forall>k. k \<noteq> rkey r \<longrightarrow> route53_zone sets p' k = route53_zone sets p k)
    \<and> (e = None \<longrightarrow> route53_zone sets p' (rkey r) = Some (set (d_records r)))"
proof (cases "d_records r = []")
  case False
  obtain err w where call: "cChangeResourceRecordSets c zid Upsert (change_set r) (world p) = (err, w)"
    by fastforce
  have p: "ok (world p)" "client p = c" "hostedZoneId p = zid"
    using assms(1) by (simp_all add: route53_inv_def)
  with False call assms(3) have p': "p' = p\<lparr>world := w\<rparr>" "e = map_option ApiError err"
    by (auto simp: changeRecord_def)
  have read: "set_record (change_set r) = Some r"
    using assms(2) by (intro set_record_change_set) (auto simp: route53_storable_def)
  show ?thesis
    using upsert_frame [OF p(1) assms(2) False call] upsert_ok [OF p(1) assms(2) False] call p p' read
    by (auto simp: route53_inv_def zone_lookup)
qed (use assms in \<open>auto simp: changeRecord_def\<close>)

lemma delete_contract:
  assumes "route53_inv c zid ok p" and "route53_zone sets p (rkey r) \<noteq> None"
    and "changeRecord r Delete p = (e, p')"
  shows "route53_inv c zid ok p' \<and> (\<forall>k. k \<noteq> rkey r \<longrightarrow> route53_zone sets p' k = route53_zone sets p k)
    \<and> (e = None \<longrightarrow> route53_zone sets p' (rkey r) = None)"
proof (cases "d_records r = []")
  case False
  obtain err w where call: "cChangeResourceRecordSets c zid Delete (change_set r) (world p) = (err, w)"
    by fastforce
  have p: "ok (world p)" "client p = c" "hostedZoneId p = zid"
    using assms(1) by (simp_all add: route53_inv_def)
  with False call assms(3) have p': "p' = p\<lparr>world := w\<rparr>" "e = map_option ApiError err"
    by (auto simp: changeRecord_def)
  have known: "lookup_set (sets (world p)) (rkey r) \<noteq> None"
    using assms(2) p(1) by (auto simp: zone_lookup split: option.splits)
  show ?thesis
    using delete_frame [OF p(1) known call] delete_ok [OF p(1) known] call p p'
    by (auto simp: route53_inv_def zone_lookup)
qed (use assms in \<open>auto simp: changeRecord_def\<close>)

lemma provider_contract:
  "dns_provider (route53_provider sdk env fuel) (route53_inv c zid ok) (route53_zone sets) route53_storable (\<lambda>_. True)"
proof (unfold_locales, goal_cases)
  case (1 s res s')
  then show ?case using GetRecords_sound [of s fuel res s']
    by (simp add: route53_provider_def route53_zone_def)
next
  case (2 s rs s')
  then show ?case using GetRecords_sound [of s fuel "Inr rs" s'] sets_ok [of "world s"]
    by (simp add: route53_provider_def route53_zone_def route53_inv_def sets_wf_def distinct_sets_records)
next
  case (3 s r e s')
  then show ?case using upsert_contract [of s r e s']
    by (simp add: route53_provider_def AddRecord_def)
next
  case (4 s r s')
  then show ?case using upsert_contract [of s r None s']
    by (simp add: route53_provider_def AddRecord_def)
next
  case (5 s r e s')
  then show ?case using upsert_contract [of s r e s']
    by (simp add: route53_provider_def UpdateRecord_def)
next
  case (6 s r s')
  then show ?case using upsert_contract [of s r None s']
    by (simp add: route53_provider_def UpdateRecord_def)
next
  case (7 s r e s')
  then show ?case using delete_contract [of s r e s']
    by (simp add: route53_provider_def RemoveRecord_def)
next
  case (8 s r s')
  then show ?case using delete_contract [of s r None s']
    by (simp add: route53_provider_def RemoveRecord_def)
qed

end

text \<open>A service that carries out every request it should: a listing, an UPSERT of a record with valid
  values (\<open>accepted\<close>), and a DELETE that gives the record set as it is stored. A record set that is
  no alias has values.\<close>

locale reliable_route53 = route53_service c zid ok sets listed
  for c :: "('e, 'w) route53Client" and zid :: string and ok :: "'w \<Rightarrow> bool"
    and sets :: "'w \<Rightarrow> rr_set list" and listed :: "'w \<Rightarrow> list_input \<Rightarrow> rr_set list" +
  fixes accepted :: "dns_record \<Rightarrow> bool"
  assumes list_succeeds: "ok w \<Longrightarrow> liHostedZoneId params = zid \<Longrightarrow> 0 < liMaxItems params \<Longrightarrow>
          \<exists>page w'. cListResourceRecordSets c params w = (Inr page, w')
            \<and> (lpIsTruncated page \<longrightarrow> lpNextRecordName page \<noteq> None \<and> lpNextRecordType page \<noteq> [])"
    and upsert_succeeds: "ok w \<Longrightarrow> route53_storable r \<Longrightarrow> accepted r \<Longrightarrow> d_records r \<noteq> [] \<Longrightarrow>
          \<exists>w'. cChangeResourceRecordSets c zid Upsert (change_set r) w = (None, w')"
    and delete_succeeds: "ok w \<Longrightarrow> lookup_set (sets w) (rkey r) = Some (change_set r) \<Longrightarrow>
          \<exists>w'. cChangeResourceRecordSets c zid Delete (change_set r) w = (None, w')"
    and values_present: "ok w \<Longrightarrow> s \<in> set (sets w) \<Longrightarrow> set_record s \<noteq> None \<Longrightarrow>
          rValues s \<noteq> [] \<and> None \<notin> set (rValues s)"
begin

definition holds :: "('e, 'w) route53 \<Rightarrow> dns_record \<Rightarrow> bool" where
  "holds p r = (lookup_set (sets (world p)) (rkey r) = Some (change_set r) \<and> d_records r \<noteq> [])"

lemma list_pages_succeeds:
  assumes "ok w" and "liHostedZoneId params = zid" and "0 < liMaxItems params"
    and "length (listed w params) < fuel"
  shows "\<exists>rs w'. list_pages fuel c params acc w = (Inr rs, w')"
  using assms
proof (induction fuel arbitrary: params acc w)
  case (Suc fuel)
  from list_succeeds [OF Suc.prems(1-3)] obtain page w1 where
    call: "cListResourceRecordSets c params w = (Inr page, w1)" and
    token: "lpIsTruncated page \<longrightarrow> lpNextRecordName page \<noteq> None \<and> lpNextRecordType page \<noteq> []" by blast
  note frame = list_frame [OF Suc.prems(1) call] and law = list_page [OF Suc.prems(1-3) call]
  show ?case
  proof (cases "lpIsTruncated page")
    case True
    have next_ok: "liHostedZoneId (next_page page params) = zid" "0 < liMaxItems (next_page page params)"
      using Suc.prems(2,3) by (simp_all add: next_page_def)
    from law True have "lpResourceRecordSets page \<noteq> []"
      and "listed w params = lpResourceRecordSets page @ listed w (next_page page params)" by simp_all
    then have "length (listed w1 (next_page page params)) < fuel"
      using Suc.prems(4) frame by (cases "lpResourceRecordSets page") auto
    from Suc.IH [OF frame [THEN conjunct1] next_ok this] call token True show ?thesis
      by (simp add: Let_def next_page_def)
  qed (simp add: call Let_def)
qed simp

lemma GetRecords_succeeds:
  assumes "route53_inv c zid ok p" and "length (sets (world p)) < fuel"
  shows "\<exists>p'. GetRecords fuel p = (Inr (sets_records (sets (world p))), p')"
proof -
  have ok: "ok (world p)" and p: "client p = c" "hostedZoneId p = zid"
    using assms(1) by (simp_all add: route53_inv_def)
  from list_pages_succeeds [OF ok, of "first_page zid" fuel "[]"] list_first [OF ok] assms(2)
  obtain rs w' where "list_pages fuel c (first_page zid) [] (world p) = (Inr rs, w')"
    by (auto simp: first_page_def)
  then obtain rs' p' where run: "GetRecords fuel p = (Inr rs', p')" using p by (simp add: GetRecords_def first_page_def)
  with GetRecords_sound [OF assms(1) run] show ?thesis by blast
qed

text \<open>An address record that is listed can be deleted as it was listed.\<close>

lemma change_set_set_record:
  assumes "set_record s = Some r" and "rType s = ''A''" and "rValues s \<noteq> []" and "None \<notin> set (rValues s)"
  shows "change_set r = s \<and> d_records r \<noteq> []"
proof -
  from assms(1,2) have r: "r = \<lparr>d_fqdn = ToString (rName s), d_records = set_values s, d_type = ''A'', d_ttl = the (rTTL s)\<rparr>"
    and s: "rName s \<noteq> None" "rTTL s \<noteq> None" "\<not> rAliasTarget s" "rTrafficPolicyInstanceId s = None"
    by (auto simp: set_record_def IsProprietary_def split: if_splits option.splits)
  have "filter (\<lambda>v. v \<noteq> None) (rValues s) = rValues s" using assms(4) by (metis (mono_tags, lifting) filter_True)
  then have set_vals: "set_values s = map ToString (rValues s)" using assms(2) by (simp add: set_values_def)
  have "map (\<lambda>v. Some (ToString v)) (rValues s) = rValues s"
    using assms(4) by (intro map_idI) (metis ToString_def option.collapse option.case_eq_if)
  then have vals: "map Some (set_values s) = rValues s" "set_values s \<noteq> []"
    using assms(3) by (simp_all add: set_vals comp_def)
  have "change_set r = s"
    using s vals(1) assms(2) by (cases s) (auto simp: r change_set_def change_values_def ToString_def)
  with vals(2) show ?thesis by (simp add: r)
qed

lemma holds_frame:
  assumes "holds p r" and "\<forall>k. k \<noteq> rkey r' \<longrightarrow> lookup_set (sets (world p')) k = lookup_set (sets (world p)) k"
    and "rkey r' \<noteq> rkey r"
  shows "holds p' r"
  using assms unfolding holds_def by metis

lemma changeRecord_lookup:
  assumes "route53_inv c zid ok p" and "changeRecord r action p = (e, p')"
    and "action = Upsert \<and> route53_storable r \<or> action = Delete \<and> lookup_set (sets (world p)) (rkey r) \<noteq> None"
  shows "\<forall>k. k \<noteq> rkey r \<longrightarrow> lookup_set (sets (world p')) k = lookup_set (sets (world p)) k"
proof (cases "d_records r = []")
  case False
  obtain err w where call: "cChangeResourceRecordSets c zid action (change_set r) (world p) = (err, w)" by fastforce
  have p: "ok (world p)" "client p = c" "hostedZoneId p = zid"
    using assms(1) by (simp_all add: route53_inv_def)
  with False call assms(2) have "p' = p\<lparr>world := w\<rparr>" by (auto simp: changeRecord_def)
  then have w: "world p' = w" by simp
  show ?thesis unfolding w
    using assms(3) upsert_frame [OF p(1) _ False] delete_frame [OF p(1)] call by blast
qed (use assms(2) in \<open>auto simp: changeRecord_def\<close>)

lemma changeRecord_succeeds:
  assumes "route53_inv c zid ok p" and "d_records r \<noteq> []"
    and "action = Upsert \<and> route53_storable r \<and> accepted r \<or> action = Delete \<and> holds p r"
  shows "fst (changeRecord r action p) = None"
proof -
  have p: "ok (world p)" "client p = c" "hostedZoneId p = zid"
    using assms(1) by (simp_all add: route53_inv_def)
  from assms(3) upsert_succeeds [OF p(1) _ _ assms(2)] delete_succeeds [OF p(1), of r]
  obtain w where "cChangeResourceRecordSets c zid action (change_set r) (world p) = (None, w)"
    by (auto simp: holds_def)
  with assms(2) p show ?thesis by (simp add: changeRecord_def)
qed

lemma reliable_contract:
  "reliable_provider (route53_provider sdk env fuel) (route53_inv c zid ok) (route53_zone sets) route53_storable
     (\<lambda>_. True) (\<lambda>r. accepted r \<and> d_records r \<noteq> []) holds"
proof (rule reliable_provider.intro [OF provider_contract], unfold_locales, goal_cases)
  case (1 s r)
  then show ?case by (simp add: route53_provider_def AddRecord_def changeRecord_succeeds)
next
  case (2 s r)
  then show ?case by (simp add: route53_provider_def UpdateRecord_def changeRecord_succeeds)
next
  case (3 s r)
  then show ?case by (simp add: route53_provider_def RemoveRecord_def changeRecord_succeeds holds_def)
next
  case (4 s r r' e s')
  then show ?case using holds_frame [OF 4(2) changeRecord_lookup [of s r' Upsert e s']]
    by (simp add: route53_provider_def AddRecord_def)
next
  case (5 s r r' e s')
  then show ?case using holds_frame [OF 5(2) changeRecord_lookup [of s r' Upsert e s']]
    by (simp add: route53_provider_def UpdateRecord_def)
next
  case (6 s r r' e s')
  have "route53_zone sets s (rkey r') \<noteq> None" using 6(4) .
  then have "lookup_set (sets (world s)) (rkey r') \<noteq> None"
    using 6(1) by (auto simp: route53_inv_def zone_lookup split: option.splits)
  with 6 show ?case using holds_frame [OF 6(2) changeRecord_lookup [of s r' Delete e s']]
    by (simp add: route53_provider_def RemoveRecord_def)
qed

lemma listed_holds:
  assumes "route53_inv c zid ok p" and "r \<in> set (sets_records (sets (world p)))"
    and "d_type r = ''A'' \<or> (\<exists>r'. route53_storable r' \<and> lookup_set (sets (world p)) (rkey r) = Some (change_set r'))"
  shows "holds p r"
proof -
  have ok: "ok (world p)" using assms(1) by (simp add: route53_inv_def)
  note wf = sets_ok [OF ok]
  from assms(2) obtain s where s: "s \<in> set (sets (world p))" "set_record s = Some r"
    by (auto simp: sets_records_def List.map_filter_def)
  then have key: "set_key s = rkey r" by (simp add: set_record_key)
  have look: "lookup_set (sets (world p)) (rkey r) = Some s"
  proof -
    have "find (\<lambda>x. set_key x = set_key s) S = Some s" if "distinct (map set_key S)" "s \<in> set S" for S
      using that by (induction S) auto
    then show ?thesis using wf s(1) by (simp add: lookup_set_def sets_wf_def key [symmetric])
  qed
  note vals = values_present [OF ok s(1)]
  from assms(3) show ?thesis
  proof
    assume "d_type r = ''A''"
    then have "rType s = ''A''" using key by (simp add: set_key_def rkey_def)
    from change_set_set_record [OF s(2) this] vals s(2) look show ?thesis by (simp add: holds_def)
  next
    assume "\<exists>r'. route53_storable r' \<and> lookup_set (sets (world p)) (rkey r) = Some (change_set r')"
    then obtain r' where r': "route53_storable r'" "s = change_set r'" using look by auto
    have "set_record (change_set r') = Some r'"
      using r'(1) by (intro set_record_change_set) (auto simp: route53_storable_def)
    with r' s(2) have "r = r'" by simp
    moreover have "d_records r' \<noteq> []" using vals s(2) r'(2) by (auto simp: change_set_def change_values_def)
    ultimately show ?thesis using look r'(2) by (simp add: holds_def)
  qed
qed

end

sublocale reliable_route53 \<subseteq> reliable: reliable_provider
  "route53_provider sdk env fuel" "route53_inv c zid ok" "route53_zone sets" route53_storable
  "\<lambda>_. True" "\<lambda>r. accepted r \<and> d_records r \<noteq> []" holds
  for sdk env fuel
  by (rule reliable_contract)

context reliable_route53
begin

text \<open>A synchronization completes when the paging bound exceeds the number of record sets and the state
  RRSet, if there is one, is as this program writes it.\<close>

lemma route53_sync_succeeds:
  assumes "route53_inv c zid ok p" and "length (sets (world p)) < fuel"
    and "route53_zone sets p (StateFqdn u (RootDomainName cfg), ''A'') = None"
    and "desired_ok route53_storable (StateFqdn u (RootDomainName cfg)) desired"
    and "\<forall>k v. map_of desired k = Some v \<longrightarrow> accepted (m_dns v) \<and> d_records (m_dns v) \<noteq> []"
    and "\<forall>s. lookup_set (sets (world p)) (StateFqdn u (RootDomainName cfg), ''TXT'') = Some s \<longrightarrow>
           (\<exists>r. route53_storable r \<and> s = change_set r)"
  shows "\<exists>updated p'. UpdateProviderDnsRecords (route53_provider sdk env fuel) u cfg desired p = (Inr updated, p')"
proof -
  from GetRecords_succeeds [OF assms(1,2)] obtain p1 where
    run: "GetRecords fuel p = (Inr (sets_records (sets (world p))), p1)" by blast
  with GetRecords_sound [OF assms(1) run] have p1: "route53_inv c zid ok p1" "sets (world p1) = sets (world p)"
    by simp_all
  have "holds p1 r" if r: "r \<in> set (sets_records (sets (world p)))"
    and kind: "d_type r = ''A'' \<or> rkey r = (StateFqdn u (RootDomainName cfg), ''TXT'')" for r
  proof (rule listed_holds [OF p1(1)])
    show "r \<in> set (sets_records (sets (world p1)))" using r p1(2) by simp
    obtain s where "s \<in> set (sets (world p))" "rkey r = set_key s"
      using r set_record_key by (auto simp: sets_records_def List.map_filter_def)
    then have "lookup_set (sets (world p)) (rkey r) \<noteq> None"
      by (auto simp: lookup_set_def find_None_iff)
    with kind assms(6) p1(2) show "d_type r = ''A''
        \<or> (\<exists>r'. route53_storable r' \<and> lookup_set (sets (world p1)) (rkey r) = Some (change_set r'))" by auto
  qed
  then show ?thesis
    using assms(3) by (intro reliable.sync_succeeds [OF assms(1) _ assms(4,5), of sdk env fuel _ p1])
      (simp_all add: route53_provider_def run)
qed

end

sublocale route53_service \<subseteq> contract: dns_provider
  "route53_provider sdk env fuel" "route53_inv c zid ok" "route53_zone sets" route53_storable "\<lambda>_. True"
  for sdk env fuel
  by (rule provider_contract)

subsection \<open>The simulated service keeps its contract\<close>

lemma lookup_sim_upsert:
  "lookup_set (sim_upsert s S) k = (if k = set_key s then Some s else lookup_set S k)"
  by (induction S) (auto simp: lookup_set_def)

lemma set_sim_upsert: "set_key ` set (sim_upsert s S) = insert (set_key s) (set_key ` set S)"
  by (induction S) auto

lemma distinct_sim_upsert: "distinct (map set_key S) \<Longrightarrow> distinct (map set_key (sim_upsert s S))"
  using set_sim_upsert by (induction S) (auto simp: image_iff)

lemma sets_wf_sim_upsert:
  "sets_wf S \<Longrightarrow> rName s \<noteq> None \<Longrightarrow> rType s \<noteq> [] \<Longrightarrow> sets_wf (sim_upsert s S)"
proof -
  assume "sets_wf S" "rName s \<noteq> None" "rType s \<noteq> []"
  moreover have "set (sim_upsert s S) \<subseteq> insert s (set S)" by (induction S) auto
  ultimately show ?thesis by (auto simp: sets_wf_def distinct_sim_upsert list_all_iff)
qed

lemma lookup_set_filter:
  "lookup_set (filter (\<lambda>x. set_key x \<noteq> key) S) k = (if k = key then None else lookup_set S k)"
  by (induction S) (auto simp: lookup_set_def)

lemma sets_wf_filter: "sets_wf S \<Longrightarrow> sets_wf (filter P S)"
  by (auto simp: sets_wf_def list_all_iff distinct_map intro: inj_on_subset)

lemma dropWhile_key_split:
  assumes "distinct (map set_key (xs @ s # ys))"
  shows "dropWhile (\<lambda>x. set_key x \<noteq> set_key s) (xs @ s # ys) = s # ys"
  using assms by (induction xs) auto

lemma sim_list_next:
  assumes "sets_wf S" and "drop n (sim_from S params) = s # later"
  shows "sim_from S (params\<lparr>liStartRecordName := rName s, liStartRecordType := rType s,
           liStartRecordIdentifier := None\<rparr>) = s # later"
proof -
  have "suffix (drop n (sim_from S params)) S"
    using suffix_drop suffix_dropWhile suffix_order.trans
    by (metis (no_types, lifting) option.case_eq_if sim_from_def suffix_order.refl)
  then obtain xs where S: "S = xs @ s # later" using assms(2) by (auto simp: suffix_def)
  with assms(1) obtain m where "rName s = Some m" by (auto simp: sets_wf_def)
  with dropWhile_key_split [of xs s later] assms(1) S show ?thesis
    by (simp add: sim_from_def sets_wf_def set_key_def ToString_def)
qed

lemma sim_world_simps [simp]:
  "simSets (sim_tick w) = simSets w" "sim_ok (sim_tick w) = sim_ok w" "sim_listed (sim_tick w) = sim_listed w"
  by (simp_all add: sim_tick_def sim_ok_def sim_listed_def)

lemma sim_change_upsert:
  assumes "sim_ok w" and "route53_storable r" and "sim_change zid Upsert (change_set r) w = (err, w')"
  shows "sim_ok w' \<and> (\<forall>k. k \<noteq> rkey r \<longrightarrow> lookup_set (simSets w') k = lookup_set (simSets w) k)
    \<and> (err = None \<longrightarrow> lookup_set (simSets w') (rkey r) = Some (change_set r))"
proof -
  have "rName (change_set r) \<noteq> None" "rType (change_set r) \<noteq> []"
    using assms(2) by (auto simp: change_set_def route53_storable_def)
  with assms show ?thesis
    by (auto simp: sim_change_def sim_ok_def sets_wf_sim_upsert lookup_sim_upsert split: if_splits)
qed

lemma sim_change_delete:
  assumes "sim_ok w" and "sim_change zid Delete (change_set r) w = (err, w')"
  shows "sim_ok w' \<and> (\<forall>k. k \<noteq> rkey r \<longrightarrow> lookup_set (simSets w') k = lookup_set (simSets w) k)
    \<and> (err = None \<longrightarrow> lookup_set (simSets w') (rkey r) = None)"
  using assms
  by (auto simp: sim_change_def sim_ok_def sets_wf_filter lookup_set_filter split: if_splits)

lemma sim_list_page:
  assumes "sim_ok w" and "0 < liMaxItems params" and "sim_list params w = (Inr page, w')"
  shows "if lpIsTruncated page
     then lpResourceRecordSets page \<noteq> []
       \<and> sim_listed w params = lpResourceRecordSets page @ sim_listed w (next_page page params)
     else sim_listed w params = lpResourceRecordSets page"
proof (cases "drop (nat (liMaxItems params)) (sim_from (simSets w) params)")
  case (Cons s later)
  from assms(3) Cons have page: "lpIsTruncated page" "next_page page params = params\<lparr>liStartRecordName := rName s,
      liStartRecordType := rType s, liStartRecordIdentifier := None\<rparr>"
    "lpResourceRecordSets page = take (nat (liMaxItems params)) (sim_from (simSets w) params)"
    by (auto simp: sim_list_def Let_def next_page_def split: if_splits)
  have "sim_from (simSets w) (next_page page params) = s # later"
    using sim_list_next [OF _ Cons] assms(1) page by (simp add: sim_ok_def)
  then have "sim_listed w params = lpResourceRecordSets page @ sim_listed w (next_page page params)"
    using Cons page by (metis append_take_drop_id sim_listed_def)
  moreover have "lpResourceRecordSets page \<noteq> []" using page(3) Cons assms(2) by auto
  ultimately show ?thesis using page(1) by simp
qed (use assms(3) in \<open>auto simp: sim_list_def sim_listed_def Let_def split: if_splits\<close>)

interpretation sim: route53_service "simulated z" zid sim_ok simSets sim_listed for z zid
proof (unfold_locales, goal_cases)
  case (1 w)
  then show ?case by (simp add: sim_ok_def)
next
  case (2 w)
  then show ?case by (simp add: sim_listed_def sim_from_def first_page_def)
next
  case (3 w params res w')
  then show ?case by (auto simp: simulated_def sim_list_def Let_def split: if_splits)
next
  case (4 w params page w')
  then show ?case using sim_list_page [of w params page w'] by (simp add: simulated_def)
next
  case (5 w r err w')
  then show ?case using sim_change_upsert [of w r zid err w'] by (simp add: simulated_def)
next
  case (6 w r w')
  then show ?case using sim_change_upsert [of w r zid None w'] by (simp add: simulated_def)
next
  case (7 w r err w')
  then show ?case using sim_change_delete [of w zid r err w'] by (simp add: simulated_def)
next
  case (8 w r w')
  then show ?case using sim_change_delete [of w zid r None w'] by (simp add: simulated_def)
qed

text \<open>Without faults it is also reliable.\<close>

definition sim_values :: "rr_set \<Rightarrow> bool" where
  "sim_values s = (set_record s \<noteq> None \<longrightarrow> rValues s \<noteq> [] \<and> None \<notin> set (rValues s))"

definition sim_reliable :: "sim_world \<Rightarrow> bool" where
  "sim_reliable w = (sim_ok w \<and> simFaults w = [] \<and> list_all sim_values (simSets w))"

lemma sim_reliable_calls:
  assumes "sim_reliable w"
  shows "\<not> sim_faulty w" and "sim_tick w = w" and "sim_ok w"
  using assms by (cases w; simp add: sim_reliable_def sim_faulty_def sim_tick_def)+

lemma sim_reliable_upsert:
  assumes "sim_reliable w" and "route53_storable r" and "d_records r \<noteq> []"
    and "sim_change zid Upsert (change_set r) w = (err, w')"
  shows "sim_reliable w'"
proof -
  have "sim_values (change_set r)" using assms(3) by (auto simp: sim_values_def change_set_def change_values_def)
  moreover have "set (sim_upsert (change_set r) S) \<subseteq> insert (change_set r) (set S)" for S by (induction S) auto
  ultimately show ?thesis
    using sim_change_upsert [OF sim_reliable_calls(3) [OF assms(1)] assms(2,4)] assms(1,4) sim_reliable_calls(1,2) [OF assms(1)]
    by (fastforce simp: sim_reliable_def sim_change_def list_all_iff)
qed

lemma sim_reliable_delete:
  assumes "sim_reliable w" and "sim_change zid Delete (change_set r) w = (err, w')"
  shows "sim_reliable w'"
  using sim_change_delete [OF sim_reliable_calls(3) [OF assms(1)] assms(2)] assms sim_reliable_calls(1,2) [OF assms(1)]
  by (auto simp: sim_reliable_def sim_change_def list_all_iff split: if_splits)

interpretation quiet: reliable_route53 "simulated z" zid sim_reliable simSets sim_listed "\<lambda>_. True" for z zid
proof (unfold_locales, goal_cases)
  case (1 w)
  then show ?case using sim.sets_ok sim_reliable_calls(3) by blast
next
  case (2 w)
  then show ?case using sim.list_first sim_reliable_calls(3) by blast
next
  case (3 w params res w')
  then show ?case by (auto simp: simulated_def sim_list_def sim_reliable_calls Let_def split: if_splits)
next
  case (4 w params page w')
  then show ?case using sim.list_page [OF sim_reliable_calls(3) [OF 4(1)]] by blast
next
  case (5 w r err w')
  then show ?case
    using sim_reliable_upsert [of w r zid err w'] sim_change_upsert [OF sim_reliable_calls(3), of w r zid err w']
    by (simp add: simulated_def)
next
  case (6 w r w')
  then show ?case using sim_change_upsert [OF sim_reliable_calls(3), of w r zid None w'] by (simp add: simulated_def)
next
  case (7 w r err w')
  then show ?case
    using sim_reliable_delete [of w zid r err w'] sim_change_delete [OF sim_reliable_calls(3), of w zid r err w']
    by (simp add: simulated_def)
next
  case (8 w r w')
  then show ?case using sim_change_delete [OF sim_reliable_calls(3), of w zid r None w'] by (simp add: simulated_def)
next
  case (9 w params)
  have "rName (hd xs) \<noteq> None \<and> rType (hd xs) \<noteq> []" if "xs \<noteq> []" "set xs \<subseteq> set (simSets w)" for xs
    using sim.sets_ok [OF sim_reliable_calls(3) [OF 9(1)]] subsetD [OF that(2) hd_in_set [OF that(1)]]
    unfolding sets_wf_def list_all_iff by blast
  moreover have "set (drop n (sim_from (simSets w) params)) \<subseteq> set (simSets w)" for n
    by (auto simp: sim_from_def dest!: in_set_dropD set_dropWhileD split: option.splits)
  ultimately show ?case
    using 9 by (simp add: simulated_def sim_list_def sim_reliable_calls Let_def)
next
  case (10 w r)
  then show ?case by (simp add: simulated_def sim_change_def sim_reliable_calls)
next
  case (11 w r)
  then show ?case by (simp add: simulated_def sim_change_def sim_reliable_calls)
next
  case (12 w s)
  then show ?case by (auto simp: sim_reliable_def sim_values_def list_all_iff)
qed

end
