(* ===== verification/Example_Desired.thy ===== *)
theory Example_Desired
  imports Sync_Correct
begin

text \<open>
  A small set of desired records, for the concrete runs of the properties: the state RRSet and two
  names under the root domain \<open>ex.com.\<close>
\<close>

definition ex_cfg :: config where
  "ex_cfg = \<lparr>RootDomainName = ''ex.com.'', TTL = 300, PlatformURL = ''http://p'', PlatformAccessKey = ''a'',
     PlatformSecretKey = ''s'', NameTemplate = defaultNameTemplate, MetadataURL = [], HealthAddress = []\<rparr>"

definition ex_state_name :: string where
  "ex_state_name = StateFqdn ''u1'' ''ex.com.''"

definition ex_rec :: "string \<Rightarrow> string list \<Rightarrow> string \<Rightarrow> dns_record" where
  "ex_rec n vs t = \<lparr>d_fqdn = n, d_records = vs, d_type = t, d_ttl = 300\<rparr>"

definition ex_desired :: "metadata_dns_record gomap" where
  "ex_desired =
     [(ex_state_name, \<lparr>m_service = [], m_stack = [],
         m_dns = StateRecord ex_state_name 300 [''web.s.e.ex.com.'', ''api.s.e.ex.com.'']\<rparr>),
      (''web.s.e.ex.com.'', \<lparr>m_service = ''web'', m_stack = ''s'',
         m_dns = ex_rec ''web.s.e.ex.com.'' [''10.0.0.1'', ''10.0.0.2''] ''A''\<rparr>),
      (''api.s.e.ex.com.'', \<lparr>m_service = ''api'', m_stack = ''s'',
         m_dns = ex_rec ''api.s.e.ex.com.'' [''10.0.0.3''] ''A''\<rparr>)]"

lemma ex_closed: "closed_state ex_state_name ex_desired"
  by code_simp

lemma ex_state_name_eq: "StateFqdn ''u1'' (RootDomainName ex_cfg) = ex_state_name"
  by (simp add: ex_cfg_def ex_state_name_def)

text \<open>They can be stored by a provider that takes these names and values.\<close>

lemma ex_desired_okI:
  assumes "list_all (\<lambda>(k, v). storable (m_dns v)) ex_desired"
  shows "desired_ok storable ex_state_name ex_desired"
proof -
  have "desired_ok (\<lambda>_. True) ex_state_name ex_desired" by code_simp
  with assms show ?thesis by (fastforce simp: desired_ok_def list_all_iff)
qed

end
