(* ===== verification/Example_Zone.thy ===== *)
theory Example_Zone
  imports Route53_Correct Example_Desired
begin

text \<open>
  A small hosted zone on the simulated service, for the concrete runs of the properties: one
  record of somebody else's, one that has to go, one that changes, and the state RRSet.
\<close>

definition ex_zone :: hosted_zone where
  "ex_zone = \<lparr>hzId = Some ''Z1'', hzName = Some ''ex.com.''\<rparr>"

definition ex_world :: sim_world where
  "ex_world =
     \<lparr>simSets = [change_set (ex_rec ''mail.ex.com.'' [''10.9.9.9''] ''A''),
        change_set (ex_rec ''old.s.e.ex.com.'' [''10.0.0.7''] ''A''),
        change_set (ex_rec ''web.s.e.ex.com.'' [''10.0.0.8''] ''A''),
        change_set (ex_rec ex_state_name [''old.s.e.ex.com.'', ''web.s.e.ex.com.''] ''TXT'')],
      simFaults = []\<rparr>"

definition ex_state :: "(string, sim_world) route53" where
  "ex_state = \<lparr>client = simulated ex_zone, hostedZoneId = ''Z1'', route53MaxRetries = 3, world = ex_world\<rparr>"

definition ex_sdk :: "(string, sim_world, unit) aws_sdk" where
  "ex_sdk = \<lparr>sdkLoadDefaultConfig = (\<lambda>_. Inr ()), sdkNewFromConfig = (\<lambda>_ _. simulated ex_zone),
     sdkParseURL = (\<lambda>_. None)\<rparr>"

definition ex_provider :: "(string route53_error, (string, sim_world) route53) provider" where
  "ex_provider = route53_provider ex_sdk (\<lambda>_. []) 5"

definition ex_run :: "(string route53_error sync_error + metadata_dns_record list) \<times> (string, sim_world) route53" where
  "ex_run = UpdateProviderDnsRecords ex_provider ''u1'' ex_cfg ex_desired ex_state"

text \<open>The same zone behind a service that fails at the third call.\<close>

definition ex_failing_state :: "(string, sim_world) route53" where
  "ex_failing_state = ex_state\<lparr>world := ex_world\<lparr>simFaults := [False, False, True]\<rparr>\<rparr>"

definition ex_failing_run :: "(string route53_error sync_error + metadata_dns_record list) \<times> (string, sim_world) route53" where
  "ex_failing_run = UpdateProviderDnsRecords ex_provider ''u1'' ex_cfg ex_desired ex_failing_state"

text \<open>A zone from before the state RRSet, and its upgrade.\<close>

definition ex_legacy_state :: "(string, sim_world) route53" where
  "ex_legacy_state = ex_state\<lparr>world := \<lparr>simSets = [change_set (ex_rec ''mail.ex.com.'' [''10.9.9.9''] ''A''),
     change_set (ex_rec ''web.s.e.ex.com.'' [''10.0.0.8''] ''A'')], simFaults = []\<rparr>\<rparr>"

definition ex_upgrade :: "string route53_error upgrade_error option \<times> (string, sim_world) route53" where
  "ex_upgrade = EnsureUpgradeToStateRRSet ex_provider ''e'' ''u1'' ex_cfg ex_legacy_state"

lemma ex_run_ok: "\<exists>updated. ex_run = (Inr updated, snd ex_run)"
proof -
  have "isl (fst ex_run) = False" by code_simp
  then show ?thesis by (metis isl_def sum.exhaust prod.collapse)
qed

lemma ex_inv: "route53_inv (simulated ex_zone) ''Z1'' sim_ok ex_state"
proof -
  have "sim_ok ex_world" by code_simp
  then show ?thesis by (simp add: route53_inv_def ex_state_def)
qed

lemma ex_state_name_free: "route53_zone simSets ex_state (ex_state_name, ''A'') = None"
  by code_simp

lemma ex_desired_ok: "desired_ok route53_storable ex_state_name ex_desired"
  by code_simp

lemmas ex_facts = ex_inv ex_state_name_free ex_desired_ok ex_closed ex_state_name_eq

end
