(* ===== verification/Metadata_Types.thy ===== *)
theory Metadata_Types
  imports Prelude
begin

text \<open>
  The data of the metadata service (src/internal/metadata/types.go), with the fields of the Go
  structs. A Go \<open>interface{}\<close> value that JSON decodes into is a \<open>json\<close>; numbers keep their
  text. A pointer is an option, a nil slice or map the empty list. The zero values are the ones
  a Go variable starts with.
\<close>

datatype json =
    JNull
  | JBool bool
  | JNumber string
  | JString string
  | JArray "json list"
  | JObject "(string \<times> json) list"

record HealthCheck =
  hc_HealthyThreshold :: int
  hc_Interval :: int
  hc_Port :: int
  hc_RequestLine :: string
  hc_ResponseTimeout :: int
  hc_UnhealthyThreshold :: int

record PortRule =
  pr_SourcePort :: int
  pr_Protocol :: string
  pr_Path :: string
  pr_Hostname :: string
  pr_Service :: string
  pr_TargetPort :: int
  pr_Priority :: int
  pr_BackendName :: string
  pr_Selector :: string
  pr_Container :: string

record LBStickinessPolicy =
  sp_Name :: string
  sp_Cookie :: string
  sp_Domain :: string
  sp_Indirect :: bool
  sp_Nocache :: bool
  sp_Postonly :: bool
  sp_Mode :: string

record LBConfig =
  lb_Certs :: "string list"
  lb_DefaultCert :: string
  lb_PortRules :: "PortRule list"
  lb_Config :: string
  lb_StickinessPolicy :: LBStickinessPolicy

record Container =
  ct_Name :: string
  ct_PrimaryIp :: string
  ct_PrimaryMacAddress :: string
  ct_Ips :: "string list"
  ct_Ports :: "string list"
  ct_ServiceName :: string
  ct_ServiceIndex :: string
  ct_StackName :: string
  ct_Labels :: "string gomap"
  ct_CreateIndex :: int
  ct_HostUUID :: string
  ct_UUID :: string
  ct_State :: string
  ct_HealthState :: string
  ct_ExternalId :: string
  ct_StartCount :: int
  ct_MemoryReservation :: int
  ct_MilliCPUReservation :: int
  ct_Dns :: "string list"
  ct_DnsSearch :: "string list"
  ct_HealthCheckHosts :: "string list"
  ct_NetworkFromContainerUUID :: string
  ct_NetworkUUID :: string
  ct_Links :: "string gomap"
  ct_System :: bool
  ct_EnvironmentUUID :: string
  ct_HealthCheck :: HealthCheck

record Service =
  sv_Scale :: int
  sv_Name :: string
  sv_StackName :: string
  sv_StackUUID :: string
  sv_Kind :: string
  sv_Hostname :: string
  sv_Vip :: string
  sv_CreateIndex :: int
  sv_UUID :: string
  sv_ExternalIps :: "string list"
  sv_Sidekicks :: "string list"
  sv_Containers :: "Container list"
  sv_Ports :: "string list"
  sv_Labels :: "string gomap"
  sv_Links :: "string gomap"
  sv_Metadata :: "json gomap"
  sv_Token :: string
  sv_Fqdn :: string
  sv_HealthCheck :: HealthCheck
  sv_PrimaryServiceName :: string
  sv_LBConfig :: LBConfig
  sv_EnvironmentUUID :: string
  sv_State :: string
  sv_System :: bool

record Stack =
  st_EnvironmentName :: string
  st_EnvironmentUUID :: string
  st_Name :: string
  st_UUID :: string
  st_Services :: "Service list"
  st_System :: bool

record Host =
  ho_Name :: string
  ho_AgentIP :: string
  ho_HostId :: int
  ho_Labels :: "string gomap"
  ho_UUID :: string
  ho_Hostname :: string
  ho_Memory :: int
  ho_MilliCPU :: int
  ho_LocalStorageMb :: int
  ho_EnvironmentUUID :: string

record NetworkPolicyRuleBetween =
  nb_Selector :: string
  nb_GroupBy :: string

record NetworkPolicyRuleMember =
  nm_Selector :: string

record NetworkPolicyRule =
  np_From :: "NetworkPolicyRuleMember option"
  np_To :: "NetworkPolicyRuleMember option"
  np_Ports :: "string list"
  np_Within :: string
  np_Between :: "NetworkPolicyRuleBetween option"
  np_Action :: string

record Network =
  nw_Name :: string
  nw_UUID :: string
  nw_Metadata :: "json gomap"
  nw_HostPorts :: bool
  nw_Default :: bool
  nw_Policy :: "NetworkPolicyRule list"
  nw_DefaultPolicyAction :: string

subsection \<open>Zero values\<close>

definition zero_HealthCheck :: HealthCheck where
  "zero_HealthCheck = \<lparr>hc_HealthyThreshold = 0, hc_Interval = 0, hc_Port = 0, hc_RequestLine = [],
     hc_ResponseTimeout = 0, hc_UnhealthyThreshold = 0\<rparr>"

definition zero_LBConfig :: LBConfig where
  "zero_LBConfig = \<lparr>lb_Certs = [], lb_DefaultCert = [], lb_PortRules = [], lb_Config = [],
     lb_StickinessPolicy = \<lparr>sp_Name = [], sp_Cookie = [], sp_Domain = [], sp_Indirect = False,
       sp_Nocache = False, sp_Postonly = False, sp_Mode = []\<rparr>\<rparr>"

definition zero_Container :: Container where
  "zero_Container = \<lparr>ct_Name = [], ct_PrimaryIp = [], ct_PrimaryMacAddress = [], ct_Ips = [],
     ct_Ports = [], ct_ServiceName = [], ct_ServiceIndex = [], ct_StackName = [], ct_Labels = [],
     ct_CreateIndex = 0, ct_HostUUID = [], ct_UUID = [], ct_State = [], ct_HealthState = [],
     ct_ExternalId = [], ct_StartCount = 0, ct_MemoryReservation = 0, ct_MilliCPUReservation = 0,
     ct_Dns = [], ct_DnsSearch = [], ct_HealthCheckHosts = [], ct_NetworkFromContainerUUID = [],
     ct_NetworkUUID = [], ct_Links = [], ct_System = False, ct_EnvironmentUUID = [],
     ct_HealthCheck = zero_HealthCheck\<rparr>"

definition zero_Service :: Service where
  "zero_Service = \<lparr>sv_Scale = 0, sv_Name = [], sv_StackName = [], sv_StackUUID = [], sv_Kind = [],
     sv_Hostname = [], sv_Vip = [], sv_CreateIndex = 0, sv_UUID = [], sv_ExternalIps = [],
     sv_Sidekicks = [], sv_Containers = [], sv_Ports = [], sv_Labels = [], sv_Links = [],
     sv_Metadata = [], sv_Token = [], sv_Fqdn = [], sv_HealthCheck = zero_HealthCheck,
     sv_PrimaryServiceName = [], sv_LBConfig = zero_LBConfig, sv_EnvironmentUUID = [],
     sv_State = [], sv_System = False\<rparr>"

definition zero_Stack :: Stack where
  "zero_Stack = \<lparr>st_EnvironmentName = [], st_EnvironmentUUID = [], st_Name = [], st_UUID = [],
     st_Services = [], st_System = False\<rparr>"

definition zero_Host :: Host where
  "zero_Host = \<lparr>ho_Name = [], ho_AgentIP = [], ho_HostId = 0, ho_Labels = [], ho_UUID = [],
     ho_Hostname = [], ho_Memory = 0, ho_MilliCPU = 0, ho_LocalStorageMb = 0, ho_EnvironmentUUID = []\<rparr>"

end
