(* ===== verification/Metadata_Client.thy ===== *)
theory Metadata_Client
  imports Metadata_Types Net_URL
begin

text \<open>
  The client of the metadata service (src/internal/metadata/metadata.go and utils.go). The HTTP
  transport is a record of functions over a world \<open>'w\<close>; a response body is the bytes the stream
  delivers and the error that ends it, if any. \<open>encoding/json\<close> is a record of decoders, one per
  type, and \<open>url.Parse\<close> is an argument. \<open>time.Sleep\<close> is a change of the world. The Go interface
  \<open>Client\<close> is the record \<open>md_client\<close>; its two change listeners \<open>OnChange\<close> and
  \<open>OnChangeWithError\<close>, which the program does not call, are in \<open>Change_Listener\<close>.

  The lemmas describe every outcome of a request, bound the size of a body that is accepted, and
  count the attempts of the connection test.
\<close>

subsection \<open>Requests\<close>

record http_request =
  rq_method :: string
  rq_url :: string
  rq_header :: "(string \<times> string) list"

record 'e http_response =
  rs_status :: int
  rs_body :: string
  rs_body_error :: "'e option"

record ('e, 'w) http =
  h_NewRequest :: "string \<Rightarrow> string \<Rightarrow> 'e option"
  h_Do :: "http_request \<Rightarrow> 'w \<Rightarrow> ('e + 'e http_response) \<times> 'w"
  h_Sleep :: "nat \<Rightarrow> 'w \<Rightarrow> 'w"

record 'e decoders =
  dec_Stack :: "string \<Rightarrow> 'e + Stack"
  dec_Stacks :: "string \<Rightarrow> 'e + Stack list"
  dec_Service :: "string \<Rightarrow> 'e + Service"
  dec_Services :: "string \<Rightarrow> 'e + Service list"
  dec_Container :: "string \<Rightarrow> 'e + Container"
  dec_Containers :: "string \<Rightarrow> 'e + Container list"
  dec_Host :: "string \<Rightarrow> 'e + Host"
  dec_Hosts :: "string \<Rightarrow> 'e + Host list"
  dec_Networks :: "string \<Rightarrow> 'e + Network list"

datatype 'e md_error =
    CreateRequest 'e
  | RequestFailed 'e
  | BadStatus int string
  | ReadFailed 'e
  | ResponseTooLarge
  | Unmarshal 'e
  | HostNotFound string
  | URLParse
  | URLScheme
  | URLHost
  | URLExtras

record client =
  cl_url :: string
  cl_ip :: string

definition maxResponseSize :: nat where "maxResponseSize = 4 * 2 ^ 20"

definition newClient :: "string \<Rightarrow> string \<Rightarrow> client" where
  "newClient url ip = \<lparr>cl_url = TrimRight url ''/'', cl_ip = ip\<rparr>"

definition NewClient :: "string \<Rightarrow> client" where
  "NewClient url = newClient url []"

text \<open>\<open>io.ReadAll\<close> of an \<open>io.LimitReader\<close>: at most \<open>n\<close> bytes; the error of the stream is seen only
  when it comes before the limit.\<close>

definition ReadAll_limited :: "nat \<Rightarrow> 'e http_response \<Rightarrow> 'e + string" where
  "ReadAll_limited n resp =
     (if n \<le> length (rs_body resp) then Inr (take n (rs_body resp))
      else case rs_body_error resp of Some e \<Rightarrow> Inl e | None \<Rightarrow> Inr (rs_body resp))"

definition metadata_request :: "client \<Rightarrow> string \<Rightarrow> http_request" where
  "metadata_request m path =
     \<lparr>rq_method = ''GET'', rq_url = cl_url m @ path,
      rq_header = (''Accept'', ''application/json'')
        # (if cl_ip m \<noteq> [] then [(''X-Forwarded-For'', cl_ip m)] else [])\<rparr>"

definition SendRequest :: "('e, 'w) http \<Rightarrow> client \<Rightarrow> string \<Rightarrow> 'w \<Rightarrow> ('e md_error + string) \<times> 'w" where
  "SendRequest h m path w =
     (case h_NewRequest h ''GET'' (cl_url m @ path) of
        Some e \<Rightarrow> (Inl (CreateRequest e), w)
      | None \<Rightarrow>
          (case h_Do h (metadata_request m path) w of
             (Inl e, w') \<Rightarrow> (Inl (RequestFailed e), w')
           | (Inr resp, w') \<Rightarrow>
               if rs_status resp \<noteq> 200 then (Inl (BadStatus (rs_status resp) path), w')
               else (case ReadAll_limited (maxResponseSize + 1) resp of
                       Inl e \<Rightarrow> (Inl (ReadFailed e), w')
                     | Inr body \<Rightarrow>
                         if maxResponseSize < length body then (Inl ResponseTooLarge, w')
                         else (Inr body, w'))))"

subsection \<open>Queries\<close>

text \<open>A request whose body is decoded; most getters have this shape.\<close>

definition get_decoded ::
    "('e, 'w) http \<Rightarrow> client \<Rightarrow> string \<Rightarrow> (string \<Rightarrow> 'e + 'a) \<Rightarrow> 'w \<Rightarrow> ('e md_error + 'a) \<times> 'w" where
  "get_decoded h m path dec w =
     (case SendRequest h m path w of
        (Inl e, w') \<Rightarrow> (Inl e, w')
      | (Inr resp, w') \<Rightarrow>
          (case dec resp of Inl e \<Rightarrow> (Inl (Unmarshal e), w') | Inr x \<Rightarrow> (Inr x, w')))"

definition GetVersion where
  "GetVersion h m w = SendRequest h m ''/version'' w"

definition GetSelfHost where
  "GetSelfHost h dec m w = get_decoded h m ''/self/host'' (dec_Host dec) w"

definition GetSelfContainer where
  "GetSelfContainer h dec m w = get_decoded h m ''/self/container'' (dec_Container dec) w"

definition GetSelfServiceByName where
  "GetSelfServiceByName h dec m name w =
     get_decoded h m (''/self/stack/services/'' @ name) (dec_Service dec) w"

definition GetSelfService where
  "GetSelfService h dec m w = get_decoded h m ''/self/service'' (dec_Service dec) w"

definition GetSelfStack where
  "GetSelfStack h dec m w = get_decoded h m ''/self/stack'' (dec_Stack dec) w"

definition GetServices where
  "GetServices h dec m w = get_decoded h m ''/services'' (dec_Services dec) w"

definition GetStacks where
  "GetStacks h dec m w = get_decoded h m ''/stacks'' (dec_Stacks dec) w"

definition GetContainers where
  "GetContainers h dec m w = get_decoded h m ''/containers'' (dec_Containers dec) w"

definition GetServiceContainers ::
    "('e, 'w) http \<Rightarrow> 'e decoders \<Rightarrow> client \<Rightarrow> string \<Rightarrow> string \<Rightarrow> 'w
       \<Rightarrow> ('e md_error + Container list) \<times> 'w" where
  "GetServiceContainers h dec m serviceName stackName w =
     (case GetContainers h dec m w of
        (Inl e, w') \<Rightarrow> (Inl e, w')
      | (Inr containers, w') \<Rightarrow>
          (Inr (filter (\<lambda>c. ct_StackName c = stackName \<and> ct_ServiceName c = serviceName) containers), w'))"

definition GetHosts where
  "GetHosts h dec m w = get_decoded h m ''/hosts'' (dec_Hosts dec) w"

definition GetHost ::
    "('e, 'w) http \<Rightarrow> 'e decoders \<Rightarrow> client \<Rightarrow> string \<Rightarrow> 'w \<Rightarrow> ('e md_error + Host) \<times> 'w" where
  "GetHost h dec m uuid w =
     (case GetHosts h dec m w of
        (Inl e, w') \<Rightarrow> (Inl e, w')
      | (Inr hosts, w') \<Rightarrow>
          (case find (\<lambda>host. ho_UUID host = uuid) hosts of
             Some host \<Rightarrow> (Inr host, w')
           | None \<Rightarrow> (Inl (HostNotFound uuid), w')))"

definition GetNetworks where
  "GetNetworks h dec m w = get_decoded h m ''/networks'' (dec_Networks dec) w"

subsection \<open>The interface\<close>

record ('e, 'w) md_client =
  mc_SendRequest :: "string \<Rightarrow> 'w \<Rightarrow> ('e + string) \<times> 'w"
  mc_GetVersion :: "'w \<Rightarrow> ('e + string) \<times> 'w"
  mc_GetSelfHost :: "'w \<Rightarrow> ('e + Host) \<times> 'w"
  mc_GetSelfContainer :: "'w \<Rightarrow> ('e + Container) \<times> 'w"
  mc_GetSelfServiceByName :: "string \<Rightarrow> 'w \<Rightarrow> ('e + Service) \<times> 'w"
  mc_GetSelfService :: "'w \<Rightarrow> ('e + Service) \<times> 'w"
  mc_GetSelfStack :: "'w \<Rightarrow> ('e + Stack) \<times> 'w"
  mc_GetServices :: "'w \<Rightarrow> ('e + Service list) \<times> 'w"
  mc_GetStacks :: "'w \<Rightarrow> ('e + Stack list) \<times> 'w"
  mc_GetContainers :: "'w \<Rightarrow> ('e + Container list) \<times> 'w"
  mc_GetServiceContainers :: "string \<Rightarrow> string \<Rightarrow> 'w \<Rightarrow> ('e + Container list) \<times> 'w"
  mc_GetHosts :: "'w \<Rightarrow> ('e + Host list) \<times> 'w"
  mc_GetHost :: "string \<Rightarrow> 'w \<Rightarrow> ('e + Host) \<times> 'w"
  mc_GetNetworks :: "'w \<Rightarrow> ('e + Network list) \<times> 'w"

definition client_methods :: "('e, 'w) http \<Rightarrow> 'e decoders \<Rightarrow> client \<Rightarrow> ('e md_error, 'w) md_client" where
  "client_methods h dec m =
     \<lparr>mc_SendRequest = SendRequest h m, mc_GetVersion = GetVersion h m,
      mc_GetSelfHost = GetSelfHost h dec m, mc_GetSelfContainer = GetSelfContainer h dec m,
      mc_GetSelfServiceByName = GetSelfServiceByName h dec m, mc_GetSelfService = GetSelfService h dec m,
      mc_GetSelfStack = GetSelfStack h dec m, mc_GetServices = GetServices h dec m,
      mc_GetStacks = GetStacks h dec m, mc_GetContainers = GetContainers h dec m,
      mc_GetServiceContainers = GetServiceContainers h dec m, mc_GetHosts = GetHosts h dec m,
      mc_GetHost = GetHost h dec m, mc_GetNetworks = GetNetworks h dec m\<rparr>"

subsection \<open>Connecting\<close>

text \<open>The retry loop: attempt \<open>k\<close> waits \<open>2 ^ k\<close> seconds after a failure, as long as that is below
  20 seconds. The error is nil before the first attempt.\<close>

function testConnection_loop ::
    "('e, 'w) md_client \<Rightarrow> (nat \<Rightarrow> 'w \<Rightarrow> 'w) \<Rightarrow> nat \<Rightarrow> 'e option \<Rightarrow> 'w \<Rightarrow> 'e option \<times> 'w" where
  "testConnection_loop c sleep k err w =
     (if 2 ^ k < (20 :: nat)
      then case mc_GetVersion c w of
             (Inl e, w') \<Rightarrow> testConnection_loop c sleep (Suc k) (Some e) (sleep (2 ^ k) w')
           | (Inr _, w') \<Rightarrow> (None, w')
      else (err, w))"
  by pat_completeness auto
termination
proof (relation "measure (\<lambda>(c, sleep, k, err, w). 20 - k)", goal_cases)
  case (2 c sleep k)
  have "k < (2 :: nat) ^ k" by (rule less_exp)
  with 2(1) have "k < 20" by linarith
  then show ?case by simp
qed simp

declare testConnection_loop.simps [simp del]

definition testConnection ::
    "('e, 'w) md_client \<Rightarrow> (nat \<Rightarrow> 'w \<Rightarrow> 'w) \<Rightarrow> 'w \<Rightarrow> 'e option \<times> 'w" where
  "testConnection c sleep w = testConnection_loop c sleep 0 None w"

definition validateBaseURL :: "(string \<Rightarrow> url option) \<Rightarrow> string \<Rightarrow> 'e md_error option" where
  "validateBaseURL parse rawURL =
     (case parse rawURL of
        None \<Rightarrow> Some URLParse
      | Some parsed \<Rightarrow>
          if uScheme parsed \<noteq> ''http'' \<and> uScheme parsed \<noteq> ''https'' then Some URLScheme
          else if uHost parsed = [] then Some URLHost
          else if uHasUser parsed \<or> uRawQuery parsed \<noteq> [] \<or> uFragment parsed \<noteq> [] then Some URLExtras
          else None)"

definition NewClientWithIPAndWait ::
    "('e, 'w) http \<Rightarrow> 'e decoders \<Rightarrow> (string \<Rightarrow> url option) \<Rightarrow> string \<Rightarrow> string \<Rightarrow> 'w
       \<Rightarrow> ('e md_error + client) \<times> 'w" where
  "NewClientWithIPAndWait h dec parse url ip w =
     (case validateBaseURL parse url of
        Some e \<Rightarrow> (Inl e, w)
      | None \<Rightarrow>
          (let c = newClient url ip in
           case testConnection (client_methods h dec c) (h_Sleep h) w of
             (Some e, w') \<Rightarrow> (Inl e, w')
           | (None, w') \<Rightarrow> (Inr c, w')))"

definition NewClientAndWait ::
    "('e, 'w) http \<Rightarrow> 'e decoders \<Rightarrow> (string \<Rightarrow> url option) \<Rightarrow> string \<Rightarrow> 'w
       \<Rightarrow> ('e md_error + client) \<times> 'w" where
  "NewClientAndWait h dec parse url w =
     (case validateBaseURL parse url of
        Some e \<Rightarrow> (Inl e, w)
      | None \<Rightarrow>
          (let c = newClient url [] in
           case testConnection (client_methods h dec c) (h_Sleep h) w of
             (Some e, w') \<Rightarrow> (Inl e, w')
           | (None, w') \<Rightarrow> (Inr c, w')))"

subsection \<open>Lemmas: requests\<close>

lemma ReadAll_limited_Inr:
  "ReadAll_limited n resp = Inr body \<Longrightarrow>
     length body \<le> n \<and> (length body < n \<longrightarrow> body = rs_body resp \<and> rs_body_error resp = None)"
  by (auto simp: ReadAll_limited_def split: if_splits option.splits)

lemma SendRequest_Inr:
  "SendRequest h m path w = (Inr body, w') \<longleftrightarrow>
     h_NewRequest h ''GET'' (cl_url m @ path) = None
     \<and> length body \<le> maxResponseSize
     \<and> (\<exists>resp. h_Do h (metadata_request m path) w = (Inr resp, w')
          \<and> rs_status resp = 200 \<and> rs_body resp = body \<and> rs_body_error resp = None)"
  (is "?lhs \<longleftrightarrow> ?rhs")
proof
  assume ?lhs
  then obtain resp where resp: "h_NewRequest h ''GET'' (cl_url m @ path) = None"
    "h_Do h (metadata_request m path) w = (Inr resp, w')" "rs_status resp = 200"
    "ReadAll_limited (maxResponseSize + 1) resp = Inr body" "length body \<le> maxResponseSize"
    by (auto simp: SendRequest_def split: option.splits prod.splits sum.splits if_splits)
  with ReadAll_limited_Inr [OF resp(4)] show ?rhs by auto
next
  assume ?rhs
  then show ?lhs by (auto simp: SendRequest_def ReadAll_limited_def)
qed

lemma SendRequest_too_large:
  assumes "h_NewRequest h ''GET'' (cl_url m @ path) = None"
    and "h_Do h (metadata_request m path) w = (Inr resp, w')" and "rs_status resp = 200"
    and "maxResponseSize < length (rs_body resp)"
  shows "SendRequest h m path w = (Inl ResponseTooLarge, w')"
  using assms by (simp add: SendRequest_def ReadAll_limited_def)

lemma GetHost_Inr:
  assumes "GetHost h dec m uuid w = (Inr host, w')"
  shows "ho_UUID host = uuid \<and> (\<exists>hosts. GetHosts h dec m w = (Inr hosts, w') \<and> host \<in> set hosts)"
  using assms
  by (auto simp: GetHost_def find_Some_iff split: prod.splits sum.splits option.splits)

lemma validateBaseURL_None:
  "validateBaseURL parse rawURL = None \<longleftrightarrow> (\<exists>u. parse rawURL = Some u \<and> service_url u)"
  by (auto simp: validateBaseURL_def service_url_def split: option.splits)

subsection \<open>Lemmas: retries\<close>

text \<open>A bounded retry with exponential waiting, the specification of the two retry loops: \<open>n\<close>
  attempts, the first waiting \<open>2 ^ k\<close> seconds after a failure.\<close>

fun retry ::
    "nat \<Rightarrow> ('w \<Rightarrow> ('e + 'a) \<times> 'w) \<Rightarrow> (nat \<Rightarrow> 'w \<Rightarrow> 'w) \<Rightarrow> nat \<Rightarrow> 'e option \<Rightarrow> 'w
       \<Rightarrow> ('e option + 'a) \<times> 'w" where
  "retry 0 attempt sleep k err w = (Inl err, w)"
| "retry (Suc n) attempt sleep k err w =
     (case attempt w of
        (Inl e, w') \<Rightarrow> retry n attempt sleep (Suc k) (Some e) (sleep (2 ^ k) w')
      | (Inr x, w') \<Rightarrow> (Inr x, w'))"

text \<open>The world before attempt \<open>j\<close>, when all earlier ones have failed.\<close>

fun before_attempt ::
    "('w \<Rightarrow> ('e + 'a) \<times> 'w) \<Rightarrow> (nat \<Rightarrow> 'w \<Rightarrow> 'w) \<Rightarrow> nat \<Rightarrow> 'w \<Rightarrow> nat \<Rightarrow> 'w" where
  "before_attempt attempt sleep k w 0 = w"
| "before_attempt attempt sleep k w (Suc j) =
     sleep (2 ^ (k + j)) (snd (attempt (before_attempt attempt sleep k w j)))"

lemma before_attempt_shift:
  "before_attempt attempt sleep (Suc k) (sleep (2 ^ k) (snd (attempt w))) j
     = before_attempt attempt sleep k w (Suc j)"
  by (induction j) simp_all

lemma retry_Inr:
  "retry n attempt sleep k err w = (Inr x, w') \<longleftrightarrow>
     (\<exists>j < n. attempt (before_attempt attempt sleep k w j) = (Inr x, w')
        \<and> (\<forall>i < j. isl (fst (attempt (before_attempt attempt sleep k w i)))))"
proof (induction n arbitrary: k err w)
  case (Suc n)
  let ?B = "before_attempt attempt sleep"
  have shift: "(\<exists>j < Suc n. P j) \<longleftrightarrow> P 0 \<or> (\<exists>j < n. P (Suc j))" for P
    using less_Suc_eq_0_disj by auto
  have all: "(\<forall>i < Suc j. P i) \<longleftrightarrow> P 0 \<and> (\<forall>i < j. P (Suc i))" for P and j :: nat
    using less_Suc_eq_0_disj by auto
  show ?case
  proof (cases "attempt w")
    case (Pair r w1)
    show ?thesis
    proof (cases r)
      case (Inl e)
      with Pair Suc.IH [of "Suc k" "Some e" "sleep (2 ^ k) w1"] before_attempt_shift [of attempt sleep k w]
      show ?thesis unfolding shift all by simp
    next
      case (Inr y)
      with Pair show ?thesis unfolding shift all by auto
    qed
  qed
qed simp

lemma retry_Inl:
  assumes "retry n attempt sleep k err w = (Inl e, w')"
  shows "w' = before_attempt attempt sleep k w n
    \<and> (\<forall>i < n. isl (fst (attempt (before_attempt attempt sleep k w i))))"
  using assms
proof (induction n arbitrary: k err w)
  case (Suc n)
  have all: "(\<forall>i < Suc n. P i) \<longleftrightarrow> P 0 \<and> (\<forall>i < n. P (Suc i))" for P
    using less_Suc_eq_0_disj by auto
  obtain x w1 where at: "attempt w = (Inl x, w1)"
    and rest: "retry n attempt sleep (Suc k) (Some x) (sleep (2 ^ k) w1) = (Inl e, w')"
    using Suc.prems by (auto split: prod.splits sum.splits)
  with Suc.IH [OF rest] before_attempt_shift [of attempt sleep k w] show ?case
    unfolding all by simp
qed simp

lemma testConnection_retry:
  "testConnection c sleep w =
     (case retry 5 (mc_GetVersion c) sleep 0 None w of
        (Inl err, w') \<Rightarrow> (err, w')
      | (Inr _, w') \<Rightarrow> (None, w'))"
proof -
  have "testConnection_loop c sleep 5 err w = (err, w)" for err w
    by (simp add: testConnection_loop.simps)
  then show ?thesis
    by (simp add: testConnection_def numeral_eq_Suc testConnection_loop.simps [of _ _ "Suc _"]
        testConnection_loop.simps [of _ _ 0] split: prod.splits sum.splits)
qed

end
