(* ===== verification/Net_IP.thy ===== *)
theory Net_IP
  imports Config
begin

text \<open>
  \<open>net.ParseIP\<close> of the Go standard library, which decides whether an address is published:
  \<open>ParseIP s\<close> is true when the result is not nil. \<open>parseIPv4Fields\<close> and \<open>parseIPv6\<close> follow
  the two loops of \<open>net/netip\<close>. The lemmas show that the accepted IPv4 addresses are exactly
  four decimal octets without leading zeros, and that the octets read are the ones printed.
\<close>

subsection \<open>Definitions\<close>

text \<open>The octets, the value and the number of digits of the current one. A dot at the start or
  after another dot is a dot with no digit before it.\<close>

fun parseIPv4Fields :: "string \<Rightarrow> nat list \<Rightarrow> nat \<Rightarrow> nat \<Rightarrow> nat list option" where
  "parseIPv4Fields [] octets val digLen = (if length octets < 3 then None else Some (octets @ [val]))"
| "parseIPv4Fields (c # cs) octets val digLen =
     (if digit_char c
      then if digLen = 1 \<and> val = 0 then None
           else let v = val * 10 + nat (digit_value c)
                in if 255 < v then None else parseIPv4Fields cs octets v (digLen + 1)
      else if c = CHR ''.''
      then if digLen = 0 \<or> cs = [] then None
           else if length octets = 3 then None
           else parseIPv4Fields cs (octets @ [val]) 0 0
      else None)"

definition parseIPv4 :: "string \<Rightarrow> nat list option" where
  "parseIPv4 s = parseIPv4Fields s [] 0 0"

definition hex_char :: "char \<Rightarrow> bool" where
  "hex_char c = (digit_char c \<or> CHR ''a'' \<le> c \<and> c \<le> CHR ''f'' \<or> CHR ''A'' \<le> c \<and> c \<le> CHR ''F'')"

text \<open>The loop over the groups of 16 bits: \<open>i\<close> bytes are read, \<open>ellipsis\<close> is where \<open>::\<close> was
  seen. A group of one to four hexadecimal digits is below 65536. \<open>None\<close> is an error, otherwise
  the result is the final \<open>i\<close>, \<open>ellipsis\<close> and the rest of the text.\<close>

function parseIPv6_loop :: "string \<Rightarrow> nat \<Rightarrow> nat option \<Rightarrow> (nat \<times> nat option \<times> string) option" where
  "parseIPv6_loop s i ellipsis =
     (if 16 \<le> i then Some (i, ellipsis, s)
      else let digits = takeWhile hex_char s; rest = dropWhile hex_char s in
        if digits = [] \<or> 4 < length digits then None
        else if rest \<noteq> [] \<and> hd rest = CHR ''.''
        then if ellipsis = None \<and> i \<noteq> 12 then None
             else if 16 < i + 4 then None
             else if parseIPv4 s = None then None
             else Some (i + 4, ellipsis, [])
        else if rest = [] then Some (i + 2, ellipsis, [])
        else if hd rest \<noteq> CHR '':'' \<or> tl rest = [] then None
        else if hd (tl rest) = CHR '':''
        then if ellipsis \<noteq> None then None
             else if tl (tl rest) = [] then Some (i + 2, Some (i + 2), [])
             else parseIPv6_loop (tl (tl rest)) (i + 2) (Some (i + 2))
        else parseIPv6_loop (tl rest) (i + 2) ellipsis)"
  by pat_completeness auto
termination by (relation "measure (\<lambda>(s, i, e). 16 - i)") auto

declare parseIPv6_loop.simps [simp del]

text \<open>An address without a zone; \<open>ParseIP\<close> refuses one with a zone, empty or not.\<close>

definition parseIPv6 :: "string \<Rightarrow> bool" where
  "parseIPv6 s =
     (if s = ''::'' then True
      else let leading = HasPrefix s ''::'';
               start = (if leading then drop 2 s else s)
        in case parseIPv6_loop start 0 (if leading then Some 0 else None) of
             None \<Rightarrow> False
           | Some (i, ellipsis, rest) \<Rightarrow>
               rest = [] \<and> (if i < 16 then ellipsis \<noteq> None else ellipsis = None))"

definition ParseIP :: "string \<Rightarrow> bool" where
  "ParseIP s =
     (case dropWhile (\<lambda>c. c \<notin> set ''.:%'') s of
        [] \<Rightarrow> False
      | c # _ \<Rightarrow>
          if c = CHR ''.'' then parseIPv4 s \<noteq> None
          else if c = CHR '':'' then CHR ''%'' \<notin> set s \<and> parseIPv6 s
          else False)"

subsection \<open>Lemmas: IPv4\<close>

definition dotted :: "nat list \<Rightarrow> string" where
  "dotted octets = Join (map decimal octets) ''.''"

lemma digit_step: "digit_char c \<Longrightarrow> c = char_of (48 + nat (digit_value c)) \<and> nat (digit_value c) < 10"
  by (auto simp: digit_char_def digit_value_def less_eq_char_def nat_diff_distrib)

lemma decimal_digit: "d < 10 \<Longrightarrow> decimal d = [char_of (48 + d)]"
  by (simp add: decimal.simps)

lemma decimal_snoc: "0 < n \<Longrightarrow> d < 10 \<Longrightarrow> decimal (n * 10 + d) = decimal n @ [char_of (48 + d)]"
  by (simp add: decimal.simps [of "n * 10 + d"])

lemma dotted_Cons: "os \<noteq> [] \<Longrightarrow> dotted (n # os) = decimal n @ ''.'' @ dotted os"
  by (cases os) (simp_all add: dotted_def)

lemma parseIPv4Fields_digit:
  assumes "d < 10" and "\<not> (dl = 1 \<and> val = 0)" and "val * 10 + d \<le> 255"
  shows "parseIPv4Fields (char_of (48 + d) # cs) octets val dl
    = parseIPv4Fields cs octets (val * 10 + d) (dl + 1)"
proof -
  have "digit_char (char_of (48 + d))" and "digit_value (char_of (48 + d)) = int d"
    using digit_char_of [OF assms(1)] by simp_all
  with assms show ?thesis by (auto simp: Let_def)
qed

lemma parseIPv4Fields_decimal:
  "n \<le> 255 \<Longrightarrow> parseIPv4Fields (decimal n @ cs) octets 0 0 = parseIPv4Fields cs octets n (length (decimal n))"
proof (induction n arbitrary: cs rule: decimal.induct)
  case (1 n)
  show ?case
  proof (cases "n < 10")
    case True
    with parseIPv4Fields_digit [of n 0 0 cs octets] 1 show ?thesis by (simp add: decimal_digit)
  next
    case False
    then have dec: "decimal n = decimal (n div 10) @ [char_of (48 + n mod 10)]"
      by (simp add: decimal.simps [of n])
    have "n div 10 \<le> 255" using 1(2) by simp
    with 1(1) [OF False, of "char_of (48 + n mod 10) # cs"] show ?thesis
      using parseIPv4Fields_digit [of "n mod 10" "length (decimal (n div 10))" "n div 10" cs octets] 1(2) False
      by (simp add: dec div_greater_zero_iff)
  qed
qed

lemma parseIPv4Fields_dot:
  assumes "cs \<noteq> []" and "length octets < 3" and "0 < dl"
  shows "parseIPv4Fields (CHR ''.'' # cs) octets val dl = parseIPv4Fields cs (octets @ [val]) 0 0"
  using assms by (auto simp: digit_char_def less_eq_char_def)

lemma length_decimal: "0 < length (decimal n)"
  using decimal_digits [of n] by simp

lemma dotted_neq_Nil:
  assumes "os \<noteq> []"
  shows "dotted os \<noteq> []"
proof -
  obtain n os' where "os = n # os'" using assms by (cases os) auto
  then show ?thesis using length_decimal [of n]
    by (cases os') (simp_all add: dotted_def)
qed

lemma parse_dotted:
  assumes "os \<noteq> []" and "length octets + length os = 4" and "list_all (\<lambda>n. n \<le> 255) os"
  shows "parseIPv4Fields (dotted os) octets 0 0 = Some (octets @ os)"
  using assms
proof (induction os arbitrary: octets)
  case (Cons n os)
  show ?case
  proof (cases "os = []")
    case True
    with Cons.prems parseIPv4Fields_decimal [of n "[]" octets] show ?thesis by (simp add: dotted_def)
  next
    case False
    then have "dotted os \<noteq> []" by (rule dotted_neq_Nil)
    moreover have "length octets < 3" using Cons.prems(2) False by (cases os) auto
    ultimately show ?thesis
      using Cons parseIPv4Fields_decimal [of n "''.'' @ dotted os" octets] False length_decimal [of n]
      by (simp add: dotted_Cons parseIPv4Fields_dot del: parseIPv4Fields.simps)
  qed
qed simp

lemma parse_dotted_inv:
  assumes "parseIPv4Fields s octets val dl = Some os"
    and "if dl = 0 then val = 0 \<and> pre = [] \<and> s \<noteq> [] else pre = decimal val \<and> dl = length pre \<and> val \<le> 255"
  shows "\<exists>rest. os = octets @ rest \<and> rest \<noteq> [] \<and> pre @ s = dotted rest \<and> list_all (\<lambda>n. n \<le> 255) rest
    \<and> (length octets \<le> 3 \<longrightarrow> length os = 4)"
  using assms
proof (induction s octets val dl arbitrary: pre rule: parseIPv4Fields.induct)
  case (1 octets val dl)
  then show ?case by (auto simp: dotted_def split: if_splits)
next
  case (2 c cs octets val dl)
  show ?case
  proof (cases "digit_char c")
    case True
    note d = digit_step [OF True]
    let ?v = "val * 10 + nat (digit_value c)"
    from 2(3) True have v: "?v \<le> 255" "\<not> (dl = 1 \<and> val = 0)"
      "parseIPv4Fields cs octets ?v (dl + 1) = Some os" by (auto simp: Let_def split: if_splits)
    have dec: "decimal ?v = pre @ [c]"
    proof (cases "dl = 0")
      case True
      with 2(4) d decimal_digit [of "nat (digit_value c)"] show ?thesis by simp
    next
      case False
      with 2(4) have pre: "pre = decimal val" "dl = length (decimal val)" by simp_all
      have "0 < val" using v(2) pre(2) decimal_digit [of 0] by (cases val) simp_all
      with decimal_snoc [of val "nat (digit_value c)"] d pre(1) show ?thesis by simp
    qed
    have "dl + 1 = length (pre @ [c])" using 2(4) by (simp split: if_splits)
    with 2(1) [OF True v(2) refl _ v(3), of "pre @ [c]"] v(1) dec show ?thesis by simp
  next
    case False
    with 2(3) have c: "c = CHR ''.''" "dl \<noteq> 0" "cs \<noteq> []" "length octets \<noteq> 3"
      "parseIPv4Fields cs (octets @ [val]) 0 0 = Some os" by (auto split: if_splits)
    from 2(2) [OF False c(1) _ c(4,5), of "[]"] c obtain rest where
      "os = octets @ val # rest" "rest \<noteq> []" "cs = dotted rest" "list_all (\<lambda>n. n \<le> 255) rest"
      "length octets \<le> 2 \<longrightarrow> length os = 4" by auto
    then show ?thesis using 2(4) c by (intro exI [of _ "val # rest"]) (auto simp: dotted_Cons)
  qed
qed

lemma parseIPv4_iff:
  "parseIPv4 s = Some os \<longleftrightarrow> length os = 4 \<and> list_all (\<lambda>n. n \<le> 255) os \<and> s = dotted os"
proof
  assume r: "parseIPv4 s = Some os"
  then have "s \<noteq> []" by (auto simp: parseIPv4_def)
  with parse_dotted_inv [of s "[]" 0 0 os "[]"] r
  show "length os = 4 \<and> list_all (\<lambda>n. n \<le> 255) os \<and> s = dotted os" by (auto simp: parseIPv4_def)
next
  assume "length os = 4 \<and> list_all (\<lambda>n. n \<le> 255) os \<and> s = dotted os"
  then show "parseIPv4 s = Some os" using parse_dotted [of os "[]"] by (cases os) (auto simp: parseIPv4_def)
qed

text \<open>An IPv6 address is accepted as well; the records it ends up in are of type A.\<close>

lemma ParseIP_accepts_IPv6: "ParseIP ''2001:db8::1''"
  by code_simp

end
