(* ===== verification/Metadata.thy ===== *)
theory Metadata
  imports Metadata_Client Config Net_IP
begin

text \<open>
  The desired records (src/metadata/metadata.go). \<open>getContainersDnsRecords\<close> walks over the
  services and containers of the environment and collects, for every container that is to be
  published, its address under the name its template gives, and the state RRSet that lists the
  names. The maps that the loop fills are the fields of \<open>gather\<close>; the client of the metadata
  service is the interface \<open>md_client\<close>, with the world it reads. A template that cannot be used
  ends the process, so the loop returns \<open>abort + gather\<close>.
\<close>

subsection \<open>Labels, states and ports\<close>

definition servicePolicyLabel :: string where
  "servicePolicyLabel = ''io.pasturestack.service.external_dns''"
definition hostPolicyLabel :: string where
  "hostPolicyLabel = ''io.pasturestack.host.external_dns''"
definition hostExternalIPLabel :: string where
  "hostExternalIPLabel = ''io.pasturestack.host.external_dns_ip''"
definition serviceNameTemplateLabel :: string where
  "serviceNameTemplateLabel = ''io.pasturestack.service.external_dns_name_template''"
definition legacyServicePolicyLabel :: string where
  "legacyServicePolicyLabel = ''io.rancher.service.external_dns''"
definition legacyHostPolicyLabel :: string where
  "legacyHostPolicyLabel = ''io.rancher.host.external_dns''"
definition legacyHostExternalIPLabel :: string where
  "legacyHostExternalIPLabel = ''io.rancher.host.external_dns_ip''"
definition legacyServiceNameTemplateLabel :: string where
  "legacyServiceNameTemplateLabel = ''io.rancher.service.external_dns_name_template''"

definition compatibilityLabelValue :: "string gomap \<Rightarrow> string \<Rightarrow> string \<Rightarrow> string option" where
  "compatibilityLabelValue labels primary legacy =
     (case map_of labels primary of Some v \<Rightarrow> Some v | None \<Rightarrow> map_of labels legacy)"

definition containerStateOK :: "Container \<Rightarrow> bool" where
  "containerStateOK container =
     (if ct_State container \<noteq> ''running'' then False
      else ct_HealthState container \<in> {''healthy'', ''updating-healthy'', []})"

definition parsePortToIP :: "string \<Rightarrow> string option" where
  "parsePortToIP port =
     (case Split port (CHR '':'') of
        [ip, _, _] \<Rightarrow> if ip \<noteq> [] \<and> ip \<noteq> ''0.0.0.0'' then Some ip else None
      | _ \<Rightarrow> None)"

subsection \<open>One record\<close>

definition addToDnsEntries ::
    "config \<Rightarrow> string \<Rightarrow> string \<Rightarrow> string \<Rightarrow> string \<Rightarrow> metadata_dns_record gomap \<Rightarrow> metadata_dns_record gomap" where
  "addToDnsEntries cfg fqdn ip service stack dnsEntries =
     (let entry = (\<lambda>records. \<lparr>m_service = service, m_stack = stack,
            m_dns = \<lparr>d_fqdn = fqdn, d_records = records, d_type = ''A'', d_ttl = TTL cfg\<rparr>\<rparr>)
      in case map_of dnsEntries fqdn of
           None \<Rightarrow> AList.update fqdn (entry [ip]) dnsEntries
         | Some old \<Rightarrow>
             if ip \<in> set (d_records (m_dns old)) then dnsEntries
             else AList.update fqdn (entry (d_records (m_dns old) @ [ip])) dnsEntries)"

subsection \<open>The loop\<close>

record gather =
  g_dnsEntries :: "metadata_dns_record gomap"
  g_ourFqdns :: goset
  g_hostMeta :: "Host gomap"

text \<open>The host of a container, from the map of the hosts already read or from the service.\<close>

definition lookupHost ::
    "('e, 'w) md_client \<Rightarrow> string \<Rightarrow> Host gomap \<Rightarrow> 'w \<Rightarrow> Host option \<times> Host gomap \<times> 'w" where
  "lookupHost c hostUUID hostMeta w =
     (case map_of hostMeta hostUUID of
        Some host \<Rightarrow> (Some host, hostMeta, w)
      | None \<Rightarrow>
          (case mc_GetHost c hostUUID w of
             (Inl _, w') \<Rightarrow> (None, hostMeta, w')
           | (Inr host, w') \<Rightarrow> (Some host, AList.update hostUUID host hostMeta, w')))"

definition hostDisabled :: "Host \<Rightarrow> bool" where
  "hostDisabled host =
     (compatibilityLabelValue (ho_Labels host) hostPolicyLabel legacyHostPolicyLabel = Some ''false'')"

definition externalIP :: "Host \<Rightarrow> Container \<Rightarrow> string" where
  "externalIP host container =
     (let ip = (case compatibilityLabelValue (ho_Labels host) hostExternalIPLabel legacyHostExternalIPLabel of
                  Some ip \<Rightarrow> if ip \<noteq> [] then Some ip else None
                | None \<Rightarrow> None);
          ip = (case ip of
                  Some ip \<Rightarrow> ip
                | None \<Rightarrow>
                    if ct_Ports container \<noteq> []
                    then (case parsePortToIP (hd (ct_Ports container)) of Some ip \<Rightarrow> ip | None \<Rightarrow> [])
                    else [])
      in if ip = [] then ho_AgentIP host else ip)"

definition nameTemplate :: "config \<Rightarrow> Service \<Rightarrow> string" where
  "nameTemplate cfg service =
     (case compatibilityLabelValue (sv_Labels service) serviceNameTemplateLabel legacyServiceNameTemplateLabel of
        Some t \<Rightarrow> t
      | None \<Rightarrow> NameTemplate cfg)"

definition container_step ::
    "('e, 'w) md_client \<Rightarrow> config \<Rightarrow> string \<Rightarrow> Service \<Rightarrow> string \<Rightarrow> Container \<Rightarrow> gather \<Rightarrow> 'w
       \<Rightarrow> abort + gather \<times> 'w" where
  "container_step c cfg environmentName service policy container g w =
     (if (ct_Ports container = [] \<and> policy \<noteq> ''always'') \<or> \<not> containerStateOK container then Inr (g, w)
      else if ct_HostUUID container = [] then Inr (g, w)
      else case lookupHost c (ct_HostUUID container) (g_hostMeta g) w of
        (None, hostMeta, w') \<Rightarrow> Inr (g\<lparr>g_hostMeta := hostMeta\<rparr>, w')
      | (Some host, hostMeta, w') \<Rightarrow>
          (let g' = g\<lparr>g_hostMeta := hostMeta\<rparr> in
           if hostDisabled host then Inr (g', w')
           else if \<not> ParseIP (externalIP host container) then Inr (g', w')
           else case FqdnFromTemplate (nameTemplate cfg service) (ct_ServiceName container)
                       (ct_StackName container) environmentName (RootDomainName cfg) of
             Inl a \<Rightarrow> Inl a
           | Inr fqdn \<Rightarrow>
               Inr (g'\<lparr>g_dnsEntries := addToDnsEntries cfg fqdn (externalIP host container)
                          (ct_ServiceName container) (ct_StackName container) (g_dnsEntries g'),
                       g_ourFqdns := goset_add fqdn (g_ourFqdns g')\<rparr>, w')))"

fun containers_loop ::
    "('e, 'w) md_client \<Rightarrow> config \<Rightarrow> string \<Rightarrow> Service \<Rightarrow> string \<Rightarrow> Container list \<Rightarrow> gather \<Rightarrow> 'w
       \<Rightarrow> abort + gather \<times> 'w" where
  "containers_loop c cfg environmentName service policy [] g w = Inr (g, w)"
| "containers_loop c cfg environmentName service policy (container # rest) g w =
     (case container_step c cfg environmentName service policy container g w of
        Inl a \<Rightarrow> Inl a
      | Inr (g', w') \<Rightarrow> containers_loop c cfg environmentName service policy rest g' w')"

definition service_step ::
    "('e, 'w) md_client \<Rightarrow> config \<Rightarrow> string \<Rightarrow> Service \<Rightarrow> gather \<Rightarrow> 'w \<Rightarrow> abort + gather \<times> 'w" where
  "service_step c cfg environmentName service g w =
     (let label = compatibilityLabelValue (sv_Labels service) servicePolicyLabel legacyServicePolicyLabel in
      if label = Some ''never'' then Inr (g, w)
      else if sv_Kind service \<noteq> ''service'' \<and> sv_Kind service \<noteq> ''loadBalancerService'' then Inr (g, w)
      else containers_loop c cfg environmentName service
             (case label of None \<Rightarrow> ''auto'' | Some policy \<Rightarrow> policy) (sv_Containers service) g w)"

fun services_loop ::
    "('e, 'w) md_client \<Rightarrow> config \<Rightarrow> string \<Rightarrow> Service list \<Rightarrow> gather \<Rightarrow> 'w \<Rightarrow> abort + gather \<times> 'w" where
  "services_loop c cfg environmentName [] g w = Inr (g, w)"
| "services_loop c cfg environmentName (service # rest) g w =
     (case service_step c cfg environmentName service g w of
        Inl a \<Rightarrow> Inl a
      | Inr (g', w') \<Rightarrow> services_loop c cfg environmentName rest g' w')"

text \<open>The last part: the state RRSet, unless there is nothing to list.\<close>

definition addStateRecord :: "config \<Rightarrow> string \<Rightarrow> gather \<Rightarrow> metadata_dns_record gomap" where
  "addStateRecord cfg environmentUUID g =
     (if g_ourFqdns g = [] then g_dnsEntries g
      else let stateFqdn = StateFqdn environmentUUID (RootDomainName cfg) in
        AList.update stateFqdn
          \<lparr>m_service = [], m_stack = [], m_dns = StateRecord stateFqdn (TTL cfg) (g_ourFqdns g)\<rparr>
          (g_dnsEntries g))"

record ('e, 'w) MetadataClient =
  mm_MetadataClient :: "('e, 'w) md_client"
  mm_EnvironmentName :: string
  mm_EnvironmentUUID :: string

definition getContainersDnsRecords ::
    "config \<Rightarrow> ('e, 'w) MetadataClient \<Rightarrow> metadata_dns_record gomap \<Rightarrow> 'w
       \<Rightarrow> abort + ('e + metadata_dns_record gomap) \<times> 'w" where
  "getContainersDnsRecords cfg m dnsEntries w =
     (case mc_GetServices (mm_MetadataClient m) w of
        (Inl e, w') \<Rightarrow> Inr (Inl e, w')
      | (Inr services, w') \<Rightarrow>
          (case services_loop (mm_MetadataClient m) cfg (mm_EnvironmentName m) services
                  \<lparr>g_dnsEntries = dnsEntries, g_ourFqdns = [], g_hostMeta = []\<rparr> w' of
             Inl a \<Rightarrow> Inl a
           | Inr (g, w'') \<Rightarrow> Inr (Inr (addStateRecord cfg (mm_EnvironmentUUID m) g), w'')))"

subsection \<open>The environment\<close>

function getEnvironment_loop ::
    "('e, 'w) md_client \<Rightarrow> (nat \<Rightarrow> 'w \<Rightarrow> 'w) \<Rightarrow> nat \<Rightarrow> 'e option \<Rightarrow> 'w
       \<Rightarrow> ('e option + string \<times> string) \<times> 'w" where
  "getEnvironment_loop c sleep k err w =
     (if 2 ^ k < (30 :: nat)
      then case mc_GetSelfStack c w of
             (Inl e, w') \<Rightarrow> getEnvironment_loop c sleep (Suc k) (Some e) (sleep (2 ^ k) w')
           | (Inr stack, w') \<Rightarrow> (Inr (st_EnvironmentName stack, st_EnvironmentUUID stack), w')
      else (Inl err, w))"
  by pat_completeness auto
termination
proof (relation "measure (\<lambda>(c, sleep, k, err, w). 30 - k)", goal_cases)
  case (2 c sleep k)
  have "k < (2 :: nat) ^ k" by (rule less_exp)
  with 2(1) have "k < 30" by linarith
  then show ?case by simp
qed simp

declare getEnvironment_loop.simps [simp del]

definition getEnvironment ::
    "('e, 'w) md_client \<Rightarrow> (nat \<Rightarrow> 'w \<Rightarrow> 'w) \<Rightarrow> 'w \<Rightarrow> ('e option + string \<times> string) \<times> 'w" where
  "getEnvironment c sleep w = getEnvironment_loop c sleep 0 None w"

definition updateEnvironmentName ::
    "(nat \<Rightarrow> 'w \<Rightarrow> 'w) \<Rightarrow> ('e, 'w) MetadataClient \<Rightarrow> 'w \<Rightarrow> 'e option option \<times> ('e, 'w) MetadataClient \<times> 'w" where
  "updateEnvironmentName sleep m w =
     (case getEnvironment (mm_MetadataClient m) sleep w of
        (Inl e, w') \<Rightarrow> (Some e, m, w')
      | (Inr (envName, _), w') \<Rightarrow> (None, m\<lparr>mm_EnvironmentName := envName\<rparr>, w'))"

datatype 'e records_error = EnvironmentError "'e option" | ServicesError 'e

definition GetMetadataDnsRecords ::
    "config \<Rightarrow> (nat \<Rightarrow> 'w \<Rightarrow> 'w) \<Rightarrow> ('e, 'w) MetadataClient \<Rightarrow> 'w
       \<Rightarrow> abort + ('e records_error + metadata_dns_record gomap) \<times> ('e, 'w) MetadataClient \<times> 'w" where
  "GetMetadataDnsRecords cfg sleep m w =
     (case updateEnvironmentName sleep m w of
        (Some e, m', w') \<Rightarrow> Inr (Inl (EnvironmentError e), m', w')
      | (None, m', w') \<Rightarrow>
          (case getContainersDnsRecords cfg m' [] w' of
             Inl a \<Rightarrow> Inl a
           | Inr (Inl e, w'') \<Rightarrow> Inr (Inl (ServicesError e), m', w'')
           | Inr (Inr dnsEntries, w'') \<Rightarrow> Inr (Inr dnsEntries, m', w'')))"

datatype 'e connect_error = ConfigureError "'e md_error" | StackInfoError "'e md_error option"

definition NewMetadataClient ::
    "('e, 'w) http \<Rightarrow> 'e decoders \<Rightarrow> (string \<Rightarrow> url option) \<Rightarrow> config \<Rightarrow> 'w
       \<Rightarrow> ('e connect_error + ('e md_error, 'w) MetadataClient) \<times> 'w" where
  "NewMetadataClient h dec parse cfg w =
     (case NewClientAndWait h dec parse (MetadataURL cfg) w of
        (Inl e, w') \<Rightarrow> (Inl (ConfigureError e), w')
      | (Inr c, w') \<Rightarrow>
          (let m = client_methods h dec c in
           case getEnvironment m (h_Sleep h) w' of
             (Inl e, w'') \<Rightarrow> (Inl (StackInfoError e), w'')
           | (Inr (envName, envUUID), w'') \<Rightarrow>
               (Inr \<lparr>mm_MetadataClient = m, mm_EnvironmentName = envName, mm_EnvironmentUUID = envUUID\<rparr>, w'')))"

end
