(* ===== verification/Example_Metadata.thy ===== *)
theory Example_Metadata
  imports Metadata
begin

text \<open>
  A metadata service with fixed answers, for the concrete runs of the properties: a service with
  three containers on two hosts, one of them without ports, and a service that is not published.
\<close>

text \<open>A metadata service whose answers depend on the request only.\<close>

definition pure_http :: "(http_request \<Rightarrow> 'e + 'e http_response) \<Rightarrow> ('e, 'w) http" where
  "pure_http answer = \<lparr>h_NewRequest = (\<lambda>_ _. None), h_Do = (\<lambda>rq w. (answer rq, w)), h_Sleep = (\<lambda>_ w. w)\<rparr>"

definition ex_config :: config where
  "ex_config = \<lparr>RootDomainName = ''ex.com.'', TTL = 300, PlatformURL = ''http://p'', PlatformAccessKey = ''a'',
     PlatformSecretKey = ''s'', NameTemplate = defaultNameTemplate, MetadataURL = ''http://md'',
     HealthAddress = []\<rparr>"

definition ex_hosts :: "Host list" where
  "ex_hosts =
     [zero_Host\<lparr>ho_UUID := ''h1'', ho_AgentIP := ''10.0.0.1''\<rparr>,
      zero_Host\<lparr>ho_UUID := ''h2'', ho_AgentIP := ''10.0.0.2'',
        ho_Labels := [(hostExternalIPLabel, ''192.0.2.7'')]\<rparr>]"

definition ex_container :: "string \<Rightarrow> string list \<Rightarrow> Container" where
  "ex_container h ports = zero_Container\<lparr>ct_ServiceName := ''web'', ct_StackName := ''s'',
     ct_HostUUID := h, ct_Ports := ports, ct_State := ''running'', ct_HealthState := ''healthy''\<rparr>"

definition ex_services :: "Service list" where
  "ex_services =
     [zero_Service\<lparr>sv_Name := ''web'', sv_Kind := ''service'',
        sv_Containers := [ex_container ''h1'' [''0.0.0.0:80:80''], ex_container ''h2'' [''80:80/tcp''],
          ex_container ''h1'' []]\<rparr>,
      zero_Service\<lparr>sv_Name := ''db'', sv_Kind := ''service'', sv_Labels := [(servicePolicyLabel, ''never'')],
        sv_Containers := [ex_container ''h1'' [''10.0.0.9:5432:5432'']]\<rparr>]"

definition ex_answer :: "http_request \<Rightarrow> string + string http_response" where
  "ex_answer rq =
     Inr \<lparr>rs_status = (if HasPrefix (rq_url rq) ''http://md/'' then 200 else 404),
          rs_body = TrimPrefix (rq_url rq) ''http://md'', rs_body_error = None\<rparr>"

definition ex_dec :: "string decoders" where
  "ex_dec = \<lparr>dec_Stack = (\<lambda>b. if b = ''/self/stack'' then Inr (zero_Stack\<lparr>st_EnvironmentName := ''e'',
       st_EnvironmentUUID := ''u1''\<rparr>) else Inl ''syntax''),
     dec_Stacks = (\<lambda>b. Inl ''syntax''), dec_Service = (\<lambda>b. Inl ''syntax''),
     dec_Services = (\<lambda>b. if b = ''/services'' then Inr ex_services else Inl ''syntax''),
     dec_Container = (\<lambda>b. Inl ''syntax''), dec_Containers = (\<lambda>b. Inl ''syntax''),
     dec_Host = (\<lambda>b. Inl ''syntax''),
     dec_Hosts = (\<lambda>b. if b = ''/hosts'' then Inr ex_hosts else Inl ''syntax''),
     dec_Networks = (\<lambda>b. Inl ''syntax'')\<rparr>"

definition ex_md :: "(string md_error, unit) md_client" where
  "ex_md = client_methods (pure_http ex_answer) ex_dec (newClient ''http://md/'' [])"

definition ex_client :: "(string md_error, unit) MetadataClient" where
  "ex_client = \<lparr>mm_MetadataClient = ex_md, mm_EnvironmentName = ''e'', mm_EnvironmentUUID = ''u1''\<rparr>"

definition ex_web :: metadata_dns_record where
  "ex_web = \<lparr>m_service = ''web'', m_stack = ''s'',
     m_dns = \<lparr>d_fqdn = ''web.s.e.ex.com.'', d_records = [''10.0.0.1'', ''192.0.2.7''], d_type = ''A'', d_ttl = 300\<rparr>\<rparr>"

definition ex_records :: "metadata_dns_record gomap" where
  "ex_records =
     [(''web.s.e.ex.com.'', ex_web),
      (''external-dns-u1.ex.com.'', \<lparr>m_service = [], m_stack = [],
         m_dns = StateRecord ''external-dns-u1.ex.com.'' 300 [''web.s.e.ex.com.'']\<rparr>)]"

definition ex_hostOf :: "string \<Rightarrow> string md_error + Host" where
  "ex_hostOf u = (case find (\<lambda>host. ho_UUID host = u) ex_hosts of Some h \<Rightarrow> Inr h | None \<Rightarrow> Inl (HostNotFound u))"

definition ex_stack :: Stack where
  "ex_stack = zero_Stack\<lparr>st_EnvironmentName := ''e'', st_EnvironmentUUID := ''u1''\<rparr>"

text \<open>The same client, with the answers in place of the requests.\<close>

definition ex_answers :: "(string md_error, unit) md_client" where
  "ex_answers = ex_md\<lparr>mc_GetServices := Pair (Inr ex_services), mc_GetHost := (\<lambda>u. Pair (ex_hostOf u)),
     mc_GetSelfStack := Pair (Inr ex_stack)\<rparr>"

subsection \<open>The runs\<close>

lemma small_body: "length b \<le> 1000 \<Longrightarrow> length b \<le> maxResponseSize \<and> \<not> maxResponseSize + 1 \<le> length b"
  by (simp add: maxResponseSize_def)

lemma ex_send:
  assumes "length path \<le> 1000" and "HasPrefix path ''/''"
  shows "SendRequest (pure_http ex_answer) (newClient ''http://md/'' []) path w = (Inr path, w)"
proof -
  have "TrimRight ''http://md/'' ''/'' = ''http://md''" by code_simp
  moreover have "HasPrefix (''http://md'' @ path) ''http://md/''"
    using assms(2) by (auto simp: HasPrefix_iff prefix_def)
  moreover have "TrimPrefix (''http://md'' @ path) ''http://md'' = path"
    by (rule TrimPrefix_append)
  ultimately show ?thesis
    using small_body [OF assms(1)]
    by (simp add: SendRequest_def pure_http_def ex_answer_def newClient_def metadata_request_def
        ReadAll_limited_def)
qed

lemma ex_get_services: "mc_GetServices ex_md w = (Inr ex_services, w)"
  by (simp add: ex_md_def client_methods_def GetServices_def get_decoded_def ex_send HasPrefix_def ex_dec_def)

lemma ex_get_stack: "mc_GetSelfStack ex_md w = (Inr ex_stack, w)"
  by (simp add: ex_stack_def ex_md_def client_methods_def GetSelfStack_def get_decoded_def ex_send HasPrefix_def ex_dec_def)

lemma ex_get_host: "mc_GetHost ex_md u w = (ex_hostOf u, w)"
  by (simp add: ex_md_def client_methods_def GetHost_def GetHosts_def get_decoded_def ex_send HasPrefix_def
      ex_dec_def ex_hostOf_def split: option.splits)

lemma ex_md_answers: "ex_md = ex_answers"
proof -
  have "mc_GetServices ex_md = Pair (Inr ex_services)" "mc_GetHost ex_md = (\<lambda>u. Pair (ex_hostOf u))"
    "mc_GetSelfStack ex_md = Pair (Inr ex_stack)"
    by (simp_all add: fun_eq_iff ex_get_services ex_get_host ex_get_stack)
  then show ?thesis by (simp add: ex_answers_def)
qed

lemma ex_containers_run: "getContainersDnsRecords ex_config ex_client [] () = Inr (Inr ex_records, ())"
proof -
  have "getContainersDnsRecords ex_config (ex_client\<lparr>mm_MetadataClient := ex_answers\<rparr>) [] () = Inr (Inr ex_records, ())"
    by code_simp
  then show ?thesis by (simp add: ex_client_def ex_md_answers)
qed

lemma ex_records_run: "GetMetadataDnsRecords ex_config (\<lambda>_ w. w) ex_client () = Inr (Inr ex_records, ex_client, ())"
proof -
  have "updateEnvironmentName (\<lambda>_ w. w) ex_client () = (None, ex_client, ())"
    by (simp add: updateEnvironmentName_def getEnvironment_def getEnvironment_loop.simps ex_client_def
        ex_get_stack ex_stack_def)
  then show ?thesis by (simp add: GetMetadataDnsRecords_def ex_containers_run)
qed

end
