(* ===== verification/Metadata_Correct.thy ===== *)
theory Metadata_Correct
  imports Example_Metadata Sync_Correct
begin

text \<open>
  What the metadata component promises. \<open>published\<close> is the specification of the desired
  records: the pairs of a name and an address, for the containers that are to be published, read
  off the services and a function from host identifiers to hosts. Over a client that answers
  consistently during one pass (\<open>metadata_snapshot\<close>), the loop with its map of hosts already
  read computes exactly these pairs; and whatever the client answers, the result is well formed:
  one A record per name, distinct valid addresses, the configured TTL, and a state RRSet that
  lists exactly the names.
\<close>

subsection \<open>Specification\<close>

definition service_label :: "Service \<Rightarrow> string option" where
  "service_label s = compatibilityLabelValue (sv_Labels s) servicePolicyLabel legacyServicePolicyLabel"

definition service_published :: "Service \<Rightarrow> bool" where
  "service_published s =
     (service_label s \<noteq> Some ''never'' \<and> sv_Kind s \<in> {''service'', ''loadBalancerService''})"

definition service_policy :: "Service \<Rightarrow> string" where
  "service_policy s = (case service_label s of None \<Rightarrow> ''auto'' | Some p \<Rightarrow> p)"

text \<open>The containers to look at, with their services.\<close>

definition items :: "Service list \<Rightarrow> (Service \<times> Container) list" where
  "items services =
     concat (map (\<lambda>s. if service_published s then map (Pair s) (sv_Containers s) else []) services)"

text \<open>The name and address of a container: \<open>None\<close> when it is skipped.\<close>

definition container_candidate :: "Service \<times> Container \<Rightarrow> bool" where
  "container_candidate x =
     (case x of (s, k) \<Rightarrow> (ct_Ports k \<noteq> [] \<or> service_policy s = ''always'')
        \<and> containerStateOK k \<and> ct_HostUUID k \<noteq> [])"

definition publish ::
    "config \<Rightarrow> string \<Rightarrow> (string \<Rightarrow> 'e + Host) \<Rightarrow> Service \<times> Container \<Rightarrow> (abort + string \<times> string) option" where
  "publish cfg environmentName hostOf x =
     (case x of (s, k) \<Rightarrow>
        if \<not> container_candidate x then None
        else case hostOf (ct_HostUUID k) of
          Inl _ \<Rightarrow> None
        | Inr host \<Rightarrow>
            if hostDisabled host \<or> \<not> ParseIP (externalIP host k) then None
            else Some (case FqdnFromTemplate (nameTemplate cfg s) (ct_ServiceName k) (ct_StackName k)
                         environmentName (RootDomainName cfg) of
                   Inl a \<Rightarrow> Inl a
                 | Inr fqdn \<Rightarrow> Inr (fqdn, externalIP host k)))"

definition published ::
    "config \<Rightarrow> string \<Rightarrow> (string \<Rightarrow> 'e + Host) \<Rightarrow> Service list \<Rightarrow> (string \<times> string) set" where
  "published cfg environmentName hostOf services =
     {p. Some (Inr p) \<in> set (map (publish cfg environmentName hostOf) (items services))}"

text \<open>The addresses a map of desired records has at a name.\<close>

definition entry_ips :: "metadata_dns_record gomap \<Rightarrow> string \<Rightarrow> string set" where
  "entry_ips m k = (case map_of m k of None \<Rightarrow> {} | Some v \<Rightarrow> set (d_records (m_dns v)))"

text \<open>A well-formed entry, and a well-formed state of the loop.\<close>

definition entry_ok :: "config \<Rightarrow> string \<Rightarrow> metadata_dns_record \<Rightarrow> bool" where
  "entry_ok cfg k v =
     (rkey (m_dns v) = (k, ''A'') \<and> d_ttl (m_dns v) = TTL cfg \<and> d_records (m_dns v) \<noteq> []
      \<and> distinct (d_records (m_dns v)) \<and> list_all ParseIP (d_records (m_dns v)))"

definition gather_ok :: "config \<Rightarrow> gather \<Rightarrow> bool" where
  "gather_ok cfg g =
     (gomap_wf (g_dnsEntries g) \<and> distinct (g_ourFqdns g)
      \<and> set (g_ourFqdns g) = dom (map_of (g_dnsEntries g))
      \<and> (\<forall>k v. map_of (g_dnsEntries g) k = Some v \<longrightarrow> entry_ok cfg k v))"

subsection \<open>One record\<close>

lemma entry_ips_add:
  "entry_ips (addToDnsEntries cfg f ip s t m) k =
     (if k = f then insert ip (entry_ips m f) else entry_ips m k)"
  by (auto simp: entry_ips_def addToDnsEntries_def Let_def gomap_lookup split: option.splits)

lemma add_lookup_other:
  "k \<noteq> f \<Longrightarrow> map_of (addToDnsEntries cfg f ip s t m) k = map_of m k"
  by (auto simp: addToDnsEntries_def Let_def gomap_lookup split: option.splits)

lemma add_dom: "dom (map_of (addToDnsEntries cfg f ip s t m)) = insert f (dom (map_of m))"
  by (auto simp: addToDnsEntries_def Let_def gomap_lookup split: option.splits if_splits)

lemma add_wf: "gomap_wf m \<Longrightarrow> gomap_wf (addToDnsEntries cfg f ip s t m)"
  by (simp add: addToDnsEntries_def Let_def split: option.splits)

lemma add_entry_ok:
  assumes "\<And>v. map_of m f = Some v \<Longrightarrow> entry_ok cfg f v" and "ParseIP ip"
    and "map_of (addToDnsEntries cfg f ip s t m) f = Some v"
  shows "entry_ok cfg f v"
  using assms by (auto simp: addToDnsEntries_def Let_def gomap_lookup entry_ok_def rkey_def
      split: option.splits if_splits)

lemma gather_ok_add:
  assumes "gather_ok cfg g" and "ParseIP ip"
  shows "gather_ok cfg (g\<lparr>g_dnsEntries := addToDnsEntries cfg f ip s t (g_dnsEntries g),
           g_ourFqdns := goset_add f (g_ourFqdns g)\<rparr>)"
proof -
  have "entry_ok cfg k v" if "map_of (addToDnsEntries cfg f ip s t (g_dnsEntries g)) k = Some v" for k v
    using that assms add_entry_ok [of "g_dnsEntries g" f cfg ip s t v]
    by (cases "k = f") (auto simp: gather_ok_def add_lookup_other)
  then show ?thesis using assms(1) by (simp add: gather_ok_def add_wf add_dom)
qed

subsection \<open>Every step keeps the state well formed\<close>

lemma container_step_ok:
  assumes "container_step c cfg env s p k g w = Inr (g', w')" and "gather_ok cfg g"
  shows "gather_ok cfg g'"
proof -
  have cache: "gather_ok cfg (g\<lparr>g_hostMeta := hm\<rparr>)" for hm using assms(2) by (simp add: gather_ok_def)
  show ?thesis
    using assms cache gather_ok_add [OF cache]
    by (auto simp: container_step_def Let_def split: if_splits prod.splits option.splits sum.splits)
qed

lemma containers_loop_ok:
  "containers_loop c cfg env s p ks g w = Inr (g', w') \<Longrightarrow> gather_ok cfg g \<Longrightarrow> gather_ok cfg g'"
  by (induction ks arbitrary: g w) (auto split: sum.splits dest: container_step_ok)

lemma services_loop_ok:
  "services_loop c cfg env ss g w = Inr (g', w') \<Longrightarrow> gather_ok cfg g \<Longrightarrow> gather_ok cfg g'"
proof (induction ss arbitrary: g w)
  case (Cons s ss)
  then show ?case
    by (auto simp: service_step_def Let_def split: sum.splits if_splits dest: containers_loop_ok)
qed simp

lemma gather_ok_Nil: "gather_ok cfg g \<Longrightarrow> g_ourFqdns g = [] \<longleftrightarrow> g_dnsEntries g = []"
  by (cases "g_dnsEntries g") (auto simp: gather_ok_def)

lemma gather_ok_empty: "gather_ok cfg \<lparr>g_dnsEntries = [], g_ourFqdns = [], g_hostMeta = hm\<rparr>"
  by (simp add: gather_ok_def)

text \<open>The final map: the entries of the loop, and the state RRSet over them.\<close>

lemma addStateRecord_lookup:
  "map_of (addStateRecord cfg u g) k =
     (if g_ourFqdns g \<noteq> [] \<and> k = StateFqdn u (RootDomainName cfg)
      then Some \<lparr>m_service = [], m_stack = [],
             m_dns = StateRecord (StateFqdn u (RootDomainName cfg)) (TTL cfg) (g_ourFqdns g)\<rparr>
      else map_of (g_dnsEntries g) k)"
  by (auto simp: addStateRecord_def Let_def gomap_lookup)

lemma addStateRecord_ok:
  assumes "gather_ok cfg g"
  shows "gomap_wf (addStateRecord cfg u g)
    \<and> (\<forall>k v. map_of (addStateRecord cfg u g) k = Some v \<longrightarrow>
         rkey (m_dns v) = managed_key (StateFqdn u (RootDomainName cfg)) k)
    \<and> closed_state (StateFqdn u (RootDomainName cfg)) (addStateRecord cfg u g)"
proof -
  let ?sf = "StateFqdn u (RootDomainName cfg)"
  have wf: "gomap_wf (addStateRecord cfg u g)"
    using assms by (simp add: addStateRecord_def gather_ok_def Let_def)
  have empty: "g_ourFqdns g = [] \<Longrightarrow> map_of (g_dnsEntries g) k = None" for k
    using assms by (auto simp: gather_ok_def)
  have key: "rkey (m_dns v) = managed_key ?sf k" if "map_of (addStateRecord cfg u g) k = Some v" for k v
    using that assms empty [of k] by (auto simp: addStateRecord_lookup gather_ok_def entry_ok_def
        managed_key_def rkey_def split: if_splits)
  have "closed_state ?sf (addStateRecord cfg u g)"
    using assms empty by (auto simp: closed_state_def addStateRecord_lookup gather_ok_def list_all_iff
        split: option.splits)
  with wf key show ?thesis by blast
qed

subsection \<open>The loop computes the specification\<close>

fun items_loop ::
    "('e, 'w) md_client \<Rightarrow> config \<Rightarrow> string \<Rightarrow> (Service \<times> Container) list \<Rightarrow> gather \<Rightarrow> 'w
       \<Rightarrow> abort + gather \<times> 'w" where
  "items_loop c cfg env [] g w = Inr (g, w)"
| "items_loop c cfg env ((s, k) # xs) g w =
     (case container_step c cfg env s (service_policy s) k g w of
        Inl a \<Rightarrow> Inl a
      | Inr (g', w') \<Rightarrow> items_loop c cfg env xs g' w')"

lemma items_loop_append:
  "items_loop c cfg env (xs @ ys) g w =
     (case items_loop c cfg env xs g w of Inl a \<Rightarrow> Inl a | Inr (g', w') \<Rightarrow> items_loop c cfg env ys g' w')"
  by (induction xs arbitrary: g w) (auto split: sum.splits prod.splits)

lemma containers_loop_items:
  "containers_loop c cfg env s (service_policy s) ks g w = items_loop c cfg env (map (Pair s) ks) g w"
  by (induction ks arbitrary: g w) (auto split: sum.splits prod.splits)

lemma service_step_items:
  "service_step c cfg env s g w =
     items_loop c cfg env (if service_published s then map (Pair s) (sv_Containers s) else []) g w"
  by (simp add: service_step_def Let_def service_published_def service_label_def
      containers_loop_items [symmetric] service_policy_def)

lemma services_loop_items: "services_loop c cfg env ss g w = items_loop c cfg env (items ss) g w"
proof (induction ss arbitrary: g w)
  case (Cons s ss)
  have "items (s # ss) = (if service_published s then map (Pair s) (sv_Containers s) else []) @ items ss"
    by (simp add: items_def)
  then show ?case
    by (auto simp: Cons.IH items_loop_append service_step_items split: sum.splits prod.splits)
qed (simp add: items_def)

text \<open>The client answers consistently: the host of an identifier is the same whenever it is asked
  for during the pass.\<close>

locale metadata_snapshot =
  fixes c :: "('e, 'w) md_client"
    and inv :: "'w \<Rightarrow> bool"
    and hostOf :: "string \<Rightarrow> 'e + Host"
    and servicesOf :: "'e + Service list"
  assumes get_host: "inv w \<Longrightarrow> mc_GetHost c u w = (r, w') \<Longrightarrow> inv w' \<and> r = hostOf u"
    and get_services: "inv w \<Longrightarrow> mc_GetServices c w = (r2, w') \<Longrightarrow> inv w' \<and> r2 = servicesOf"
begin

definition cached :: "Host gomap \<Rightarrow> bool" where
  "cached hm = (\<forall>u host. map_of hm u = Some host \<longrightarrow> hostOf u = Inr host)"

lemma lookupHost_snapshot:
  assumes "inv w" and "cached hm" and "lookupHost c u hm w = (h, hm', w')"
  shows "inv w' \<and> cached hm' \<and> h = (case hostOf u of Inl _ \<Rightarrow> None | Inr host \<Rightarrow> Some host)"
proof (cases "map_of hm u")
  case (Some host)
  with assms(2) have "hostOf u = Inr host" by (simp add: cached_def)
  with assms Some show ?thesis by (simp add: lookupHost_def)
next
  case None
  obtain r w1 where call: "mc_GetHost c u w = (r, w1)" by fastforce
  with get_host [OF assms(1) call] None assms(2,3) show ?thesis
    by (auto simp: lookupHost_def cached_def gomap_lookup split: sum.splits if_splits)
qed

lemma container_step_snapshot:
  assumes "inv w" and "cached (g_hostMeta g)"
  shows "case publish cfg env hostOf (s, k) of
      None \<Rightarrow> (\<exists>hm w'. container_step c cfg env s (service_policy s) k g w = Inr (g\<lparr>g_hostMeta := hm\<rparr>, w')
                 \<and> inv w' \<and> cached hm)
    | Some (Inl a) \<Rightarrow> container_step c cfg env s (service_policy s) k g w = Inl a
    | Some (Inr (f, ip)) \<Rightarrow>
        (\<exists>hm w'. container_step c cfg env s (service_policy s) k g w =
             Inr (g\<lparr>g_hostMeta := hm,
                    g_dnsEntries := addToDnsEntries cfg f ip (ct_ServiceName k) (ct_StackName k) (g_dnsEntries g),
                    g_ourFqdns := goset_add f (g_ourFqdns g)\<rparr>, w')
           \<and> inv w' \<and> cached hm)"
proof (cases "container_candidate (s, k)")
  case False
  then have "container_step c cfg env s (service_policy s) k g w = Inr (g\<lparr>g_hostMeta := g_hostMeta g\<rparr>, w)"
    by (auto simp: container_step_def container_candidate_def)
  with False assms show ?thesis by (simp add: publish_def) (metis gather.surjective gather.update_convs(3))
next
  case True
  obtain h hm w' where look: "lookupHost c (ct_HostUUID k) (g_hostMeta g) w = (h, hm, w')"
    by (cases "lookupHost c (ct_HostUUID k) (g_hostMeta g) w") auto
  note host = lookupHost_snapshot [OF assms look]
  show ?thesis
  proof (cases "hostOf (ct_HostUUID k)")
    case (Inl e)
    with True host look show ?thesis
      by (auto simp: container_step_def container_candidate_def publish_def)
  next
    case (Inr hst)
    with True host look show ?thesis
      by (auto simp: container_step_def container_candidate_def publish_def Let_def split: sum.splits)
  qed
qed

lemma items_loop_snapshot:
  assumes "inv w" and "cached (g_hostMeta g)"
  shows "(\<forall>a. items_loop c cfg env xs g w = Inl a \<longrightarrow> Some (Inl a) \<in> set (map (publish cfg env hostOf) xs))
    \<and> (\<forall>g' w'. items_loop c cfg env xs g w = Inr (g', w') \<longrightarrow>
         inv w' \<and> (\<forall>a. Some (Inl a) \<notin> set (map (publish cfg env hostOf) xs))
         \<and> set (g_ourFqdns g') = set (g_ourFqdns g) \<union> {f. \<exists>ip. Some (Inr (f, ip)) \<in> set (map (publish cfg env hostOf) xs)}
         \<and> (\<forall>f. entry_ips (g_dnsEntries g') f = entry_ips (g_dnsEntries g) f
               \<union> {ip. Some (Inr (f, ip)) \<in> set (map (publish cfg env hostOf) xs)}))"
  using assms
proof (induction xs arbitrary: g w)
  case (Cons x xs)
  obtain s k where x: "x = (s, k)" by (cases x)
  note step = container_step_snapshot [OF Cons.prems, of cfg env s k]
  show ?case
  proof (cases "publish cfg env hostOf (s, k)")
    case None
    with step obtain hm w1 where "container_step c cfg env s (service_policy s) k g w = Inr (g\<lparr>g_hostMeta := hm\<rparr>, w1)"
      "inv w1" "cached hm" by auto
    with Cons.IH [of w1 "g\<lparr>g_hostMeta := hm\<rparr>"] None x show ?thesis by auto
  next
    case (Some r)
    show ?thesis
    proof (cases r)
      case (Inl a)
      with Some step x show ?thesis by auto
    next
      case (Inr p)
      obtain f ip where p: "p = (f, ip)" by (cases p)
      define g1 where "g1 = (\<lambda>hm. g\<lparr>g_hostMeta := hm, g_dnsEntries := addToDnsEntries cfg f ip
          (ct_ServiceName k) (ct_StackName k) (g_dnsEntries g), g_ourFqdns := goset_add f (g_ourFqdns g)\<rparr>)"
      from Some Inr p step obtain hm w1 where st:
        "container_step c cfg env s (service_policy s) k g w = Inr (g1 hm, w1)" "inv w1" "cached hm"
        by (auto simp: g1_def)
      have g1: "cached (g_hostMeta (g1 hm))" "set (g_ourFqdns (g1 hm)) = insert f (set (g_ourFqdns g))"
        "\<And>f'. entry_ips (g_dnsEntries (g1 hm)) f' = (if f' = f then insert ip (entry_ips (g_dnsEntries g) f) else entry_ips (g_dnsEntries g) f')"
        using st(3) by (simp_all add: g1_def entry_ips_add)
      with Cons.IH [OF st(2) g1(1)] st(1) Some Inr p x show ?thesis by auto
    qed
  qed
qed simp

lemma services_loop_snapshot:
  assumes "inv w"
    and "services_loop c cfg env ss \<lparr>g_dnsEntries = [], g_ourFqdns = [], g_hostMeta = []\<rparr> w = Inr (g, w')"
  shows "inv w' \<and> set (g_ourFqdns g) = fst ` published cfg env hostOf ss
    \<and> (\<forall>f. entry_ips (g_dnsEntries g) f = {ip. (f, ip) \<in> published cfg env hostOf ss})"
proof -
  have "cached (g_hostMeta \<lparr>g_dnsEntries = [], g_ourFqdns = [], g_hostMeta = []\<rparr>)" by (simp add: cached_def)
  from items_loop_snapshot [OF assms(1) this, of cfg env "items ss"] assms(2)
  have r: "inv w'" "set (g_ourFqdns g) = {f. \<exists>ip. (f, ip) \<in> published cfg env hostOf ss}"
    "\<And>f. entry_ips (g_dnsEntries g) f = {ip. (f, ip) \<in> published cfg env hostOf ss}"
    by (simp_all add: services_loop_items published_def entry_ips_def)
  have "{f. \<exists>ip. (f, ip) \<in> published cfg env hostOf ss} = fst ` published cfg env hostOf ss" by force
  with r show ?thesis by simp
qed

end

subsection \<open>A service with fixed answers\<close>

lemma SendRequest_pure:
  "SendRequest (pure_http answer) m path w = (fst (SendRequest (pure_http answer) m path ()), w)"
  by (simp add: SendRequest_def pure_http_def split: sum.splits)

lemma get_decoded_pure:
  "get_decoded (pure_http answer) m path dec w = (fst (get_decoded (pure_http answer) m path dec ()), w)"
  unfolding get_decoded_def SendRequest_pure [of answer m path w]
  by (simp split: prod.splits sum.splits)

lemma GetHost_pure:
  "GetHost (pure_http answer) dec m u w = (fst (GetHost (pure_http answer) dec m u ()), w)"
  unfolding GetHost_def GetHosts_def get_decoded_pure [of answer m _ _ w]
  by (simp split: prod.splits sum.splits option.splits)

interpretation snapshot: metadata_snapshot
  "client_methods (pure_http answer) dec m" "\<lambda>_. True"
  "\<lambda>u. fst (GetHost (pure_http answer) dec m u ())" "fst (GetServices (pure_http answer) dec m ())"
  for answer dec m
proof (unfold_locales, goal_cases)
  case (1 w u r w')
  then show ?case using GetHost_pure [of answer dec m u w] by (simp add: client_methods_def)
next
  case (2 w r w')
  then show ?case using get_decoded_pure [of answer m "''/services''" "dec_Services dec" w]
    by (simp add: client_methods_def GetServices_def)
qed

subsection \<open>The desired records\<close>

lemma getEnvironment_retry:
  "getEnvironment c sleep w =
     (case retry 5 (mc_GetSelfStack c) sleep 0 None w of
        (Inl err, w') \<Rightarrow> (Inl err, w')
      | (Inr stack, w') \<Rightarrow> (Inr (st_EnvironmentName stack, st_EnvironmentUUID stack), w'))"
proof -
  have "getEnvironment_loop c sleep 5 err w = (Inl err, w)" for err w
    by (simp add: getEnvironment_loop.simps)
  then show ?thesis
    by (simp add: getEnvironment_def numeral_eq_Suc getEnvironment_loop.simps [of _ _ "Suc _"]
        getEnvironment_loop.simps [of _ _ 0] split: prod.splits sum.splits)
qed

lemma getContainersDnsRecords_gather:
  assumes "getContainersDnsRecords cfg m [] w = Inr (Inr dns, w')"
  obtains services g w1 where
    "mc_GetServices (mm_MetadataClient m) w = (Inr services, w1)"
    "services_loop (mm_MetadataClient m) cfg (mm_EnvironmentName m) services
       \<lparr>g_dnsEntries = [], g_ourFqdns = [], g_hostMeta = []\<rparr> w1 = Inr (g, w')"
    "gather_ok cfg g" "dns = addStateRecord cfg (mm_EnvironmentUUID m) g"
proof -
  obtain services w1 where gets: "mc_GetServices (mm_MetadataClient m) w = (Inr services, w1)"
    using assms by (auto simp: getContainersDnsRecords_def split: prod.splits sum.splits)
  with assms obtain g where
    loop: "services_loop (mm_MetadataClient m) cfg (mm_EnvironmentName m) services
       \<lparr>g_dnsEntries = [], g_ourFqdns = [], g_hostMeta = []\<rparr> w1 = Inr (g, w')" and
    dns: "dns = addStateRecord cfg (mm_EnvironmentUUID m) g"
    by (auto simp: getContainersDnsRecords_def split: sum.splits prod.splits)
  show ?thesis by (rule that [OF gets loop services_loop_ok [OF loop gather_ok_empty] dns])
qed

lemma GetMetadataDnsRecords_Inr:
  assumes "GetMetadataDnsRecords cfg sleep m w = Inr (Inr dns, m', w')"
  obtains w1 where "getContainersDnsRecords cfg m' [] w1 = Inr (Inr dns, w')"
    "mm_EnvironmentUUID m' = mm_EnvironmentUUID m" "mm_MetadataClient m' = mm_MetadataClient m"
  using assms
  by (auto simp: GetMetadataDnsRecords_def updateEnvironmentName_def split: prod.splits sum.splits option.splits)

lemma desired_records_ok:
  assumes "GetMetadataDnsRecords cfg sleep m w = Inr (Inr dns, m', w')"
  defines "sf \<equiv> StateFqdn (mm_EnvironmentUUID m) (RootDomainName cfg)"
  shows "desired_ok (\<lambda>_. True) sf dns \<and> closed_state sf dns
    \<and> (\<forall>k v. map_of dns k = Some v \<longrightarrow> k \<noteq> sf \<longrightarrow> entry_ok cfg k v)
    \<and> (dns \<noteq> [] \<longrightarrow> (\<exists>v names. map_of dns sf = Some v \<and> m_dns v = StateRecord sf (TTL cfg) names
          \<and> distinct names \<and> insert sf (set names) = dom (map_of dns)))"
proof -
  from GetMetadataDnsRecords_Inr [OF assms(1)] obtain w1 where
    run: "getContainersDnsRecords cfg m' [] w1 = Inr (Inr dns, w')"
    and m': "mm_EnvironmentUUID m' = mm_EnvironmentUUID m" by blast
  from getContainersDnsRecords_gather [OF run] obtain g where
    g: "gather_ok cfg g" "dns = addStateRecord cfg (mm_EnvironmentUUID m) g" unfolding m' by metis
  note ok = addStateRecord_ok [OF g(1), of "mm_EnvironmentUUID m", folded g(2) sf_def]
    and look = addStateRecord_lookup [of cfg "mm_EnvironmentUUID m" g, folded g(2) sf_def]
  have "desired_ok (\<lambda>_. True) sf dns" using ok by (auto simp: desired_ok_def gomap_Some_iff)
  moreover have "entry_ok cfg k v" if "map_of dns k = Some v" "k \<noteq> sf" for k v
    using that look [of k] g(1) by (auto simp: gather_ok_def)
  moreover have "\<exists>v names. map_of dns sf = Some v \<and> m_dns v = StateRecord sf (TTL cfg) names
      \<and> distinct names \<and> insert sf (set names) = dom (map_of dns)" if "dns \<noteq> []"
  proof -
    have "g_ourFqdns g \<noteq> []" using that g gather_ok_Nil [OF g(1)] by (auto simp: addStateRecord_def)
    moreover from this have "dom (map_of dns) = insert sf (set (g_ourFqdns g))"
      using g(1) by (auto simp: look gather_ok_def dom_def)
    ultimately show ?thesis using g(1) by (auto simp: look gather_ok_def)
  qed
  ultimately show ?thesis using ok by blast
qed

text \<open>
  C7. Whatever the metadata service answers, the desired records have one entry per name; every
  entry is stored under the name of its record; the entry at the state name is the TXT record
  that lists exactly the other names, sorted, and is there unless there is no entry at all; every
  other entry is an A record with the configured TTL and at least one address, all of them
  different and valid.
\<close>
theorem GetMetadataDnsRecords_wellformed:
  assumes "GetMetadataDnsRecords cfg sleep m w = Inr (Inr dns, m', w')"
  defines "sf \<equiv> StateFqdn (mm_EnvironmentUUID m) (RootDomainName cfg)"
  shows "desired_ok (\<lambda>_. True) sf dns \<and> closed_state sf dns
    \<and> (\<forall>k v. map_of dns k = Some v \<longrightarrow> k \<noteq> sf \<longrightarrow> entry_ok cfg k v)
    \<and> (dns \<noteq> [] \<longrightarrow> (\<exists>v names. map_of dns sf = Some v \<and> m_dns v = StateRecord sf (TTL cfg) names
          \<and> distinct names \<and> insert sf (set names) = dom (map_of dns)))"
  unfolding sf_def by (rule desired_records_ok [OF assms(1)])

theorem GetMetadataDnsRecords_wellformed_witness:
  "map_of ex_records ''web.s.e.ex.com.'' = Some ex_web \<and> entry_ok ex_config ''web.s.e.ex.com.'' ex_web
   \<and> closed_state (StateFqdn ''u1'' ''ex.com.'') ex_records"
proof -
  have web: "map_of ex_records ''web.s.e.ex.com.'' = Some ex_web" by (simp add: ex_records_def)
  have "''web.s.e.ex.com.'' \<noteq> StateFqdn ''u1'' ''ex.com.''" by code_simp
  with web GetMetadataDnsRecords_wellformed [OF ex_records_run] show ?thesis
    by (simp add: ex_client_def ex_config_def)
qed

text \<open>
  C6. Over a metadata service that answers consistently during the pass, the desired records are
  the published ones: at every name other than the state name the addresses are exactly those of
  the containers that the labels, states, ports and hosts select for that name, although hosts
  are read only once; the state RRSet lists exactly the published names; nothing published means
  no records.
\<close>
theorem getContainersDnsRecords_published:
  assumes "metadata_snapshot c ok hostOf (Inr services)"
    and "ok w" and "mm_MetadataClient m = c"
    and "getContainersDnsRecords cfg m [] w = Inr (Inr dns, w')"
  defines "sf \<equiv> StateFqdn (mm_EnvironmentUUID m) (RootDomainName cfg)"
    and "pub \<equiv> published cfg (mm_EnvironmentName m) hostOf services"
  shows "(\<forall>k. k \<noteq> sf \<longrightarrow> entry_ips dns k = {ip. (k, ip) \<in> pub})
    \<and> (if pub = {} then dns = [] else entry_ips dns sf = fst ` pub)"
proof -
  note snap = assms(1)
  from getContainersDnsRecords_gather [OF assms(4)] obtain services' g w1 where
    gets: "mc_GetServices c w = (Inr services', w1)" and
    loop: "services_loop c cfg (mm_EnvironmentName m) services'
       \<lparr>g_dnsEntries = [], g_ourFqdns = [], g_hostMeta = []\<rparr> w1 = Inr (g, w')" and
    g: "gather_ok cfg g" "dns = addStateRecord cfg (mm_EnvironmentUUID m) g"
    unfolding assms(3) by metis
  from metadata_snapshot.get_services [OF snap assms(2) gets] have "ok w1" "services' = services" by simp_all
  with metadata_snapshot.services_loop_snapshot [OF snap _ loop]
  have r: "set (g_ourFqdns g) = fst ` pub" "\<And>f. entry_ips (g_dnsEntries g) f = {ip. (f, ip) \<in> pub}"
    by (simp_all add: pub_def)
  note look = addStateRecord_lookup [of cfg "mm_EnvironmentUUID m" g, folded g(2) sf_def]
  have "entry_ips dns k = {ip. (k, ip) \<in> pub}" if "k \<noteq> sf" for k
    using that r(2) [of k] by (simp add: entry_ips_def look)
  moreover have "dns = []" if "pub = {}"
    using that r(1) g gather_ok_Nil [OF g(1)] by (simp add: addStateRecord_def)
  moreover have "entry_ips dns sf = fst ` pub" if "pub \<noteq> {}"
    using that r(1) by (auto simp: entry_ips_def look)
  ultimately show ?thesis by simp
qed

theorem getContainersDnsRecords_published_witness:
  "{ip. (''web.s.e.ex.com.'', ip) \<in> published ex_config ''e'' ex_hostOf ex_services} = {''10.0.0.1'', ''192.0.2.7''}"
proof -
  have snap: "metadata_snapshot ex_md (\<lambda>_. True) ex_hostOf (Inr ex_services)"
    by unfold_locales (auto simp: ex_get_host ex_get_services)
  have "entry_ips ex_records ''web.s.e.ex.com.'' = {''10.0.0.1'', ''192.0.2.7''}" by code_simp
  moreover have "''web.s.e.ex.com.'' \<noteq> StateFqdn ''u1'' ''ex.com.''" by code_simp
  ultimately show ?thesis
    using getContainersDnsRecords_published [OF snap TrueI _ ex_containers_run]
    by (simp add: ex_client_def ex_config_def)
qed

end
