(* ===== verification/Main_Loop.thy ===== *)
theory Main_Loop
  imports Metadata_Correct Sync_Correct
begin

text \<open>
  The main loop (src/main.go): poll the metadata version once a second, synchronize when the
  records have changed, and force a synchronization when the last one is a minute old. The loop
  variables, the package variables \<open>m\<close> and \<open>metadataRecsCached\<close>, the state of the provider and
  the world of the other services are the fields of \<open>process\<close>; one iteration is \<open>poll\<close>. The
  clock counts nanoseconds and is read from the world. The branch an iteration takes is reported
  as an \<open>outcome\<close>, where the program writes a log line.

  Between two iterations everything outside the process may change; the relation \<open>polls\<close> is the
  sequence of iterations of a run.
\<close>

record ('e, 'p, 'w) process =
  currentVersion :: string
  lastUpdated :: int
  hasSynchronized :: bool
  metadataRecsCached :: "metadata_dns_record gomap"
  metadataClient :: "('e, 'w) MetadataClient"
  providerState :: 'p
  outside :: 'w

text \<open>What the loop uses of its surroundings: the settings, the provider, the platform client,
  the clock and the pause.\<close>

record ('e, 'p, 'w) surroundings =
  su_config :: config
  su_provider :: "('e, 'p) provider"
  su_UpdateServiceDomainName :: "metadata_dns_record \<Rightarrow> 'w \<Rightarrow> bool \<times> 'w"
  su_Now :: "'w \<Rightarrow> int"
  su_Sleep :: "nat \<Rightarrow> 'w \<Rightarrow> 'w"

datatype 'e outcome =
    VersionFailed
  | NoUpdate
  | RecordsFailed
  | Unchanged
  | SyncFailed "'e sync_error"
  | Synchronized "metadata_dns_record list"

definition pollIntervalSeconds :: nat where "pollIntervalSeconds = 1"
definition forceUpdateIntervalMinutes :: int where "forceUpdateIntervalMinutes = 1"
definition minute :: int where "minute = 60 * 10 ^ 9"

definition shouldSynchronize ::
    "bool \<Rightarrow> bool \<Rightarrow> metadata_dns_record gomap \<Rightarrow> metadata_dns_record gomap \<Rightarrow> bool" where
  "shouldSynchronize synced updateForced metadataRecords cachedRecords =
     (\<not> synced \<or> updateForced \<or> \<not> gomap_DeepEqual metadataRecords cachedRecords)"

text \<open>The loop over the updated records; failures are logged only.\<close>

fun update_services ::
    "(metadata_dns_record \<Rightarrow> 'w \<Rightarrow> bool \<times> 'w) \<Rightarrow> metadata_dns_record list \<Rightarrow> 'w \<Rightarrow> 'w" where
  "update_services f [] w = w"
| "update_services f (mRec # rest) w =
     update_services f rest (if m_service mRec \<noteq> [] \<and> m_stack mRec \<noteq> [] then snd (f mRec w) else w)"

text \<open>An iteration up to the pause, once it is known whether to update.\<close>

definition poll_update ::
    "('pe, 'p, 'w) surroundings \<Rightarrow> bool \<Rightarrow> ('e, 'p, 'w) process \<Rightarrow> abort + 'pe outcome \<times> ('e, 'p, 'w) process" where
  "poll_update su updateForced s =
     (case GetMetadataDnsRecords (su_config su) (su_Sleep su) (metadataClient s) (outside s) of
        Inl a \<Rightarrow> Inl a
      | Inr (Inl _, m, w) \<Rightarrow> Inr (RecordsFailed, s\<lparr>metadataClient := m, outside := w\<rparr>)
      | Inr (Inr metadataRecs, m, w) \<Rightarrow>
          (let s1 = s\<lparr>metadataClient := m, outside := w\<rparr> in
           if shouldSynchronize (hasSynchronized s1) updateForced metadataRecs (metadataRecsCached s1)
           then (case UpdateProviderDnsRecords (su_provider su) (mm_EnvironmentUUID m) (su_config su)
                        metadataRecs (providerState s1) of
                   (Inl err, p) \<Rightarrow> Inr (SyncFailed err, s1\<lparr>providerState := p\<rparr>)
                 | (Inr updatedRecords, p) \<Rightarrow>
                     (let w2 = update_services (su_UpdateServiceDomainName su) updatedRecords (outside s1) in
                      Inr (Synchronized updatedRecords,
                           s1\<lparr>providerState := p, outside := w2, metadataRecsCached := metadataRecs,
                              lastUpdated := su_Now su w2, hasSynchronized := True\<rparr>)))
           else Inr (Unchanged, s1)))"

definition poll_body ::
    "('pe, 'p, 'w) surroundings \<Rightarrow> ('e, 'p, 'w) process \<Rightarrow> abort + 'pe outcome \<times> ('e, 'p, 'w) process" where
  "poll_body su s =
     (case mc_GetVersion (mm_MetadataClient (metadataClient s)) (outside s) of
        (Inl _, w) \<Rightarrow> Inr (VersionFailed, s\<lparr>outside := w\<rparr>)
      | (Inr newVersion, w) \<Rightarrow>
          (let s1 = s\<lparr>outside := w\<rparr> in
           if currentVersion s1 \<noteq> newVersion
           then poll_update su False (s1\<lparr>currentVersion := newVersion\<rparr>)
           else if forceUpdateIntervalMinutes * minute \<le> su_Now su w - lastUpdated s1
           then poll_update su True s1
           else Inr (NoUpdate, s1)))"

definition poll ::
    "('pe, 'p, 'w) surroundings \<Rightarrow> ('e, 'p, 'w) process \<Rightarrow> abort + 'pe outcome \<times> ('e, 'p, 'w) process" where
  "poll su s =
     (case poll_body su s of
        Inl a \<Rightarrow> Inl a
      | Inr (out, s') \<Rightarrow> Inr (out, s'\<lparr>outside := su_Sleep su pollIntervalSeconds (outside s')\<rparr>))"

text \<open>The start of the loop: the upgrade of the zone, and the initial values of the variables.\<close>

definition start ::
    "('pe, 'p, 'w) surroundings \<Rightarrow> ('e, 'w) MetadataClient \<Rightarrow> 'p \<Rightarrow> 'w \<Rightarrow> abort + ('e, 'p, 'w) process" where
  "start su m p w =
     (case EnsureUpgradeToStateRRSet (su_provider su) (mm_EnvironmentName m) (mm_EnvironmentUUID m)
             (su_config su) p of
        (Some _, _) \<Rightarrow> Inl (Fatal ''Failed to ensure upgrade'')
      | (None, p') \<Rightarrow>
          Inr \<lparr>currentVersion = ''init'', lastUpdated = su_Now su w, hasSynchronized = False,
               metadataRecsCached = [], metadataClient = m, providerState = p', outside = w\<rparr>)"

inductive polls ::
    "('pe, 'p, 'w) surroundings \<Rightarrow> ('e, 'p, 'w) process \<Rightarrow> 'pe outcome list \<Rightarrow> ('e, 'p, 'w) process \<Rightarrow> bool"
  for su where
  polls_start: "polls su s [] s"
| polls_step: "polls su s outs s1 \<Longrightarrow> poll su (s1\<lparr>outside := w\<rparr>) = Inr (out, s2) \<Longrightarrow>
    polls su s (outs @ [out]) s2"

inductive_cases polls_snocE: "polls su s (outs @ [out]) s2"

subsection \<open>The health check\<close>

text \<open>\<open>healthCheck\<close> (src/healthcheck.go): the status and the body of the answer, and the states
  of the services it asked.\<close>

record http_answer =
  ha_status :: int
  ha_body :: string

definition healthCheck ::
    "('pe, 'p) provider \<Rightarrow> ('w \<Rightarrow> 'te option \<times> 'w) \<Rightarrow> ('e, 'w) MetadataClient \<Rightarrow> string \<Rightarrow> 'p \<Rightarrow> 'w
       \<Rightarrow> http_answer \<times> 'p \<times> 'w" where
  "healthCheck P testConnect m meth p w =
     (case mc_GetSelfStack (mm_MetadataClient m) w of
        (Inl _, w1) \<Rightarrow> (\<lparr>ha_status = 500, ha_body = ''Failed to reach metadata server'' @ [CHR 0x0A]\<rparr>, p, w1)
      | (Inr _, w1) \<Rightarrow>
          (case pHealthCheck P p of
             (Some _, p1) \<Rightarrow>
               (\<lparr>ha_status = 500, ha_body = ''Failed to reach the external DNS provider'' @ [CHR 0x0A]\<rparr>, p1, w1)
           | (None, p1) \<Rightarrow>
               (case testConnect w1 of
                  (Some _, w2) \<Rightarrow>
                    (\<lparr>ha_status = 500, ha_body = ''Failed to connect to the platform API'' @ [CHR 0x0A]\<rparr>, p1, w2)
                | (None, w2) \<Rightarrow>
                    (\<lparr>ha_status = 200, ha_body = (if meth \<noteq> ''HEAD'' then ''pong'' else [])\<rparr>, p1, w2))))"

subsection \<open>Lemmas: one iteration\<close>

lemma update_environment_client:
  "updateEnvironmentName sleep m w = (e, m', w') \<Longrightarrow>
     mm_MetadataClient m' = mm_MetadataClient m \<and> mm_EnvironmentUUID m' = mm_EnvironmentUUID m"
  by (auto simp: updateEnvironmentName_def split: prod.splits sum.splits)

lemma GetMetadataDnsRecords_client:
  "GetMetadataDnsRecords cfg sleep m w = Inr (r, m', w') \<Longrightarrow>
     mm_MetadataClient m' = mm_MetadataClient m \<and> mm_EnvironmentUUID m' = mm_EnvironmentUUID m"
  by (auto simp: GetMetadataDnsRecords_def dest!: update_environment_client
      split: prod.splits option.splits sum.splits)

text \<open>What an iteration may do, by its outcome. \<open>polled\<close> are the records the metadata component
  can return for the process.\<close>

definition polled :: "('pe, 'p, 'w) surroundings \<Rightarrow> ('e, 'p, 'w) process \<Rightarrow> metadata_dns_record gomap \<Rightarrow> bool" where
  "polled su s recs =
     (\<exists>w m' w'. GetMetadataDnsRecords (su_config su) (su_Sleep su) (metadataClient s) w = Inr (Inr recs, m', w'))"

definition same_client :: "('e, 'p, 'w) process \<Rightarrow> ('e, 'p, 'w) process \<Rightarrow> bool" where
  "same_client s s' =
     (mm_MetadataClient (metadataClient s') = mm_MetadataClient (metadataClient s)
      \<and> mm_EnvironmentUUID (metadataClient s') = mm_EnvironmentUUID (metadataClient s))"

definition kept :: "('e, 'p, 'w) process \<Rightarrow> ('e, 'p, 'w) process \<Rightarrow> bool" where
  "kept s s' = (metadataRecsCached s' = metadataRecsCached s \<and> lastUpdated s' = lastUpdated s
      \<and> hasSynchronized s' = hasSynchronized s)"

definition sync_of ::
    "('pe, 'p, 'w) surroundings \<Rightarrow> ('e, 'p, 'w) process \<Rightarrow> metadata_dns_record gomap
       \<Rightarrow> ('pe sync_error + metadata_dns_record list) \<times> 'p" where
  "sync_of su s recs =
     UpdateProviderDnsRecords (su_provider su) (mm_EnvironmentUUID (metadataClient s)) (su_config su) recs
       (providerState s)"

definition poll_effect ::
    "('pe, 'p, 'w) surroundings \<Rightarrow> ('e, 'p, 'w) process \<Rightarrow> 'pe outcome \<Rightarrow> ('e, 'p, 'w) process \<Rightarrow> bool" where
  "poll_effect su s out s' =
     (same_client s s' \<and>
      (case out of
         SyncFailed err \<Rightarrow> kept s s' \<and> (\<exists>recs. polled su s recs \<and> sync_of su s recs = (Inl err, providerState s'))
       | Synchronized updated \<Rightarrow> hasSynchronized s' \<and> polled su s (metadataRecsCached s')
           \<and> sync_of su s (metadataRecsCached s') = (Inr updated, providerState s')
       | Unchanged \<Rightarrow> kept s s' \<and> providerState s' = providerState s \<and> hasSynchronized s
           \<and> (\<exists>recs. polled su s recs \<and> gomap_DeepEqual recs (metadataRecsCached s))
       | _ \<Rightarrow> kept s s' \<and> providerState s' = providerState s))"

lemma poll_update_effect:
  assumes "poll_update su force s = Inr (out, s')"
  shows "poll_effect su s out s' \<and> out \<noteq> VersionFailed \<and> out \<noteq> NoUpdate \<and> (force \<longrightarrow> out \<noteq> Unchanged)
    \<and> currentVersion s' = currentVersion s
    \<and> (\<forall>updated. out = Synchronized updated \<longrightarrow> lastUpdated s' = su_Now su (outside s'))"
proof -
  obtain r m w where get: "GetMetadataDnsRecords (su_config su) (su_Sleep su) (metadataClient s) (outside s) = Inr (r, m, w)"
    using assms by (auto simp: poll_update_def split: sum.splits)
  note same = GetMetadataDnsRecords_client [OF get]
  show ?thesis
  proof (cases r)
    case (Inl e)
    with assms get same show ?thesis by (auto simp: poll_update_def poll_effect_def same_client_def kept_def)
  next
    case (Inr recs)
    then have p: "polled su s recs" using get by (auto simp: polled_def)
    obtain ur q where u: "sync_of su s recs = (ur, q)" by fastforce
    with assms get same Inr p show ?thesis
      by (auto simp: poll_update_def poll_effect_def same_client_def kept_def sync_of_def
          shouldSynchronize_def Let_def split: if_splits sum.splits)
  qed
qed

text \<open>Only a name template that cannot be used ends the process.\<close>

lemma poll_abort:
  assumes "poll su s = Inl a"
  shows "\<exists>w. GetMetadataDnsRecords (su_config su) (su_Sleep su) (metadataClient s) w = Inl a"
proof -
  have upd: "GetMetadataDnsRecords (su_config su) (su_Sleep su) (metadataClient t) (outside t) = Inl a"
    if "poll_update su force t = Inl a" for force t
    using that by (auto simp: poll_update_def Let_def split: sum.splits prod.splits if_splits)
  from assms obtain force t where "poll_update su force t = Inl a" "metadataClient t = metadataClient s"
    by (auto simp: poll_def poll_body_def Let_def split: sum.splits prod.splits if_splits)
  with upd [of force t] show ?thesis by auto
qed

lemma poll_effect_cong:
  assumes "poll_effect su s1 out s'" and "same_client s s1" and "kept s s1"
    and "metadataClient s1 = metadataClient s" and "providerState s1 = providerState s"
  shows "poll_effect su s out (s'\<lparr>outside := w\<rparr>)"
  using assms
  by (auto simp: poll_effect_def same_client_def kept_def sync_of_def polled_def split: outcome.splits)

lemma poll_body_cases:
  assumes "poll_body su s = Inr (out, s2)"
  obtains (update) force s1 where "poll_update su force s1 = Inr (out, s2)" "same_client s s1" "kept s s1"
      "metadataClient s1 = metadataClient s" "providerState s1 = providerState s"
  | (idle) w where "out \<in> {VersionFailed, NoUpdate}" "s2 = s\<lparr>outside := w\<rparr>"
proof -
  obtain r w where get: "mc_GetVersion (mm_MetadataClient (metadataClient s)) (outside s) = (r, w)" by fastforce
  have "out \<in> {VersionFailed, NoUpdate} \<and> s2 = s\<lparr>outside := w\<rparr>
      \<or> poll_update su True (s\<lparr>outside := w\<rparr>) = Inr (out, s2)
      \<or> (\<exists>v. poll_update su False (s\<lparr>outside := w, currentVersion := v\<rparr>) = Inr (out, s2))"
    using assms get by (auto simp: poll_body_def Let_def split: sum.splits if_splits)
  with update idle show thesis by (auto simp: same_client_def kept_def)
qed

lemma poll_cases:
  assumes "poll su s = Inr (out, s')"
  shows "poll_effect su s out s'
    \<and> (\<forall>updated. out = Synchronized updated \<longrightarrow> (\<exists>w. lastUpdated s' = su_Now su w \<and> outside s' = su_Sleep su 1 w))"
proof -
  obtain s2 where body: "poll_body su s = Inr (out, s2)" and s': "s' = s2\<lparr>outside := su_Sleep su 1 (outside s2)\<rparr>"
    using assms by (auto simp: poll_def pollIntervalSeconds_def split: sum.splits)
  from body show ?thesis
  proof (cases rule: poll_body_cases)
    case (update force s1)
    from poll_update_effect [OF update(1)] poll_effect_cong [OF _ update(2-5)] s' show ?thesis by auto
  next
    case (idle w)
    with s' show ?thesis by (auto simp: poll_effect_def same_client_def kept_def)
  qed
qed

subsection \<open>Lemmas: runs\<close>

text \<open>The last iteration of a run that touched the provider succeeded.\<close>

definition settled :: "'e outcome list \<Rightarrow> bool" where
  "settled outs =
     foldl (\<lambda>b out. case out of Synchronized _ \<Rightarrow> True | SyncFailed _ \<Rightarrow> False | _ \<Rightarrow> b) False outs"

text \<open>A zone that agrees with the desired records: their values are there, and the state RRSet
  claims no other name.\<close>

definition agrees ::
    "string \<Rightarrow> metadata_dns_record gomap \<Rightarrow> ((string \<times> string) \<rightharpoonup> string set) \<Rightarrow> bool" where
  "agrees sf recs z =
     ((\<forall>k v. map_of recs k = Some v \<longrightarrow> z (managed_key sf k) = Some (set (d_records (m_dns v))))
      \<and> owned sf z \<subseteq> dom (map_of recs))"

text \<open>The records that the environment can yield are ones the provider can store.\<close>

definition storable_records ::
    "('pe, 'p, 'w) surroundings \<Rightarrow> (dns_record \<Rightarrow> bool) \<Rightarrow> ('e, 'p, 'w) process \<Rightarrow> bool" where
  "storable_records su storable s0 =
     (\<forall>s recs. same_client s0 s \<longrightarrow> polled su s recs \<longrightarrow> (\<forall>(k, v) \<in> set recs. storable (m_dns v)))"

lemma settled_snoc:
  "settled (outs @ [out]) =
     (case out of Synchronized _ \<Rightarrow> True | SyncFailed _ \<Rightarrow> False | _ \<Rightarrow> settled outs)"
  by (cases out) (simp_all add: settled_def)

lemma polled_desired:
  assumes "polled su s recs" and "storable_records su storable s0" and "same_client s0 s"
  defines "sf \<equiv> StateFqdn (mm_EnvironmentUUID (metadataClient s)) (RootDomainName (su_config su))"
  shows "desired_ok storable sf recs \<and> closed_state sf recs"
proof -
  from assms(1) obtain w m' w' where
    "GetMetadataDnsRecords (su_config su) (su_Sleep su) (metadataClient s) w = Inr (Inr recs, m', w')"
    by (auto simp: polled_def)
  from desired_records_ok [OF this] have "desired_ok (\<lambda>_. True) sf recs \<and> closed_state sf recs"
    by (simp add: sf_def)
  with assms(1-3) show ?thesis by (fastforce simp: desired_ok_def storable_records_def)
qed

context dns_provider
begin

lemma polls_invariant:
  assumes "polls su s0 outs s" and "su_provider su = P" and "storable_records su storable s0"
    and "inv (providerState s0)"
    and "zone (providerState s0) (StateFqdn (mm_EnvironmentUUID (metadataClient s0)) (RootDomainName (su_config su)), ''A'') = None"
    and "\<forall>k. removable k"
  defines "sf \<equiv> StateFqdn (mm_EnvironmentUUID (metadataClient s0)) (RootDomainName (su_config su))"
  shows "same_client s0 s \<and> inv (providerState s) \<and> zone (providerState s) (sf, ''A'') = None
    \<and> (settled outs \<longrightarrow> hasSynchronized s \<and> agrees sf (metadataRecsCached s) (zone (providerState s)))"
  using assms(1-5) unfolding sf_def
proof (induction rule: polls.induct)
  case (polls_start s)
  then show ?case by (simp add: same_client_def sf_def settled_def)
next
  case (polls_step s0 outs s1 w out s2)
  let ?s1 = "s1\<lparr>outside := w\<rparr>"
  let ?sf = "StateFqdn (mm_EnvironmentUUID (metadataClient s0)) (RootDomainName (su_config su))"
  from polls_step have IH: "same_client s0 ?s1" "inv (providerState ?s1)" "zone (providerState ?s1) (?sf, ''A'') = None"
    "settled outs \<Longrightarrow> hasSynchronized ?s1 \<and> agrees ?sf (metadataRecsCached ?s1) (zone (providerState ?s1))"
    by (auto simp: same_client_def)
  from poll_cases [OF polls_step(2)] have eff: "poll_effect su ?s1 out s2" by simp
  then have same: "same_client s0 s2" using IH(1) by (simp add: poll_effect_def same_client_def)
  have man: "manageable removable ?sf (zone (providerState ?s1))" using IH(3) assms(6) unfolding manageable_def by blast
  let ?u = "mm_EnvironmentUUID (metadataClient s0)"
  have uuid: "mm_EnvironmentUUID (metadataClient ?s1) = ?u" using IH(1) by (simp add: same_client_def)
  note desired = polled_desired [OF _ polls_step.prems(2) IH(1), unfolded uuid]
  have sync: "UpdateProviderDnsRecords P ?u (su_config su) recs (providerState ?s1) = sync_of su ?s1 recs" for recs
    using polls_step.prems(1) uuid by (simp add: sync_of_def)
  show ?case
  proof (cases out)
    case (SyncFailed err)
    with eff obtain recs where recs: "polled su ?s1 recs" "sync_of su ?s1 recs = (Inl err, providerState s2)"
      by (auto simp: poll_effect_def)
    from sync_keeps [OF IH(2) man desired [OF recs(1), THEN conjunct1] sync [of recs, unfolded recs(2)]] same SyncFailed
    show ?thesis by (simp add: settled_snoc)
  next
    case (Synchronized updated)
    let ?recs = "metadataRecsCached s2"
    from eff Synchronized have run: "polled su ?s1 ?recs" "hasSynchronized s2"
      "sync_of su ?s1 ?recs = (Inr updated, providerState s2)" by (auto simp: poll_effect_def)
    note ok = desired [OF run(1), THEN conjunct1] and closed = desired [OF run(1), THEN conjunct2]
      and upd = sync [of ?recs, unfolded run(3)]
    from sync_keeps [OF IH(2) man ok upd] sync_converges [OF IH(2) man ok upd] sync_owned [OF IH(2) man ok closed upd] same run(2)
    show ?thesis by (simp add: agrees_def)
  qed (use eff IH same in \<open>auto simp: poll_effect_def kept_def settled_snoc\<close>)
qed

end

lemma poll_outcome_forced:
  assumes "mc_GetVersion (mm_MetadataClient (metadataClient s)) (outside s) = (Inr (currentVersion s), w)"
    and "minute \<le> su_Now su w - lastUpdated s" and "poll su s = Inr (out, s')"
  shows "out = RecordsFailed \<or> (\<exists>err. out = SyncFailed err) \<or> (\<exists>updated. out = Synchronized updated)"
proof -
  from assms obtain s2 where "poll_update su True (s\<lparr>outside := w\<rparr>) = Inr (out, s2)"
    by (auto simp: poll_def poll_body_def forceUpdateIntervalMinutes_def Let_def split: sum.splits)
  from poll_update_effect [OF this] show ?thesis by (cases out) auto
qed

subsection \<open>Properties\<close>

text \<open>
  C25. What an iteration of the main loop does, by its outcome. Only a synchronization touches the
  provider, and it is run on records that the metadata component returned; the cache, the time
  stamp and the flag change only when it succeeded, and then to the records it was run on and to
  the time after it; an iteration that skips the synchronization because nothing changed found
  the cached records; the identity of the environment never changes.
\<close>
theorem poll_outcome:
  assumes "poll su s = Inr (out, s')"
  shows "poll_effect su s out s'
    \<and> (\<forall>updated. out = Synchronized updated \<longrightarrow> (\<exists>w. lastUpdated s' = su_Now su w \<and> outside s' = su_Sleep su 1 w))"
  by (rule poll_cases [OF assms])

text \<open>
  C26. When the version has not changed for a minute since the last successful synchronization, an
  iteration reads the desired records again and synchronizes, although they may be the cached
  ones: it does nothing only when the records cannot be read.
\<close>
theorem poll_forced:
  assumes "mc_GetVersion (mm_MetadataClient (metadataClient s)) (outside s) = (Inr (currentVersion s), w)"
    and "minute \<le> su_Now su w - lastUpdated s" and "poll su s = Inr (out, s')"
  shows "out = RecordsFailed \<or> (\<exists>err. out = SyncFailed err) \<or> (\<exists>updated. out = Synchronized updated)"
  by (rule poll_outcome_forced [OF assms])

text \<open>
  The health check answers 200 exactly when the metadata service, the provider and the
  platform API all answer, and asks them in this order, stopping at the first that fails; a HEAD
  request gets no body.
\<close>
lemma healthCheck_status:
  "ha_status (fst (healthCheck P testConnect m meth p w)) =
     (if isl (fst (mc_GetSelfStack (mm_MetadataClient m) w)) then 500
      else if fst (pHealthCheck P p) \<noteq> None then 500
      else if fst (testConnect (snd (mc_GetSelfStack (mm_MetadataClient m) w))) \<noteq> None then 500
      else 200)
   \<and> (ha_status (fst (healthCheck P testConnect m meth p w)) = 200 \<longleftrightarrow>
        ha_body (fst (healthCheck P testConnect m meth p w)) = (if meth = ''HEAD'' then [] else ''pong''))"
  by (auto simp: healthCheck_def split: prod.splits sum.splits option.splits)

end
