(* ===== verification/Example_Run.thy ===== *)
theory Example_Run
  imports Example_Zone Main_Loop
begin

text \<open>
  The example environment and the example zone put together: a process at the start of its loop,
  and its first iteration.
\<close>

definition ex_surroundings :: "(string route53_error, (string, sim_world) route53, unit) surroundings" where
  "ex_surroundings = \<lparr>su_config = ex_config, su_provider = ex_provider,
     su_UpdateServiceDomainName = (\<lambda>_ w. (True, w)), su_Now = (\<lambda>_. 0), su_Sleep = (\<lambda>_ w. w)\<rparr>"

definition ex_process :: "(string md_error, (string, sim_world) route53, unit) process" where
  "ex_process = \<lparr>currentVersion = ''init'', lastUpdated = 0, hasSynchronized = False, metadataRecsCached = [],
     metadataClient = ex_client, providerState = ex_state, outside = ()\<rparr>"

definition ex_sync :: "(string route53_error sync_error + metadata_dns_record list) \<times> (string, sim_world) route53" where
  "ex_sync = UpdateProviderDnsRecords ex_provider ''u1'' ex_config ex_records ex_state"

definition ex_process' :: "(string md_error, (string, sim_world) route53, unit) process" where
  "ex_process' = ex_process\<lparr>currentVersion := ''/version'', providerState := snd ex_sync,
     metadataRecsCached := ex_records, hasSynchronized := True\<rparr>"

lemma ex_get_version: "mc_GetVersion ex_md w = (Inr ''/version'', w)"
  by (simp add: ex_md_def client_methods_def GetVersion_def ex_send HasPrefix_def)

lemma ex_sync_ok: "\<exists>updated. ex_sync = (Inr updated, snd ex_sync)"
proof -
  have "isl (fst ex_sync) = False" by code_simp
  then show ?thesis by (metis isl_def sum.exhaust prod.collapse)
qed

lemma update_services_unit: "update_services f xs () = ()"
  by simp

lemma ex_poll: "\<exists>updated. poll ex_surroundings ex_process = Inr (Synchronized updated, ex_process')"
proof -
  obtain updated where run: "UpdateProviderDnsRecords ex_provider ''u1'' ex_config ex_records ex_state = (Inr updated, snd ex_sync)"
    using ex_sync_ok by (auto simp: ex_sync_def)
  have version: "mc_GetVersion (mm_MetadataClient (metadataClient ex_process)) (outside ex_process) = (Inr ''/version'', ())"
    by (simp add: ex_process_def ex_client_def ex_get_version)
  have uuid: "mm_EnvironmentUUID ex_client = ''u1''" by (simp add: ex_client_def)
  have "poll ex_surroundings ex_process = Inr (Synchronized updated, ex_process')"
    using version ex_records_run run
    by (simp add: poll_def poll_body_def poll_update_def ex_process_def ex_process'_def ex_surroundings_def
        shouldSynchronize_def uuid Let_def)
  then show ?thesis by blast
qed

lemma ex_polls: "\<exists>updated. polls ex_surroundings ex_process [Synchronized updated] ex_process'"
proof -
  obtain updated where "poll ex_surroundings ex_process = Inr (Synchronized updated, ex_process')" using ex_poll by blast
  moreover have "ex_process\<lparr>outside := ()\<rparr> = ex_process" by (simp add: ex_process_def)
  ultimately have "poll ex_surroundings (ex_process\<lparr>outside := ()\<rparr>) = Inr (Synchronized updated, ex_process')"
    by (simp only:)
  from polls_step [OF polls_start this] show ?thesis by auto
qed

lemma ex_storable: "storable_records ex_surroundings route53_storable ex_process"
proof -
  have names: "\<forall>(k, v) \<in> set ex_records. route53_storable (m_dns v)" by code_simp
  have "recs = ex_records" if "same_client ex_process s" "polled ex_surroundings s recs"
    for s :: "(string md_error, (string, sim_world) route53, unit) process" and recs
  proof -
    from that(1) have md: "mm_MetadataClient (metadataClient s) = ex_md" "mm_EnvironmentUUID (metadataClient s) = ''u1''"
      by (simp_all add: same_client_def ex_process_def ex_client_def)
    then have "updateEnvironmentName (\<lambda>_ w. w) (metadataClient s) () = (None, ex_client, ())"
      by (simp add: updateEnvironmentName_def getEnvironment_def getEnvironment_loop.simps ex_get_stack ex_stack_def
          ex_client_def)
    with that(2) show ?thesis
      by (auto simp: polled_def ex_surroundings_def GetMetadataDnsRecords_def ex_containers_run)
  qed
  with names show ?thesis unfolding storable_records_def by blast
qed

end
