(* ===== verification/Platform_API.thy ===== *)
theory Platform_API
  imports Net_URL
begin

text \<open>
  The client of the platform API (src/internal/platformapi/client.go) and the wrapper the main
  loop uses (src/platform_client.go). The origin that the credentials may be sent to is fixed when
  the client is made; every request is checked against it twice, before it is built and again in
  the transport. The HTTP stack below the checks, the URL parser and printer, the encoder of
  events and the encoding of the credentials are the record \<open>platform_stack\<close>. A query is given in
  its encoded form.

  The lemmas show that no request reaches the network unless the URL it is sent to parses to the
  approved origin, whatever the parser, the printer and the network do, and which answers count
  as success. The checks for a nil client or request have no counterpart: the values are there.
\<close>

record ExternalDNSEvent =
  ev_EventType :: string
  ev_ExternalID :: string
  ev_ServiceName :: string
  ev_StackName :: string
  ev_FQDN :: string

record platform_request =
  pq_method :: string
  pq_url :: url
  pq_header :: "(string \<times> string) list"
  pq_body :: "string option"

record 'e platform_response =
  ps_status :: int
  ps_body :: string
  ps_body_error :: "'e option"

record ('e, 'w) platform_stack =
  pk_Parse :: "string \<Rightarrow> url option"
  pk_String :: "url \<Rightarrow> string"
  pk_NewRequest :: "string \<Rightarrow> string \<Rightarrow> string option \<Rightarrow> 'e + url"
  pk_BasicAuth :: "string \<Rightarrow> string \<Rightarrow> string"
  pk_Marshal :: "ExternalDNSEvent \<Rightarrow> 'e + string"
  pk_RoundTrip :: "platform_request \<Rightarrow> 'w \<Rightarrow> ('e + 'e platform_response) \<times> 'w"

datatype 'e platform_error =
    AccessKeyRequired
  | SecretKeyRequired
  | URLWhitespace
  | PlatformURLParse
  | PlatformURLScheme
  | PlatformURLHost
  | PlatformURLUser
  | PlatformURLQuery
  | PlatformURLPort
  | ResourcePathInvalid
  | OriginNotAuthorized
  | EncodeEvent 'e
  | CreatePlatformRequest 'e
  | PlatformRequestFailed 'e
  | TransportRefused
  | ReadPlatformResponse 'e
  | PlatformResponseTooLarge
  | PlatformStatus int

record Client =
  pc_baseURL :: url
  pc_origin :: string
  pc_accessKey :: string
  pc_secretKey :: string

definition platform_maxResponseSize :: nat where "platform_maxResponseSize = 4 * 2 ^ 20"

subsection \<open>Origins\<close>

definition canonicalOrigin :: "url \<Rightarrow> 'e platform_error + string" where
  "canonicalOrigin parsed =
     (let scheme = ToLower (uScheme parsed) in
      if scheme \<noteq> ''http'' \<and> scheme \<noteq> ''https'' then Inl PlatformURLScheme
      else let hostname = ToLower (TrimSuffix (Hostname parsed) ''.'') in
        if hostname = [] then Inl PlatformURLHost
        else let port = Port parsed;
                 port = (if port = [] then if scheme = ''https'' then ''443'' else ''80'' else port)
          in case ParseInt port 64 of
               None \<Rightarrow> Inl PlatformURLPort
             | Some portNumber \<Rightarrow>
                 if portNumber < 1 \<or> 65535 < portNumber then Inl PlatformURLPort
                 else Inr (scheme @ ''://'' @ JoinHostPort hostname port))"

definition isValidRedirectURL :: "(string \<Rightarrow> url option) \<Rightarrow> string \<Rightarrow> string \<Rightarrow> bool" where
  "isValidRedirectURL parse rawURL origin =
     (case parse rawURL of
        None \<Rightarrow> False
      | Some parsed \<Rightarrow>
          if uHasUser parsed \<or> uFragment parsed \<noteq> [] then False
          else (case canonicalOrigin parsed of
                  Inl (_ :: unit platform_error) \<Rightarrow> False
                | Inr o' \<Rightarrow> o' = origin))"

definition parsePlatformURL :: "(string \<Rightarrow> url option) \<Rightarrow> string \<Rightarrow> 'e platform_error + url" where
  "parsePlatformURL parse rawURL =
     (if rawURL = [] \<or> rawURL \<noteq> TrimSpace rawURL \<or> ContainsAny rawURL [CHR 0x0D, CHR 0x0A, CHR 0x09]
      then Inl URLWhitespace
      else case parse rawURL of
        None \<Rightarrow> Inl PlatformURLParse
      | Some u \<Rightarrow>
          if ToLower (uScheme u) \<noteq> ''http'' \<and> ToLower (uScheme u) \<noteq> ''https'' then Inl PlatformURLScheme
          else if uOpaque u \<noteq> [] \<or> uHost u = [] \<or> Hostname u = [] then Inl PlatformURLHost
          else if uHasUser u then Inl PlatformURLUser
          else if uForceQuery u \<or> uRawQuery u \<noteq> [] \<or> uFragment u \<noteq> [] then Inl PlatformURLQuery
          else let u' = u\<lparr>uScheme := ToLower (uScheme u)\<rparr> in
            (case canonicalOrigin u' of Inl e \<Rightarrow> Inl e | Inr _ \<Rightarrow> Inr u'))"

text \<open>The version prefix of the path: the root and the old version lead to the current one.\<close>

definition versioned_path :: "string \<Rightarrow> string" where
  "versioned_path path =
     (if path = [] \<or> path = ''/'' then ''/v2-beta''
      else if path = ''/v1'' then ''/v2-beta''
      else if HasPrefix path ''/v1/'' then ''/v2-beta/'' @ TrimPrefix path ''/v1/''
      else path)"

definition NewClient ::
    "(string \<Rightarrow> url option) \<Rightarrow> string \<Rightarrow> string \<Rightarrow> string \<Rightarrow> 'e platform_error + Client" where
  "NewClient parse rawURL accessKey secretKey =
     (if TrimSpace accessKey = [] then Inl AccessKeyRequired
      else if TrimSpace secretKey = [] then Inl SecretKeyRequired
      else case parsePlatformURL parse rawURL of
        Inl e \<Rightarrow> Inl e
      | Inr u \<Rightarrow>
          (let u' = u\<lparr>uPath := versioned_path (uPath u), uRawPath := []\<rparr> in
           case canonicalOrigin u' of
             Inl e \<Rightarrow> Inl e
           | Inr origin \<Rightarrow>
               Inr \<lparr>pc_baseURL = u', pc_origin = origin, pc_accessKey = accessKey, pc_secretKey = secretKey\<rparr>))"

subsection \<open>Requests\<close>

text \<open>The transport of the client: the check of the origin at the network boundary.\<close>

definition RoundTrip ::
    "('e, 'w) platform_stack \<Rightarrow> string \<Rightarrow> platform_request \<Rightarrow> 'w
       \<Rightarrow> ('e platform_error + 'e platform_response) \<times> 'w" where
  "RoundTrip k origin rq w =
     (if \<not> isValidRedirectURL (pk_Parse k) (pk_String k (pq_url rq)) origin
      then (Inl TransportRefused, w)
      else case pk_RoundTrip k rq w of
        (Inl e, w') \<Rightarrow> (Inl (PlatformRequestFailed e), w')
      | (Inr resp, w') \<Rightarrow> (Inr resp, w'))"

definition resource_path_ok :: "string \<Rightarrow> bool" where
  "resource_path_ok path =
     (HasPrefix path ''/'' \<and> \<not> HasPrefix path ''//''
      \<and> \<not> ContainsAny path [CHR 0x5C, CHR ''?'', CHR ''#'', CHR 0x0D, CHR 0x0A, CHR 0x09]
      \<and> Index path ''..'' = None)"

definition endpoint :: "Client \<Rightarrow> string \<Rightarrow> string \<Rightarrow> url" where
  "endpoint c resourcePath query =
     (pc_baseURL c)\<lparr>uPath := TrimRight (uPath (pc_baseURL c)) ''/'' @ resourcePath, uRawPath := [],
        uRawQuery := query, uFragment := []\<rparr>"

text \<open>\<open>io.ReadAll\<close> of an \<open>io.LimitReader\<close>, and the two checks of the answer.\<close>

definition platform_answer :: "'e platform_response \<Rightarrow> 'e platform_error option" where
  "platform_answer resp =
     (let n = platform_maxResponseSize + 1;
          body = (if n \<le> length (ps_body resp) then Inr (take n (ps_body resp))
                  else case ps_body_error resp of Some e \<Rightarrow> Inl e | None \<Rightarrow> Inr (ps_body resp))
      in case body of
           Inl e \<Rightarrow> Some (ReadPlatformResponse e)
         | Inr b \<Rightarrow>
             if platform_maxResponseSize < length b then Some PlatformResponseTooLarge
             else if 300 \<le> ps_status resp then Some (PlatformStatus (ps_status resp))
             else None)"

definition platform_header :: "('e, 'w) platform_stack \<Rightarrow> Client \<Rightarrow> string option \<Rightarrow> (string \<times> string) list" where
  "platform_header k c body =
     [(''Authorization'', pk_BasicAuth k (pc_accessKey c) (pc_secretKey c)), (''Accept'', ''application/json'')]
     @ (if body \<noteq> None then [(''Content-Type'', ''application/json'')] else [])"

definition request ::
    "('e, 'w) platform_stack \<Rightarrow> Client \<Rightarrow> string \<Rightarrow> string \<Rightarrow> string \<Rightarrow> string option \<Rightarrow> 'w
       \<Rightarrow> 'e platform_error option \<times> 'w" where
  "request k c meth resourcePath query body w =
     (if \<not> resource_path_ok resourcePath then (Some ResourcePathInvalid, w)
      else let requestURL = pk_String k (endpoint c resourcePath query) in
        if \<not> isValidRedirectURL (pk_Parse k) requestURL (pc_origin c) then (Some OriginNotAuthorized, w)
        else case pk_NewRequest k meth requestURL body of
          Inl e \<Rightarrow> (Some (CreatePlatformRequest e), w)
        | Inr u \<Rightarrow>
            (case RoundTrip k (pc_origin c)
                    \<lparr>pq_method = meth, pq_url = u, pq_header = platform_header k c body, pq_body = body\<rparr> w of
               (Inl e, w') \<Rightarrow> (Some e, w')
             | (Inr resp, w') \<Rightarrow> (platform_answer resp, w')))"

definition CreateExternalDNSEvent ::
    "('e, 'w) platform_stack \<Rightarrow> Client \<Rightarrow> ExternalDNSEvent \<Rightarrow> 'w \<Rightarrow> 'e platform_error option \<times> 'w" where
  "CreateExternalDNSEvent k c event w =
     (case pk_Marshal k event of
        Inl e \<Rightarrow> (Some (EncodeEvent e), w)
      | Inr body \<Rightarrow> request k c ''POST'' ''/externalDnsEvents'' [] (Some body) w)"

definition TestConnection ::
    "('e, 'w) platform_stack \<Rightarrow> Client \<Rightarrow> 'w \<Rightarrow> 'e platform_error option \<times> 'w" where
  "TestConnection k c w = request k c ''GET'' ''/externalDnsEvents'' ''limit=1'' None w"

subsection \<open>The wrapper\<close>

definition externalDNSUpdateEventType :: string where "externalDNSUpdateEventType = ''dns.update''"

definition newExternalDNSUpdateEvent :: "metadata_dns_record \<Rightarrow> ExternalDNSEvent" where
  "newExternalDNSUpdateEvent r =
     \<lparr>ev_EventType = externalDNSUpdateEventType, ev_ExternalID = d_fqdn (m_dns r),
      ev_ServiceName = m_service r, ev_StackName = m_stack r, ev_FQDN = UnFqdn (d_fqdn (m_dns r))\<rparr>"

definition NewPlatformClient ::
    "(string \<Rightarrow> url option) \<Rightarrow> string \<Rightarrow> string \<Rightarrow> string \<Rightarrow> 'e platform_error + Client" where
  "NewPlatformClient parse platformURL accessKey secretKey = NewClient parse platformURL accessKey secretKey"

definition UpdateServiceDomainName ::
    "('e, 'w) platform_stack \<Rightarrow> Client \<Rightarrow> metadata_dns_record \<Rightarrow> 'w \<Rightarrow> 'e platform_error option \<times> 'w" where
  "UpdateServiceDomainName k c r w = CreateExternalDNSEvent k c (newExternalDNSUpdateEvent r) w"

definition TestConnect ::
    "('e, 'w) platform_stack \<Rightarrow> Client \<Rightarrow> 'w \<Rightarrow> 'e platform_error option \<times> 'w" where
  "TestConnect k c w = TestConnection k c w"

subsection \<open>Lemmas\<close>

lemma isValidRedirectURL_iff:
  "isValidRedirectURL parse rawURL origin \<longleftrightarrow>
     (\<exists>u. parse rawURL = Some u \<and> \<not> uHasUser u \<and> uFragment u = []
        \<and> canonicalOrigin u = (Inr origin :: unit platform_error + string))"
  by (auto simp: isValidRedirectURL_def split: option.splits sum.splits)

lemma canonicalOrigin_port:
  assumes "canonicalOrigin u = Inr origin"
  shows "\<exists>scheme host port n. origin = scheme @ ''://'' @ JoinHostPort host port
    \<and> scheme \<in> {''http'', ''https''} \<and> host \<noteq> [] \<and> ToLower host = host
    \<and> ParseInt port 64 = Some n \<and> 1 \<le> n \<and> n \<le> 65535"
proof -
  let ?port = "if Port u = [] then if ToLower (uScheme u) = ''https'' then ''443'' else ''80'' else Port u"
  from assms obtain n where "ParseInt ?port 64 = Some n" "1 \<le> n" "n \<le> 65535"
    "origin = ToLower (uScheme u) @ ''://'' @ JoinHostPort (ToLower (TrimSuffix (Hostname u) ''.'')) ?port"
    "ToLower (uScheme u) \<in> {''http'', ''https''}" "ToLower (TrimSuffix (Hostname u) ''.'') \<noteq> []"
    by (auto simp: canonicalOrigin_def Let_def not_less split: if_splits option.splits)
  then show ?thesis
    by (intro exI [of _ "ToLower (uScheme u)"] exI [of _ "ToLower (TrimSuffix (Hostname u) ''.'')"]
        exI [of _ ?port] exI [of _ n]) simp
qed

lemma request_network:
  assumes "request k c meth path query body w = (res, w')"
  obtains (refused) "w' = w" "res \<noteq> None"
  | (sent) u r where
      "isValidRedirectURL (pk_Parse k) (pk_String k u) (pc_origin c)"
      "pk_RoundTrip k \<lparr>pq_method = meth, pq_url = u, pq_header = platform_header k c body, pq_body = body\<rparr> w = (r, w')"
      "res = None \<longleftrightarrow> (\<exists>resp. r = Inr resp \<and> platform_answer resp = None)"
  using assms
  by (auto simp: request_def RoundTrip_def Let_def split: if_splits sum.splits prod.splits)

lemma platform_answer_None:
  "platform_answer resp = None \<longleftrightarrow>
     ps_status resp < 300 \<and> length (ps_body resp) \<le> platform_maxResponseSize \<and> ps_body_error resp = None"
  by (auto simp: platform_answer_def Let_def not_le split: if_splits option.splits)

lemma canonicalOrigin_cong:
  "ToLower (uScheme u) = ToLower (uScheme v) \<Longrightarrow> uHost u = uHost v \<Longrightarrow> canonicalOrigin u = canonicalOrigin v"
  unfolding canonicalOrigin_def Hostname_def Port_def by (simp only:)

lemma canonicalOrigin_Inr_type:
  "canonicalOrigin u = (Inr o1 :: 'a platform_error + string) \<Longrightarrow>
     canonicalOrigin u = (Inr o1 :: 'b platform_error + string)"
  by (auto simp: canonicalOrigin_def Let_def split: if_splits option.splits)

lemma parsePlatformURL_Inr:
  assumes "parsePlatformURL parse rawURL = Inr u"
  shows "\<exists>u0. parse rawURL = Some u0 \<and> \<not> uHasUser u0 \<and> uFragment u0 = [] \<and> uRawQuery u0 = []
    \<and> u = u0\<lparr>uScheme := ToLower (uScheme u0)\<rparr>"
  using assms by (auto simp: parsePlatformURL_def Let_def split: if_splits option.splits sum.splits)

lemma NewClient_Inr:
  assumes "NewClient parse rawURL accessKey secretKey = (Inr c :: 'e platform_error + Client)"
  shows "\<exists>u0. parse rawURL = Some u0 \<and> \<not> uHasUser u0 \<and> uFragment u0 = [] \<and> uRawQuery u0 = []
    \<and> canonicalOrigin u0 = (Inr (pc_origin c) :: 'e platform_error + string)"
proof -
  from assms obtain u where u: "parsePlatformURL parse rawURL = (Inr u :: 'e platform_error + url)"
    and o1: "canonicalOrigin (u\<lparr>uPath := versioned_path (uPath u), uRawPath := []\<rparr>) = (Inr (pc_origin c) :: 'e platform_error + string)"
    by (auto simp: NewClient_def Let_def split: if_splits sum.splits)
  from parsePlatformURL_Inr [OF u] obtain u0 where u0: "parse rawURL = Some u0" "\<not> uHasUser u0" "uFragment u0 = []"
    "uRawQuery u0 = []" "u = u0\<lparr>uScheme := ToLower (uScheme u0)\<rparr>" by blast
  moreover have "canonicalOrigin u0 = (canonicalOrigin (u\<lparr>uPath := versioned_path (uPath u), uRawPath := []\<rparr>)
      :: 'e platform_error + string)" by (rule canonicalOrigin_cong) (simp_all add: u0(5))
  moreover note o1
  ultimately show ?thesis by metis
qed

end
