(* ===== verification/Example_Platform.thy ===== *)
theory Example_Platform
  imports Platform_API
begin

text \<open>
  A platform API for the concrete runs of the properties: a parser that knows two URLs, a printer
  for URLs without user information, and a network that counts the requests it gets.
\<close>

definition ex_base :: url where
  "ex_base = \<lparr>uScheme = ''HTTP'', uOpaque = [], uHasUser = False, uHost = ''P.example.:80'', uPath = ''/v1'',
     uRawPath = [], uForceQuery = False, uRawQuery = [], uFragment = []\<rparr>"

definition ex_endpoint :: url where
  "ex_endpoint = ex_base\<lparr>uScheme := ''http'', uPath := ''/v2-beta/externalDnsEvents'', uRawQuery := ''limit=1''\<rparr>"

definition ex_String :: "url \<Rightarrow> string" where
  "ex_String u = uScheme u @ ''://'' @ uHost u @ uPath u @ (if uRawQuery u = [] then [] else ''?'' @ uRawQuery u)"

definition ex_Parse :: "string \<Rightarrow> url option" where
  "ex_Parse s = (if s = ''HTTP://P.example.:80/v1'' then Some ex_base
     else if s = ''http://P.example.:80/v2-beta/externalDnsEvents?limit=1'' then Some ex_endpoint else None)"

definition ex_network :: "(string, nat) platform_stack" where
  "ex_network = \<lparr>pk_Parse = ex_Parse, pk_String = ex_String,
     pk_NewRequest = (\<lambda>_ s _. case ex_Parse s of None \<Rightarrow> Inl ''parse'' | Some u \<Rightarrow> Inr u),
     pk_BasicAuth = (\<lambda>u p. ''Basic '' @ u @ '':'' @ p), pk_Marshal = (\<lambda>_. Inr ''{}''),
     pk_RoundTrip = (\<lambda>_ n. (Inr \<lparr>ps_status = 200, ps_body = ''{}'', ps_body_error = None\<rparr>, Suc n))\<rparr>"

definition ex_platform :: Client where
  "ex_platform = \<lparr>pc_baseURL = ex_base\<lparr>uScheme := ''http'', uPath := ''/v2-beta''\<rparr>,
     pc_origin = ''http://p.example:80'', pc_accessKey = ''a'', pc_secretKey = ''s''\<rparr>"

lemma ex_platform_new:
  "NewClient ex_Parse ''HTTP://P.example.:80/v1'' ''a'' ''s'' = (Inr ex_platform :: string platform_error + Client)"
  by code_simp

lemma ex_platform_test: "TestConnection ex_network ex_platform n = (None, Suc n)"
proof -
  have valid: "isValidRedirectURL ex_Parse (ex_String ex_endpoint) ''http://p.example:80''"
    and path: "resource_path_ok ''/externalDnsEvents''" by code_simp+
  have ep: "endpoint ex_platform ''/externalDnsEvents'' ''limit=1'' = ex_endpoint" by code_simp
  have parse: "ex_Parse (ex_String ex_endpoint) = Some ex_endpoint" by code_simp
  have origin: "pc_origin ex_platform = ''http://p.example:80''" by (simp add: ex_platform_def)
  show ?thesis
    using valid path ep parse origin
    by (simp add: TestConnection_def request_def RoundTrip_def ex_network_def platform_answer_None Let_def
        platform_maxResponseSize_def)
qed

end
