(* ===== verification/Filepath.thy ===== *)
theory Filepath
  imports Prelude
begin

text \<open>
  The lexical part of \<open>path/filepath\<close> on Unix that src/providers/infoblox/infoblox.go uses: \<open>Clean\<close>,
  \<open>IsAbs\<close>, \<open>Rel\<close> and \<open>IsLocal\<close>. A path is handled as the list of its parts between slashes. The lemmas
  describe cleaned paths: some steps up, then names.
\<close>

definition slash :: char where "slash = CHR ''/''"

subsection \<open>Operations\<close>

text \<open>The parts of a cleaned path; the stack has the parts so far in reverse order.\<close>

fun clean_parts :: "bool \<Rightarrow> string list \<Rightarrow> string list \<Rightarrow> string list" where
  "clean_parts rooted st [] = rev st"
| "clean_parts rooted st (p # ps) =
     (if p = [] \<or> p = ''.'' then clean_parts rooted st ps
      else if p = ''..'' then
        (case st of
           [] \<Rightarrow> clean_parts rooted (if rooted then [] else [''..'']) ps
         | s # st' \<Rightarrow> if s = ''..'' then clean_parts rooted (''..'' # st) ps else clean_parts rooted st' ps)
      else clean_parts rooted (p # st) ps)"

definition IsAbs :: "string \<Rightarrow> bool" where
  "IsAbs path = HasPrefix path [slash]"

definition parts_of :: "string \<Rightarrow> string list" where
  "parts_of path = clean_parts (IsAbs path) [] (Split path slash)"

definition Clean :: "string \<Rightarrow> string" where
  "Clean path =
     (if IsAbs path then slash # Join (parts_of path) [slash]
      else if parts_of path = [] then ''.'' else Join (parts_of path) [slash])"

text \<open>The elements that the loop of \<open>Rel\<close> compares: a rooted path begins with an empty one.\<close>

definition rel_elements :: "string \<Rightarrow> string list" where
  "rel_elements path = (if path = [] then [] else if path = [slash] then [[]] else Split path slash)"

fun drop_common :: "'a list \<Rightarrow> 'a list \<Rightarrow> 'a list \<times> 'a list" where
  "drop_common (x # xs) (y # ys) = (if x = y then drop_common xs ys else (x # xs, y # ys))"
| "drop_common xs ys = (xs, ys)"

definition Rel :: "string \<Rightarrow> string \<Rightarrow> string option" where
  "Rel basepath targpath =
     (let targ = Clean targpath; base = Clean basepath in
      if targ = base then Some ''.''
      else
        let base = (if base = ''.'' then [] else base) in
        if IsAbs base \<noteq> IsAbs targ then None
        else case drop_common (rel_elements base) (rel_elements targ) of
               (bs, ts) \<Rightarrow>
                 if bs \<noteq> [] \<and> ts \<noteq> [] \<and> hd bs = ''..'' then None
                 else Some (Join (replicate (length bs) ''..'' @ ts) [slash]))"

definition IsLocal :: "string \<Rightarrow> bool" where
  "IsLocal path =
     (if IsAbs path \<or> path = [] then False
      else
        let path = (if list_ex (\<lambda>part. part = ''.'' \<or> part = ''..'') (Split path slash) then Clean path else path)
        in \<not> (path = ''..'' \<or> HasPrefix path (''..'' @ [slash])))"

subsection \<open>Lemmas\<close>

text \<open>A part that names a file or a directory below.\<close>

definition plain_part :: "string \<Rightarrow> bool" where
  "plain_part p = (p \<notin> {[], ''.'', ''..''} \<and> slash \<notin> set p)"

lemma plain_partD: "plain_part p \<Longrightarrow> p \<noteq> [] \<and> p \<noteq> ''.'' \<and> p \<noteq> ''..'' \<and> slash \<notin> set p"
  by (simp add: plain_part_def)

definition clean_form :: "bool \<Rightarrow> string list \<Rightarrow> bool" where
  "clean_form rooted ps = (\<exists>k qs. ps = replicate k ''..'' @ qs \<and> list_all plain_part qs \<and> (rooted \<longrightarrow> k = 0))"

lemma clean_parts_form:
  assumes "clean_form rooted (rev st)" and "list_all (\<lambda>p. slash \<notin> set p) ps"
  shows "clean_form rooted (clean_parts rooted st ps)"
  using assms
proof (induction rooted st ps rule: clean_parts.induct)
  case (2 rooted st p ps)
  from "2.prems"(1) obtain k qs where st: "rev st = replicate k ''..'' @ qs" "list_all plain_part qs" "rooted \<longrightarrow> k = 0"
    by (auto simp: clean_form_def)
  have push: "clean_form rooted (rev (p # st))" if "p \<notin> {[], ''.'', ''..''}"
  proof -
    have "rev (p # st) = replicate k ''..'' @ (qs @ [p])" "list_all plain_part (qs @ [p])"
      using st that "2.prems"(2) by (auto simp: plain_part_def)
    with st(3) show ?thesis unfolding clean_form_def by blast
  qed
  have pop: "clean_form rooted (rev st')" if "st = s # st'" "s \<noteq> ''..''" for s st'
  proof -
    have "qs \<noteq> []"
    proof
      assume "qs = []"
      with st(1) have "set (rev st) \<subseteq> {''..''}" by (auto simp: set_replicate_conv_if)
      with that show False by simp
    qed
    then have "rev st' = replicate k ''..'' @ butlast qs" using st(1) that by (metis butlast_append butlast_snoc rev.simps(2))
    moreover have "list_all plain_part (butlast qs)" using st(2) by (auto simp: list_all_iff dest: in_set_butlastD)
    ultimately show ?thesis using st(3) unfolding clean_form_def by blast
  qed
  have up: "clean_form rooted (rev (''..'' # st))" if "st = ''..'' # st'" for st'
  proof -
    have "''..'' = last (rev st)" using that by simp
    then have "qs = []" using st(1,2) that by (cases qs rule: rev_cases) (auto simp: plain_part_def)
    then have "rev (''..'' # st) = replicate (Suc k) ''..'' @ []" using st(1) by (simp add: replicate_append_same)
    moreover have "\<not> rooted" using st that \<open>qs = []\<close> by auto
    ultimately show ?thesis unfolding clean_form_def by (intro exI [of _ "Suc k"] exI [of _ "[]"]) simp
  qed
  have empty: "clean_form rooted (rev (if rooted then [] else [''..'']))"
    unfolding clean_form_def by (cases rooted) (auto intro: exI [of _ "0::nat"] exI [of _ "Suc 0"])
  have ps: "list_all (\<lambda>p. slash \<notin> set p) ps" using "2.prems"(2) by simp
  consider "p = [] \<or> p = ''.''" | "p = ''..''" "st = []" | st' where "p = ''..''" "st = ''..'' # st'"
    | s st' where "p = ''..''" "st = s # st'" "s \<noteq> ''..''" | "p \<notin> {[], ''.'', ''..''}" by (cases st) auto
  then show ?case
  proof cases
    case 1
    then show ?thesis using "2.IH"(1) "2.prems"(1) ps by simp
  next
    case 2
    then show ?thesis using "2.IH"(2) empty ps by simp
  next
    case 3
    then show ?thesis using "2.IH"(3) up ps by simp
  next
    case 4
    then show ?thesis using "2.IH"(4) pop ps by simp
  next
    case 5
    then show ?thesis using "2.IH"(5) push ps by simp
  qed
qed simp

lemma Split_parts: "list_all (\<lambda>p. slash \<notin> set p) (Split path slash)"
  using Split_no_sep by (auto simp: list_all_iff)

lemma parts_form: "clean_form (IsAbs path) (parts_of path)"
  unfolding parts_of_def by (rule clean_parts_form) (auto simp: clean_form_def Split_parts)

lemma parts_rooted: "IsAbs path \<Longrightarrow> list_all plain_part (parts_of path)"
  using parts_form [of path] by (auto simp: clean_form_def)

lemma clean_form_no_slash: "clean_form rooted ps \<Longrightarrow> list_all (\<lambda>p. slash \<notin> set p) ps"
proof -
  assume "clean_form rooted ps"
  then obtain k qs where ps: "ps = replicate k ''..'' @ qs" "list_all plain_part qs" unfolding clean_form_def by blast
  have "slash \<notin> set ''..''" by (simp add: slash_def)
  moreover have "list_all (\<lambda>p. slash \<notin> set p) qs" using ps(2) by (auto simp: list_all_iff plain_part_def)
  ultimately show ?thesis by (auto simp: ps(1) list_all_iff)
qed

lemma clean_parts_plain: "list_all plain_part qs \<Longrightarrow> clean_parts rooted st qs = rev st @ qs"
proof (induction qs arbitrary: st)
  case (Cons q qs)
  then show ?case using plain_partD [of q] by simp
qed simp

lemma clean_parts_fixed:
  "list_all plain_part qs \<Longrightarrow> set st \<subseteq> {''..''} \<or> j = 0 \<Longrightarrow>
     clean_parts False st (replicate j ''..'' @ qs) = rev st @ replicate j ''..'' @ qs"
proof (induction j arbitrary: st)
  case 0
  then show ?case by (simp add: clean_parts_plain)
next
  case (Suc j)
  then have "set st \<subseteq> {''..''}" by simp
  then show ?case using Suc.IH [of "''..'' # st"] Suc.prems(1)
    by (cases st) (simp_all add: replicate_app_Cons_same)
qed

lemma Join_parts:
  assumes "clean_form False ps" and "ps \<noteq> []"
  shows "Split (Join ps [slash]) slash = ps" and "Join ps [slash] \<noteq> []" and "\<not> IsAbs (Join ps [slash])"
    and "parts_of (Join ps [slash]) = ps" and "Clean (Join ps [slash]) = Join ps [slash]"
proof -
  show split: "Split (Join ps [slash]) slash = ps"
    using assms by (intro Split_Join clean_form_no_slash)
  from assms obtain k qs where ps: "ps = replicate k ''..'' @ qs" "list_all plain_part qs" by (auto simp: clean_form_def)
  have hd: "hd ps \<noteq> []" using ps assms(2) by (cases k; cases qs) (auto dest: plain_partD)
  obtain p rest where "ps = p # rest" "p \<noteq> []" using hd assms(2) by (cases ps) auto
  then have join: "Join ps [slash] \<noteq> [] \<and> hd (Join ps [slash]) = hd p" by (cases rest) auto
  then show "Join ps [slash] \<noteq> []" by blast
  have "hd p \<noteq> slash" using clean_form_no_slash [OF assms(1)] \<open>ps = p # rest\<close> \<open>p \<noteq> []\<close> by (cases p) auto
  with join show abs: "\<not> IsAbs (Join ps [slash])" by (cases "Join ps [slash]") (auto simp: IsAbs_def HasPrefix_def)
  show parts: "parts_of (Join ps [slash]) = ps"
    unfolding parts_of_def split using abs clean_parts_fixed [OF ps(2), of "[]" k] ps(1) by simp
  show "Clean (Join ps [slash]) = Join ps [slash]" using abs parts assms(2) by (simp add: Clean_def)
qed

text \<open>A relative path in clean form is local when it takes no step up.\<close>

lemma IsLocal_clean:
  assumes "clean_form False ps" and "ps \<noteq> []"
  shows "IsLocal (Join ps [slash]) \<longleftrightarrow> list_all plain_part ps"
proof -
  note J = Join_parts [OF assms]
  from assms(1) obtain k qs where ps: "ps = replicate k ''..'' @ qs" "list_all plain_part qs" by (auto simp: clean_form_def)
  have "IsLocal (Join ps [slash]) \<longleftrightarrow> \<not> (Join ps [slash] = ''..'' \<or> HasPrefix (Join ps [slash]) (''..'' @ [slash]))"
    using J by (simp add: IsLocal_def Let_def)
  also have "\<dots> \<longleftrightarrow> hd ps \<noteq> ''..''"
  proof -
    obtain p rest where p: "ps = p # rest" using assms(2) by (cases ps) auto
    have noslash: "slash \<notin> set p" using clean_form_no_slash [OF assms(1)] p by simp
    show ?thesis
    proof (cases rest)
      case Nil
      have "\<not> HasPrefix p (''..'' @ [slash])" using noslash by (simp add: HasPrefix_def) (metis in_set_takeD list.set_intros)
      with Nil p show ?thesis by simp
    next
      case (Cons r rest')
      then have join: "Join ps [slash] = p @ slash # Join rest [slash]" using p by simp
      have "HasPrefix (p @ slash # x) (''..'' @ [slash]) \<longleftrightarrow> p = ''..''" for x
        using noslash by (cases p; cases "tl p"; cases "tl (tl p)") (auto simp: HasPrefix_def slash_def)
      moreover have "p @ slash # x \<noteq> ''..''" for x
        by (auto simp: slash_def dest: arg_cong [of _ _ set])
      ultimately show ?thesis using join p by simp
    qed
  qed
  also have "\<dots> \<longleftrightarrow> list_all plain_part ps"
    using ps assms(2) by (cases k; cases qs) (auto dest: plain_partD simp: plain_part_def)
  finally show ?thesis .
qed

lemma Clean_relative:
  assumes "\<not> IsAbs path"
  shows "\<not> IsAbs (Clean path) \<and> parts_of (Clean path) = parts_of path"
proof (cases "parts_of path = []")
  case True
  then show ?thesis using assms by (simp add: Clean_def parts_of_def [of "''.''"] IsAbs_def HasPrefix_def slash_def)
next
  case False
  with assms Join_parts [of "parts_of path"] parts_form [of path] show ?thesis by (simp add: Clean_def)
qed

lemma rel_elements_rooted:
  assumes "list_all plain_part ps"
  shows "rel_elements (slash # Join ps [slash]) = [] # ps"
proof (cases ps)
  case Nil
  then show ?thesis by (simp add: rel_elements_def)
next
  case (Cons p rest)
  have "list_all (\<lambda>p. slash \<notin> set p) ps" using assms by (auto simp: list_all_iff plain_part_def)
  then have "Split (Join ps [slash]) slash = ps" using Cons by (intro Split_Join) auto
  moreover have "Join ps [slash] \<noteq> []" using assms Cons by (cases rest) (auto dest: plain_partD)
  ultimately show ?thesis by (simp add: rel_elements_def)
qed

lemma Clean_rooted:
  assumes "IsAbs path"
  shows "Clean path = slash # Join (parts_of path) [slash]" and "IsAbs (Clean path)" and "parts_of (Clean path) = parts_of path"
    and "rel_elements (Clean path) = [] # parts_of path"
proof -
  show clean: "Clean path = slash # Join (parts_of path) [slash]" using assms by (simp add: Clean_def)
  then show abs: "IsAbs (Clean path)" by (simp add: IsAbs_def HasPrefix_def)
  show elements: "rel_elements (Clean path) = [] # parts_of path"
    using clean rel_elements_rooted [OF parts_rooted [OF assms]] by simp
  have "clean_parts True [] (Split (Clean path) slash) = clean_parts True [] (rel_elements (Clean path))"
    using clean by (auto simp: rel_elements_def)
  then show "parts_of (Clean path) = parts_of path"
    using abs elements clean_parts_plain [OF parts_rooted [OF assms]] by (simp add: parts_of_def [of "Clean path"])
qed

lemma Clean_Clean: "Clean (Clean path) = Clean path"
proof -
  have same: "IsAbs (Clean path) = IsAbs path" "parts_of (Clean path) = parts_of path"
    using Clean_rooted(2,3) [of path] Clean_relative [of path] by blast+
  show ?thesis unfolding Clean_def [of "Clean path"] same by (rule Clean_def [symmetric])
qed

lemma drop_common_split: "drop_common xs ys = (xs', ys') \<Longrightarrow> \<exists>zs. xs = zs @ xs' \<and> ys = zs @ ys'"
proof (induction xs ys rule: drop_common.induct)
  case (1 x xs y ys)
  show ?case
  proof (cases "x = y")
    case True
    with 1 obtain zs where "xs = zs @ xs'" "ys = zs @ ys'" by auto
    with True show ?thesis by (intro exI [of _ "x # zs"]) simp
  qed (use 1 in auto)
qed auto

lemma drop_common_prefix: "drop_common xs (xs @ ys) = ([], ys)"
  by (induction xs) auto

text \<open>Between rooted paths: the target below the base has its remaining names, any other has a step
  up first.\<close>

lemma Rel_rooted:
  assumes "IsAbs base" and "IsAbs targ" and "parts_of targ \<noteq> parts_of base"
  shows "\<exists>k rest. Rel base targ = Some (Join (replicate k ''..'' @ rest) [slash]) \<and> list_all plain_part rest
    \<and> (\<forall>below. parts_of targ = parts_of base @ below \<longleftrightarrow> k = 0 \<and> below = rest) \<and> replicate k ''..'' @ rest \<noteq> []"
proof -
  obtain bs ts where drop: "drop_common (parts_of base) (parts_of targ) = (bs, ts)" by fastforce
  from drop_common_split [OF this] obtain zs where zs: "parts_of base = zs @ bs" "parts_of targ = zs @ ts" by blast
  have plain: "list_all plain_part bs" "list_all plain_part ts"
    using parts_rooted [OF assms(1)] parts_rooted [OF assms(2)] zs by simp_all
  have "Clean targ \<noteq> Clean base" using assms Clean_rooted(3) by metis
  moreover have "Clean base \<noteq> ''.''" using Clean_rooted(1) [OF assms(1)] by (simp add: slash_def)
  moreover have "drop_common (rel_elements (Clean base)) (rel_elements (Clean targ)) = (bs, ts)"
    using drop Clean_rooted(4) [OF assms(1)] Clean_rooted(4) [OF assms(2)] by simp
  moreover have "\<not> (bs \<noteq> [] \<and> hd bs = ''..'')" using plain(1) by (cases bs) (auto dest: plain_partD)
  ultimately have "Rel base targ = Some (Join (replicate (length bs) ''..'' @ ts) [slash])"
    using Clean_rooted(2) [OF assms(1)] Clean_rooted(2) [OF assms(2)] by (auto simp: Rel_def Let_def)
  moreover have "parts_of targ = parts_of base @ below \<longleftrightarrow> length bs = 0 \<and> below = ts" for below
    using zs drop drop_common_prefix [of "parts_of base" below] by auto
  moreover have "replicate (length bs) ''..'' @ ts \<noteq> []" using zs assms(3) by auto
  ultimately show ?thesis using plain(2) by blast
qed

end
