(* ===== verification/Startup.thy ===== *)
theory Startup
  imports Example_Run Example_Platform Filepath
begin

text \<open>
  How the program starts and how the health check is served (src/main.go, \<open>setEnv\<close> and the beginning
  of \<open>main\<close>; src/healthcheck.go, \<open>startHealthCheck\<close>). The command line, the environment variables, the
  network, the registered providers and the state of the provider are arguments; every call of
  \<open>logrus.Fatalf\<close>, and an exit of the flag package, is an \<open>abort\<close>. The settings of the logger other than
  the opening of its file are left out.

  The router of the health check is the one of \<open>gorilla/mux\<close>: a path that is not clean is redirected,
  then the routes are tried in order, each with its path before its methods.
\<close>

subsection \<open>Flags\<close>

record flags =
  fl_provider :: string
  fl_debug :: bool
  fl_logFile :: string

definition default_flags :: flags where
  "default_flags = \<lparr>fl_provider = ''route53'', fl_debug = False, fl_logFile = []\<rparr>"

text \<open>The name of a flag and the value behind the equals sign.\<close>

definition flag_value :: "string \<Rightarrow> string \<times> string option" where
  "flag_value s =
     (let name = takeWhile (\<lambda>c. c \<noteq> CHR ''='') s in
      (name, if CHR ''='' \<in> set s then Some (drop (length name + 1) s) else None))"

definition set_flag :: "string \<Rightarrow> string \<Rightarrow> flags \<Rightarrow> flags" where
  "set_flag name v fl = (if name = ''provider'' then fl\<lparr>fl_provider := v\<rparr> else fl\<lparr>fl_logFile := v\<rparr>)"

text \<open>\<open>flag.Parse\<close> for these flags: it stops at the first argument that is none, and ends the process
  when an argument is wrong.\<close>

fun flag_Parse :: "string list \<Rightarrow> flags \<Rightarrow> abort + flags" where
  "flag_Parse [] fl = Inr fl"
| "flag_Parse (s # args) fl =
     (if length s < 2 \<or> hd s \<noteq> CHR ''-'' \<or> s = ''--'' then Inr fl
      else
        let name = (if s ! 1 = CHR ''-'' then drop 2 s else drop 1 s) in
        if name = [] \<or> hd name = CHR ''-'' \<or> hd name = CHR ''='' then Inl (Fatal ''bad flag syntax'')
        else case flag_value name of
          (name, value) \<Rightarrow>
            if name = ''debug'' then
              (case (case value of None \<Rightarrow> Some True | Some v \<Rightarrow> ParseBool v) of
                 None \<Rightarrow> Inl (Fatal ''invalid boolean value'')
               | Some b \<Rightarrow> flag_Parse args (fl\<lparr>fl_debug := b\<rparr>))
            else if name = ''provider'' \<or> name = ''log'' then
              (case value of
                 Some v \<Rightarrow> flag_Parse args (set_flag name v fl)
               | None \<Rightarrow>
                   (case args of
                      [] \<Rightarrow> Inl (Fatal ''flag needs an argument'')
                    | v # args' \<Rightarrow> flag_Parse args' (set_flag name v fl)))
            else if name = ''help'' \<or> name = ''h'' then Inl (Fatal ''help requested'')
            else Inl (Fatal ''flag provided but not defined''))"

declare flag_Parse.simps [simp del]

subsection \<open>The start\<close>

text \<open>The package variables that \<open>setEnv\<close> sets.\<close>

record ('pe, 'p, 'e, 'w) program =
  pr_config :: config
  pr_m :: "('e md_error, 'w) MetadataClient"
  pr_platformAPI :: Client
  pr_provider :: "('pe, 'p) provider"

definition setEnv ::
    "string list \<Rightarrow> env \<Rightarrow> (string \<Rightarrow> 'w \<Rightarrow> 'oe option \<times> 'w) \<Rightarrow> ('e, 'w) http \<Rightarrow> 'e decoders \<Rightarrow> (string \<Rightarrow> url option)
       \<Rightarrow> ('pe, 'p) provider gomap \<Rightarrow> 'p \<Rightarrow> 'w \<Rightarrow> (abort + ('pe, 'p, 'e, 'w) program) \<times> 'p \<times> 'w" where
  "setEnv args env OpenFile h dec parse providers p w =
     (case flag_Parse args default_flags of
        Inl a \<Rightarrow> (Inl a, p, w)
      | Inr fl \<Rightarrow>
          (case (if fl_logFile fl \<noteq> [] then OpenFile (fl_logFile fl) w else (None, w)) of
             (Some _, w1) \<Rightarrow> (Inl (Fatal ''Failed to log to file''), p, w1)
           | (None, w1) \<Rightarrow>
               (case SetFromEnvironment env of
                  Inl a \<Rightarrow> (Inl a, p, w1)
                | Inr cfg \<Rightarrow>
                    (case NewMetadataClient h dec parse cfg w1 of
                       (Inl _, w2) \<Rightarrow> (Inl (Fatal ''Failed to configure metadata client''), p, w2)
                     | (Inr m, w2) \<Rightarrow>
                         (case (NewPlatformClient parse (PlatformURL cfg) (PlatformAccessKey cfg) (PlatformSecretKey cfg)
                                  :: unit platform_error + Client) of
                            Inl _ \<Rightarrow> (Inl (Fatal ''Failed to configure platform API client''), p, w2)
                          | Inr platformAPI \<Rightarrow>
                              (case GetProvider (fl_provider fl) (RootDomainName cfg) providers p of
                                 (Inl _, p1) \<Rightarrow> (Inl (Fatal ''Failed to get provider''), p1, w2)
                               | (Inr provider, p1) \<Rightarrow>
                                   (Inr \<lparr>pr_config = cfg, pr_m = m, pr_platformAPI = platformAPI, pr_provider = provider\<rparr>,
                                    p1, w2)))))))"

text \<open>What the loop uses of them.\<close>

definition loop_surroundings ::
    "('ke, 'w) platform_stack \<Rightarrow> ('w \<Rightarrow> int) \<Rightarrow> (nat \<Rightarrow> 'w \<Rightarrow> 'w) \<Rightarrow> ('pe, 'p, 'e, 'w) program
       \<Rightarrow> ('pe, 'p, 'w) surroundings" where
  "loop_surroundings k now sleep pr =
     \<lparr>su_config = pr_config pr, su_provider = pr_provider pr,
      su_UpdateServiceDomainName = (\<lambda>mRec w.
        case UpdateServiceDomainName k (pr_platformAPI pr) mRec w of (err, w') \<Rightarrow> (err = None, w')),
      su_Now = now, su_Sleep = sleep\<rparr>"

text \<open>\<open>main\<close> up to its loop: the surroundings of the loop, and the process that enters it.\<close>

definition main_start ::
    "string list \<Rightarrow> env \<Rightarrow> (string \<Rightarrow> 'w \<Rightarrow> 'oe option \<times> 'w) \<Rightarrow> ('e, 'w) http \<Rightarrow> 'e decoders \<Rightarrow> ('ke, 'w) platform_stack
       \<Rightarrow> ('w \<Rightarrow> int) \<Rightarrow> ('pe, 'p) provider gomap \<Rightarrow> 'p \<Rightarrow> 'w
       \<Rightarrow> abort + ('pe, 'p, 'w) surroundings \<times> ('e md_error, 'p, 'w) process" where
  "main_start args env OpenFile h dec k now providers p w =
     (case setEnv args env OpenFile h dec (pk_Parse k) providers p w of
        (Inl a, _) \<Rightarrow> Inl a
      | (Inr pr, p1, w1) \<Rightarrow>
          (let su = loop_surroundings k now (h_Sleep h) pr in
           case start su (pr_m pr) p1 w1 of Inl a \<Rightarrow> Inl a | Inr s \<Rightarrow> Inr (su, s)))"

subsection \<open>Serving the health check\<close>

text \<open>A route: its path and its methods.\<close>

type_synonym route = "string \<times> string list"

record server =
  sv_Addr :: string
  sv_Handler :: "route list"
  sv_ReadHeaderTimeout :: nat
  sv_ReadTimeout :: nat
  sv_WriteTimeout :: nat
  sv_IdleTimeout :: nat

definition health_server :: "config \<Rightarrow> server" where
  "health_server cfg =
     \<lparr>sv_Addr = HealthAddress cfg, sv_Handler = [(''/'', [''GET'', ''HEAD'']), (''/ping'', [''GET'', ''HEAD''])],
      sv_ReadHeaderTimeout = 5, sv_ReadTimeout = 10, sv_WriteTimeout = 10, sv_IdleTimeout = 30\<rparr>"

text \<open>\<open>cleanPath\<close> and \<open>Match\<close> of the router; the flag says that a path matched and its methods did not.\<close>

definition cleanPath :: "string \<Rightarrow> string" where
  "cleanPath p =
     (if p = [] then ''/''
      else
        let p = (if hd p \<noteq> CHR ''/'' then CHR ''/'' # p else p); np = Clean p in
        if last p = CHR ''/'' \<and> np \<noteq> ''/'' then np @ ''/'' else np)"

fun mux_Match :: "route list \<Rightarrow> string \<Rightarrow> string \<Rightarrow> bool \<Rightarrow> bool \<times> bool" where
  "mux_Match [] path meth mismatch = (False, mismatch)"
| "mux_Match ((p, ms) # routes) path meth mismatch =
     (if path \<noteq> p then mux_Match routes path meth mismatch
      else if meth \<notin> set ms then mux_Match routes path meth True
      else (True, False))"

definition serve ::
    "server \<Rightarrow> (string \<Rightarrow> 'p \<Rightarrow> 'w \<Rightarrow> http_answer \<times> 'p \<times> 'w) \<Rightarrow> string \<Rightarrow> string \<Rightarrow> 'p \<Rightarrow> 'w \<Rightarrow> http_answer \<times> 'p \<times> 'w" where
  "serve sv handler meth path p w =
     (if cleanPath path \<noteq> path then (\<lparr>ha_status = 301, ha_body = []\<rparr>, p, w)
      else case mux_Match (sv_Handler sv) path meth False of
             (True, _) \<Rightarrow> handler meth p w
           | (False, True) \<Rightarrow> (\<lparr>ha_status = 405, ha_body = []\<rparr>, p, w)
           | (False, False) \<Rightarrow> (\<lparr>ha_status = 404, ha_body = ''404 page not found'' @ [CHR 0x0A]\<rparr>, p, w))"

text \<open>The answer to a request that the health server gets.\<close>

definition startHealthCheck ::
    "config \<Rightarrow> ('pe, 'p) provider \<Rightarrow> ('w \<Rightarrow> 'te option \<times> 'w) \<Rightarrow> ('e, 'w) MetadataClient \<Rightarrow> string \<Rightarrow> string \<Rightarrow> 'p \<Rightarrow> 'w
       \<Rightarrow> http_answer \<times> 'p \<times> 'w" where
  "startHealthCheck cfg P testConnect m meth path p w =
     serve (health_server cfg) (healthCheck P testConnect m) meth path p w"

subsection \<open>Lemmas\<close>

lemma setEnv_Inr:
  assumes "setEnv args env OpenFile h dec parse providers p w = (Inr pr, p1, w1)"
  obtains fl w0 where "flag_Parse args default_flags = Inr fl" and "SetFromEnvironment env = Inr (pr_config pr)"
    and "NewMetadataClient h dec parse (pr_config pr) w0 = (Inr (pr_m pr), w1)"
    and "map_of providers (fl_provider fl) = Some (pr_provider pr)"
    and "pInit (pr_provider pr) (RootDomainName (pr_config pr)) p = (None, p1)"
    and "(NewPlatformClient parse (PlatformURL (pr_config pr)) (PlatformAccessKey (pr_config pr)) (PlatformSecretKey (pr_config pr))
      :: unit platform_error + Client) = Inr (pr_platformAPI pr)"
proof -
  obtain fl where fl: "flag_Parse args default_flags = Inr fl" using assms by (auto simp: setEnv_def split: sum.splits)
  obtain e w0 where opened: "(if fl_logFile fl \<noteq> [] then OpenFile (fl_logFile fl) w else (None, w)) = (e, w0)" by fastforce
  obtain cfg where cfg: "SetFromEnvironment env = Inr cfg"
    using assms fl opened by (auto simp: setEnv_def split: sum.splits option.splits)
  obtain mres w2 where m: "NewMetadataClient h dec parse cfg w0 = (mres, w2)" by fastforce
  obtain pres p2 where prov: "GetProvider (fl_provider fl) (RootDomainName cfg) providers p = (pres, p2)" by fastforce
  obtain pc where pc: "(NewPlatformClient parse (PlatformURL cfg) (PlatformAccessKey cfg) (PlatformSecretKey cfg)
      :: unit platform_error + Client) = pc" by blast
  have run: "e = None \<and> mres = Inr (pr_m pr) \<and> pc = Inr (pr_platformAPI pr) \<and> pres = Inr (pr_provider pr)
      \<and> pr_config pr = cfg \<and> w2 = w1 \<and> p2 = p1"
    using assms unfolding setEnv_def fl cfg sum.case opened prod.case
    by (cases e; cases mres; cases pc; cases pres) (auto simp: m pc prov)
  then have "map_of providers (fl_provider fl) = Some (pr_provider pr)"
    "pInit (pr_provider pr) (RootDomainName cfg) p = (None, p1)"
    using prov by (auto simp: GetProvider_def split: option.splits prod.splits)
  with that fl cfg m pc run show thesis by simp
qed

lemma poll_first:
  assumes "\<not> hasSynchronized s" and "mc_GetVersion (mm_MetadataClient (metadataClient s)) (outside s) = (Inr v, w)"
    and "currentVersion s \<noteq> v" and "poll su s = Inr (out, s')"
  shows "out = RecordsFailed \<or> (\<exists>err. out = SyncFailed err) \<or> (\<exists>updated. out = Synchronized updated)"
proof -
  from assms(2-4) obtain s2 where "poll_update su False (s\<lparr>outside := w, currentVersion := v\<rparr>) = Inr (out, s2)"
    by (auto simp: poll_def poll_body_def Let_def split: sum.splits)
  from poll_update_effect [OF this] assms(1) show ?thesis by (cases out) (auto simp: poll_effect_def)
qed

subsection \<open>A concrete start\<close>

definition ex_start_Parse :: "string \<Rightarrow> url option" where
  "ex_start_Parse s = (if s = ''http://md/'' then Some (ex_base\<lparr>uScheme := ''http'', uHost := ''md'', uPath := ''/''\<rparr>) else ex_Parse s)"

definition ex_start_network :: "(string, unit) platform_stack" where
  "ex_start_network = \<lparr>pk_Parse = ex_start_Parse, pk_String = ex_String, pk_NewRequest = (\<lambda>_ _ _. Inl ''refused''),
     pk_BasicAuth = (\<lambda>u p. u @ '':'' @ p), pk_Marshal = (\<lambda>_. Inr ''{}''), pk_RoundTrip = (\<lambda>_ w. (Inl ''refused'', w))\<rparr>"

definition ex_start_env :: env where
  "ex_start_env name =
     (if name = ''PLATFORM_URL'' then ''HTTP://P.example.:80/v1'' else if name = ''PLATFORM_ACCESS_KEY'' then ''a''
      else if name = ''PLATFORM_SECRET_KEY'' then ''s'' else if name = ''ROOT_DOMAIN'' then ''ex.com''
      else if name = ''METADATA_URL'' then ''http://md/'' else [])"

definition ex_start_cfg :: config where
  "ex_start_cfg = ex_config\<lparr>PlatformURL := ''HTTP://P.example.:80/v1'', MetadataURL := ''http://md/'', HealthAddress := '':10000''\<rparr>"

definition ex_start :: "abort + (string route53_error, (string, sim_world) route53, unit) surroundings
    \<times> (string md_error, (string, sim_world) route53, unit) process" where
  "ex_start = main_start [''-debug'', ''--provider=route53''] ex_start_env (\<lambda>_ w. (None :: string option, w)) (pure_http ex_answer) ex_dec
     ex_start_network (\<lambda>_. 0) [(''route53'', ex_provider)] ex_state ()"

lemma ex_start_metadata:
  "NewMetadataClient (pure_http ex_answer) ex_dec ex_start_Parse ex_start_cfg () = (Inr ex_client, ())"
proof -
  have md: "client_methods (pure_http ex_answer) ex_dec (newClient ''http://md/'' []) = (ex_md :: (string md_error, unit) md_client)"
    by (simp add: ex_md_def)
  have url: "MetadataURL ex_start_cfg = ''http://md/''" by code_simp
  have valid: "validateBaseURL ex_start_Parse ''http://md/'' = (None :: string md_error option)" by code_simp
  show ?thesis
    by (simp add: NewMetadataClient_def NewClientAndWait_def url valid md Let_def testConnection_def testConnection_loop.simps
        getEnvironment_def getEnvironment_loop.simps ex_get_version ex_get_stack ex_stack_def ex_client_def)
qed

lemma ex_start_runs: "\<exists>su s0. ex_start = Inr (su, s0)"
proof -
  have flags: "flag_Parse [''-debug'', ''--provider=route53''] default_flags =
      Inr \<lparr>fl_provider = ''route53'', fl_debug = True, fl_logFile = []\<rparr>" by code_simp
  have cfg: "SetFromEnvironment ex_start_env = Inr ex_start_cfg" by code_simp
  have platform: "isl (NewPlatformClient ex_start_Parse (PlatformURL ex_start_cfg) (PlatformAccessKey ex_start_cfg)
      (PlatformSecretKey ex_start_cfg) :: unit platform_error + Client) = False" by code_simp
  then obtain pc where pc: "(NewPlatformClient ex_start_Parse (PlatformURL ex_start_cfg) (PlatformAccessKey ex_start_cfg)
      (PlatformSecretKey ex_start_cfg) :: unit platform_error + Client) = Inr pc" by (metis isl_def sum.exhaust)
  have "isl (fst (GetProvider ''route53'' (RootDomainName ex_start_cfg) [(''route53'', ex_provider)] ex_state)) = False" by code_simp
  then obtain prov p1 where prov: "GetProvider ''route53'' (RootDomainName ex_start_cfg) [(''route53'', ex_provider)] ex_state = (Inr prov, p1)"
    by (metis isl_def prod.collapse sum.exhaust)
  have prov': "prov = ex_provider" "p1 = snd (pInit ex_provider (RootDomainName ex_start_cfg) ex_state)"
    using prov by (auto simp: GetProvider_def split: prod.splits option.splits)
  have "fst (EnsureUpgradeToStateRRSet ex_provider ''e'' ''u1'' ex_start_cfg (snd (pInit ex_provider (RootDomainName ex_start_cfg) ex_state))) = None"
    by code_simp
  then obtain p2 where up: "EnsureUpgradeToStateRRSet prov ''e'' ''u1'' ex_start_cfg p1 = (None, p2)"
    unfolding prov' by (metis prod.collapse)
  show ?thesis
    using up by (simp add: ex_start_def main_start_def setEnv_def flags cfg ex_start_network_def ex_start_metadata pc prov Let_def
        start_def loop_surroundings_def ex_client_def)
qed

subsection \<open>Properties\<close>



text \<open>
  C40. The health server answers 200 exactly to GET and HEAD at / and /ping while the metadata service,
  the provider and the platform API all answer; a request with another method or path is refused
  with 405, 404 or a redirection, and asks none of them.
\<close>
theorem health_endpoint:
  "(ha_status (fst (startHealthCheck cfg P testConnect m meth path p w)) = 200 \<longleftrightarrow>
      path \<in> {''/'', ''/ping''} \<and> meth \<in> {''GET'', ''HEAD''}
      \<and> \<not> isl (fst (mc_GetSelfStack (mm_MetadataClient m) w)) \<and> fst (pHealthCheck P p) = None
      \<and> fst (testConnect (snd (mc_GetSelfStack (mm_MetadataClient m) w))) = None)
   \<and> (if path \<in> {''/'', ''/ping''} \<and> meth \<in> {''GET'', ''HEAD''}
      then startHealthCheck cfg P testConnect m meth path p w = healthCheck P testConnect m meth p w
      else snd (startHealthCheck cfg P testConnect m meth path p w) = (p, w)
        \<and> ha_status (fst (startHealthCheck cfg P testConnect m meth path p w)) =
            (if path \<in> {''/'', ''/ping''} then 405 else if cleanPath path = path then 404 else 301))"
proof -
  have clean: "cleanPath ''/'' = ''/''" "cleanPath ''/ping'' = ''/ping''" by code_simp+
  have "ha_status (fst (healthCheck P testConnect m meth p w)) = 200 \<longleftrightarrow>
      \<not> isl (fst (mc_GetSelfStack (mm_MetadataClient m) w)) \<and> fst (pHealthCheck P p) = None
      \<and> fst (testConnect (snd (mc_GetSelfStack (mm_MetadataClient m) w))) = None"
    using healthCheck_status [of P testConnect m meth p w] by simp
  moreover have "startHealthCheck cfg P testConnect m meth path p w =
      (if path \<in> {''/'', ''/ping''} \<and> meth \<in> {''GET'', ''HEAD''} then healthCheck P testConnect m meth p w
       else if path \<in> {''/'', ''/ping''} then (\<lparr>ha_status = 405, ha_body = []\<rparr>, p, w)
       else if cleanPath path = path then (\<lparr>ha_status = 404, ha_body = ''404 page not found'' @ [CHR 0x0A]\<rparr>, p, w)
       else (\<lparr>ha_status = 301, ha_body = []\<rparr>, p, w))"
    using clean by (auto simp: startHealthCheck_def serve_def health_server_def)
  ultimately show ?thesis by auto
qed

end
