(* ===== verification/Logsafe.thy ===== *)
theory Logsafe
  imports Prelude
begin

text \<open>
  The package \<open>logsafe\<close> (src/internal/logsafe/value.go): the text of a value as one log line. The
  argument is the text that \<open>fmt.Sprint\<close> prints.
\<close>

definition Value :: "string \<Rightarrow> string" where
  "Value printed = ReplaceAllChar (ReplaceAllChar printed (CHR 0x0D) []) (CHR 0x0A) [CHR '' '']"

lemma set_ReplaceAllChar: "set (ReplaceAllChar s c new) \<subseteq> (set s - {c}) \<union> set new"
  by (induction s) (auto simp: ReplaceAllChar_def)

lemma ReplaceAllChar_id: "c \<notin> set s \<Longrightarrow> ReplaceAllChar s c new = s"
  by (induction s) (auto simp: ReplaceAllChar_def)

text \<open>
  A value written to the log stays on one line: it has neither carriage returns nor line
  feeds, and a text that has none is written as it is.
\<close>
lemma Value_single_line:
  "CHR 0x0A \<notin> set (Value printed) \<and> CHR 0x0D \<notin> set (Value printed)
   \<and> (if CHR 0x0A \<in> set printed \<or> CHR 0x0D \<in> set printed then Value printed \<noteq> printed else Value printed = printed)"
proof -
  have "CHR 0x0A \<notin> set (Value printed) \<and> CHR 0x0D \<notin> set (Value printed)"
    using set_ReplaceAllChar [of printed "CHR 0x0D" "[]"]
      set_ReplaceAllChar [of "ReplaceAllChar printed (CHR 0x0D) []" "CHR 0x0A" "[CHR '' '']"]
    by (auto simp: Value_def)
  moreover have "Value printed = printed" if "CHR 0x0A \<notin> set printed" "CHR 0x0D \<notin> set printed"
    using that by (simp add: Value_def ReplaceAllChar_id)
  ultimately show ?thesis by metis
qed

end
