(* ===== verification/Record_Store.thy ===== *)
theory Record_Store
  imports Sync_Correct
begin

text \<open>
  What the providers share whose service keeps single records (a name, a type and one value, under
  an identifier) and not record sets: the loop that stops at the first error, the grouping of the
  listed records by name and type, which is the same block in seven of the providers, and the
  argument why adding, finding and deleting single records keeps the contract \<open>dns_provider\<close>.

  A method of a Go struct that it does not modify takes the struct, its arguments and the world
  outside, and returns the result and the new world. The state of the provider is the struct with
  the world.

  \<^item> \<open>record_api\<close> is what such a service documents, \<open>record_service\<close> what a provider makes of it,
    \<open>remove_add\<close> what the three operations of the provider promise for a world.
  \<^item> The lemmas lead from the first to the last, and from there to \<open>dns_provider\<close>.
\<close>

subsection \<open>Loops and results\<close>

text \<open>\<open>for _, x := range xs { if err := f(x); err != nil { return err } }\<close>\<close>

fun for_each :: "('a \<Rightarrow> 'w \<Rightarrow> 'e option \<times> 'w) \<Rightarrow> 'a list \<Rightarrow> 'w \<Rightarrow> 'e option \<times> 'w" where
  "for_each f [] w = (None, w)"
| "for_each f (x # xs) w =
     (case f x w of (Some e, w') \<Rightarrow> (Some e, w') | (None, w') \<Rightarrow> for_each f xs w')"

text \<open>\<open>fmt.Errorf\<close> around the error of a call.\<close>

definition wrap_err :: "('a \<Rightarrow> 'b) \<Rightarrow> 'a option \<times> 'w \<Rightarrow> 'b option \<times> 'w" where
  "wrap_err h r = (map_option h (fst r), snd r)"

definition wrap_res :: "('a \<Rightarrow> 'b) \<Rightarrow> ('x \<Rightarrow> 'y) \<Rightarrow> ('a + 'x) \<times> 'w \<Rightarrow> ('b + 'y) \<times> 'w" where
  "wrap_res h g r = (map_sum h g (fst r), snd r)"

lemma wrap_err_id [simp]: "wrap_err (\<lambda>e. e) r = r"
  by (simp add: wrap_err_def option.map_ident)

text \<open>\<open>if err := remove(record); err != nil { return err }; return add(record)\<close>\<close>

definition remove_then_add ::
    "(dns_record \<Rightarrow> 'w \<Rightarrow> 'e option \<times> 'w) \<Rightarrow> (dns_record \<Rightarrow> 'w \<Rightarrow> 'e option \<times> 'w)
       \<Rightarrow> dns_record \<Rightarrow> 'w \<Rightarrow> 'e option \<times> 'w" where
  "remove_then_add remove add r w =
     (case remove r w of (Some e, w') \<Rightarrow> (Some e, w') | (None, w') \<Rightarrow> add r w')"

definition find_and_delete ::
    "(dns_record \<Rightarrow> 'w \<Rightarrow> ('e + 'r list) \<times> 'w) \<Rightarrow> ('r \<Rightarrow> 'w \<Rightarrow> 'e option \<times> 'w)
       \<Rightarrow> dns_record \<Rightarrow> 'w \<Rightarrow> 'e option \<times> 'w" where
  "find_and_delete finder delete r w =
     (case finder r w of (Inl e, w') \<Rightarrow> (Some e, w') | (Inr rs, w') \<Rightarrow> for_each delete rs w')"

text \<open>A method on a struct \<open>c\<close> as a function on the state of the provider.\<close>

definition call_on :: "('c \<Rightarrow> 'w \<Rightarrow> 'a \<times> 'w) \<Rightarrow> 'c \<times> 'w \<Rightarrow> 'a \<times> 'c \<times> 'w" where
  "call_on f s = (case f (fst s) (snd s) of (a, w) \<Rightarrow> (a, fst s, w))"

definition init_on :: "('c \<Rightarrow> 'w \<Rightarrow> 'a \<times> 'c \<times> 'w) \<Rightarrow> 'c \<times> 'w \<Rightarrow> 'a \<times> 'c \<times> 'w" where
  "init_on f s = f (fst s) (snd s)"

lemma call_on_pair: "call_on f (c, w) = (fst (f c w), c, snd (f c w))"
  by (simp add: call_on_def split_def)

text \<open>\<open>strconv.FormatInt\<close> in base 10.\<close>

fun FormatNat :: "nat \<Rightarrow> string" where
  "FormatNat n =
     (if n < 10 then [char_of (48 + n)] else FormatNat (n div 10) @ [char_of (48 + n mod 10)])"

declare FormatNat.simps [simp del]

definition FormatInt :: "int \<Rightarrow> string" where
  "FormatInt i = (if i < 0 then ''-'' @ FormatNat (nat (- i)) else FormatNat (nat i))"

lemma decimal_value_FormatNat: "decimal_value (FormatNat n) = int n"
proof (induction n rule: FormatNat.induct)
  case (1 n)
  have digit: "digit_value (char_of (48 + k)) = int k" if "k < 10" for k :: nat
    using that by (simp add: digit_value_def)
  show ?case
  proof (cases "n < 10")
    case True
    then show ?thesis using digit [OF True] by (simp add: FormatNat.simps [of n] decimal_value_def)
  next
    case False
    then show ?thesis using 1 digit [of "n mod 10"]
      by (simp add: FormatNat.simps [of n] decimal_value_append) presburger
  qed
qed

lemma FormatInt_inject: "0 \<le> i \<Longrightarrow> 0 \<le> j \<Longrightarrow> FormatInt i = FormatInt j \<longleftrightarrow> i = j"
proof -
  assume "0 \<le> i" "0 \<le> j"
  moreover have "FormatNat m = FormatNat n \<longleftrightarrow> m = n" for m n by (metis decimal_value_FormatNat of_nat_eq_iff)
  ultimately show ?thesis by (simp add: FormatInt_def eq_nat_nat_iff)
qed

text \<open>An operation after which something more is done when it succeeds.\<close>

definition then_do :: "('w \<Rightarrow> 'e option \<times> 'w) \<Rightarrow> ('w \<Rightarrow> 'w) \<Rightarrow> 'w \<Rightarrow> 'e option \<times> 'w" where
  "then_do f g w = (case f w of (Some e, w') \<Rightarrow> (Some e, w') | (None, w') \<Rightarrow> (None, g w'))"

subsection \<open>Grouping\<close>

type_synonym record_map = "string list gomap gomap"
type_synonym ttl_map = "int gomap gomap"

definition add_value :: "string \<Rightarrow> string \<Rightarrow> string \<Rightarrow> record_map \<Rightarrow> record_map" where
  "add_value fqdn ty v recordMap =
     (case map_of recordMap fqdn of
        Some recordSet \<Rightarrow>
          AList.update fqdn
            (case map_of recordSet ty of
               Some recordSlice \<Rightarrow> AList.update ty (recordSlice @ [v]) recordSet
             | None \<Rightarrow> AList.update ty [v] recordSet) recordMap
      | None \<Rightarrow> AList.update fqdn [(ty, [v])] recordMap)"

text \<open>\<open>recordTTLs[fqdn] = map[string]int{}; recordTTLs[fqdn][type] = ttl\<close>: the inner map is always a
  new one.\<close>

definition set_ttl :: "string \<Rightarrow> string \<Rightarrow> int \<Rightarrow> ttl_map \<Rightarrow> ttl_map" where
  "set_ttl fqdn ty ttl recordTTLs = AList.update fqdn [(ty, ttl)] recordTTLs"

definition get_ttl :: "ttl_map \<Rightarrow> string \<Rightarrow> string \<Rightarrow> int" where
  "get_ttl recordTTLs fqdn ty =
     (case map_of recordTTLs fqdn of
        None \<Rightarrow> 0
      | Some m \<Rightarrow> (case map_of m ty of None \<Rightarrow> 0 | Some ttl \<Rightarrow> ttl))"

definition emit_records :: "(string \<Rightarrow> string \<Rightarrow> int) \<Rightarrow> record_map \<Rightarrow> dns_record list" where
  "emit_records ttl recordMap =
     concat (map (\<lambda>(fqdn, recordSet).
       map (\<lambda>(ty, recordSlice).
         \<lparr>d_fqdn = fqdn, d_records = recordSlice, d_type = ty, d_ttl = ttl fqdn ty\<rparr>) recordSet) recordMap)"

text \<open>A listed record, as name, type, value and TTL.\<close>

type_synonym listed = "string \<times> string \<times> string \<times> int"

definition group_map :: "listed list \<Rightarrow> record_map" where
  "group_map rrs = fold (\<lambda>(fqdn, ty, v, ttl). add_value fqdn ty v) rrs []"

definition group_ttls :: "listed list \<Rightarrow> ttl_map" where
  "group_ttls rrs = fold (\<lambda>(fqdn, ty, v, ttl). set_ttl fqdn ty ttl) rrs []"

definition group_records :: "listed list \<Rightarrow> dns_record list" where
  "group_records rrs = emit_records (get_ttl (group_ttls rrs)) (group_map rrs)"

subsection \<open>Lemmas: grouping\<close>

definition values_at :: "record_map \<Rightarrow> (string \<times> string) \<rightharpoonup> string list" where
  "values_at m k = (case map_of m (fst k) of None \<Rightarrow> None | Some s \<Rightarrow> map_of s (snd k))"

definition record_map_wf :: "record_map \<Rightarrow> bool" where
  "record_map_wf m = (gomap_wf m \<and> (\<forall>f s. map_of m f = Some s \<longrightarrow> gomap_wf s))"

lemma record_map_wf_add: "record_map_wf m \<Longrightarrow> record_map_wf (add_value f t v m)"
  by (auto simp: record_map_wf_def add_value_def gomap_lookup gomap_wf_def [of "[(t, [v])]"]
      split: option.splits if_splits)

lemma values_at_add:
  "values_at (add_value f t v m) k =
     (if k = (f, t) then Some ((case values_at m k of None \<Rightarrow> [] | Some vs \<Rightarrow> vs) @ [v]) else values_at m k)"
  by (cases k) (auto simp: values_at_def add_value_def gomap_lookup split: option.splits)

lemma record_map_wf_group: "record_map_wf (group_map rrs)"
proof -
  have "record_map_wf m \<Longrightarrow> record_map_wf (fold (\<lambda>(f, t, v, ttl). add_value f t v) rrs m)" for m
    by (induction rrs arbitrary: m) (auto simp: record_map_wf_add)
  from this [of "[]"] show ?thesis by (simp add: group_map_def record_map_wf_def)
qed

text \<open>The values of a name and type, in the order of the listing.\<close>

definition listed_values :: "listed list \<Rightarrow> string \<times> string \<Rightarrow> string list" where
  "listed_values rrs k = map (\<lambda>(f, t, v, ttl). v) (filter (\<lambda>(f, t, v, ttl). (f, t) = k) rrs)"

lemma values_at_group:
  "values_at (group_map rrs) k = (if listed_values rrs k = [] then None else Some (listed_values rrs k))"
proof -
  have "values_at (fold (\<lambda>(f, t, v, ttl). add_value f t v) rrs m) k =
      (if listed_values rrs k = [] then values_at m k
       else Some ((case values_at m k of None \<Rightarrow> [] | Some vs \<Rightarrow> vs) @ listed_values rrs k))" for m
    by (induction rrs arbitrary: m) (auto simp: values_at_add listed_values_def split: option.splits)
  from this [of "[]"] show ?thesis by (simp add: group_map_def values_at_def)
qed

lemma set_emit_records:
  assumes "record_map_wf m"
  shows "set (emit_records ttl m) =
    {\<lparr>d_fqdn = f, d_records = vs, d_type = t, d_ttl = ttl f t\<rparr> | f t vs. values_at m (f, t) = Some vs}"
proof -
  have "values_at m (f, t) = Some vs \<longleftrightarrow> (\<exists>s. (f, s) \<in> set m \<and> (t, vs) \<in> set s)" for f t vs
  proof (cases "map_of m f")
    case None
    then have "(f, s) \<notin> set m" for s by (metis fst_conv image_eqI map_of_eq_None_iff)
    with None show ?thesis by (simp add: values_at_def)
  next
    case (Some s)
    have wf: "gomap_wf s" "gomap_wf m" using assms Some by (auto simp: record_map_wf_def)
    then have "(f, s') \<in> set m \<longleftrightarrow> s' = s" for s' using Some gomap_Some_iff [of m f s'] by auto
    with Some show ?thesis by (simp add: values_at_def gomap_Some_iff [OF wf(1)])
  qed
  then show ?thesis by (fastforce simp: emit_records_def)
qed

lemma distinct_emit_records:
  assumes "record_map_wf m"
  shows "distinct (map rkey (emit_records ttl m))"
proof -
  have "distinct (concat (map (\<lambda>(f, s). map (\<lambda>(t, vs). (f, t)) s) m))"
    if "distinct (map fst m)" "\<forall>(f, s) \<in> set m. distinct (map fst s)" for m :: record_map
    using that
    by (induction m) (auto simp: distinct_map inj_on_def split: prod.splits, (force simp: image_iff)+)
  moreover have "map rkey (emit_records ttl m) = concat (map (\<lambda>(f, s). map (\<lambda>(t, vs). (f, t)) s) m)"
    by (simp add: emit_records_def map_concat comp_def rkey_def split_def)
  moreover have "distinct (map fst m)" "\<forall>(f, s) \<in> set m. distinct (map fst s)"
    using assms by (auto simp: record_map_wf_def gomap_wf_def)
  ultimately show ?thesis by simp
qed

lemma rview_emit_records:
  assumes "record_map_wf m"
  shows "rview (emit_records ttl m) k = map_option set (values_at m k)"
proof (cases "values_at m k")
  case None
  then have "k \<notin> rkey ` set (emit_records ttl m)"
    by (cases k) (auto simp: set_emit_records [OF assms] rkey_def)
  then show ?thesis using None by (auto simp: rview_find find_None_iff image_iff)
next
  case (Some vs)
  let ?r = "\<lparr>d_fqdn = fst k, d_records = vs, d_type = snd k, d_ttl = ttl (fst k) (snd k)\<rparr>"
  have "?r \<in> set (emit_records ttl m)" using Some by (simp add: set_emit_records [OF assms])
  from rview_Some [OF distinct_emit_records [OF assms] this] Some show ?thesis by (simp add: rkey_def)
qed

text \<open>A set of single records as a zone: the values of each name and type.\<close>

definition store_view ::
    "('r \<Rightarrow> string \<times> string) \<Rightarrow> ('r \<Rightarrow> string) \<Rightarrow> 'r set \<Rightarrow> (string \<times> string) \<rightharpoonup> string set" where
  "store_view key val S k = (if k \<in> key ` S then Some (val ` {r \<in> S. key r = k}) else None)"

lemma store_view_cong:
  assumes "\<And>r. key r = k \<Longrightarrow> r \<in> S \<longleftrightarrow> r \<in> T"
  shows "store_view key val S k = store_view key val T k"
proof -
  have "{r \<in> S. key r = k} = {r \<in> T. key r = k}" using assms by blast
  moreover from this have "k \<in> key ` S \<longleftrightarrow> k \<in> key ` T" by blast
  ultimately show ?thesis by (simp add: store_view_def)
qed

lemma store_view_values:
  "store_view key val S k = (let V = val ` {r \<in> S. key r = k} in if V = {} then None else Some V)"
proof -
  have "k \<in> key ` S \<longleftrightarrow> val ` {r \<in> S. key r = k} \<noteq> {}" by blast
  then show ?thesis by (simp only: store_view_def Let_def if_not_P if_P split: if_splits) simp
qed

lemma store_view_image: "store_view key val (f ` S) = store_view (\<lambda>x. key (f x)) (\<lambda>x. val (f x)) S"
proof
  fix k
  have "key ` f ` S = (\<lambda>x. key (f x)) ` S" by (simp add: image_image)
  moreover have "val ` {r \<in> f ` S. key r = k} = (\<lambda>x. val (f x)) ` {x \<in> S. key (f x) = k}" by auto
  ultimately show "store_view key val (f ` S) k = store_view (\<lambda>x. key (f x)) (\<lambda>x. val (f x)) S k"
    by (simp add: store_view_def)
qed

lemma group_view:
  assumes "\<And>r. r \<in> set rs \<Longrightarrow> (\<lambda>(f, t, v, ttl). ((f, t), v)) (reads r) = (key r, val r)"
  shows "map_option set (values_at (group_map (map reads rs)) k) = store_view key val (set rs) k"
proof -
  have "listed_values (map reads rs) k = map val (filter (\<lambda>r. key r = k) rs)"
    using assms by (induction rs) (auto simp: listed_values_def split_def)
  then show ?thesis
    by (auto simp: values_at_group store_view_def filter_empty_conv)
qed

lemma group_records_contract:
  assumes "\<And>r. r \<in> set rs \<Longrightarrow> (\<lambda>(f, t, v, ttl). ((f, t), v)) (reads r) = (key r, val r)"
  shows "distinct (map rkey (emit_records ttl (group_map (map reads rs))))
    \<and> rview (emit_records ttl (group_map (map reads rs))) = store_view key val (set rs)"
  using group_view [of rs reads key val, OF assms]
  by (auto simp: distinct_emit_records rview_emit_records record_map_wf_group)

subsection \<open>Lemmas: full names\<close>

definition bare_name :: "string \<Rightarrow> bool" where
  "bare_name n = (n \<noteq> [] \<and> last n \<noteq> CHR ''.'')"

definition full_name :: "string \<Rightarrow> bool" where
  "full_name f = (f \<noteq> [] \<and> last f = CHR ''.'' \<and> bare_name (butlast f))"

lemma full_name_Fqdn: "full_name f \<Longrightarrow> Fqdn (UnFqdn f) = f"
  by (auto simp: full_name_def bare_name_def UnFqdn_def Fqdn_def) (metis append_butlast_last_id)

lemma bare_name_UnFqdn: "bare_name n \<Longrightarrow> UnFqdn (Fqdn n) = n"
  by (auto simp: bare_name_def UnFqdn_def Fqdn_def)

lemma bare_UnFqdn: "full_name f \<Longrightarrow> bare_name (UnFqdn f)"
  by (simp add: full_name_def UnFqdn_def)

lemma bare_matches:
  assumes "bare_name n" and "full_name f \<or> (\<exists>m. bare_name m \<and> Fqdn m = f)"
  shows "n = UnFqdn f \<longleftrightarrow> Fqdn n = f"
  using assms full_name_Fqdn bare_name_UnFqdn by metis

text \<open>Names relative to the root domain, which three services use: the empty name is the root itself.
  \<open>relative_name\<close> takes the root domain off a full name; of the root it makes nothing useful.\<close>

definition absolute_name :: "string \<Rightarrow> string \<Rightarrow> string" where
  "absolute_name root n = (if n = [] then root @ ''.'' else n @ ''.'' @ root @ ''.'')"

definition relative_name :: "string \<Rightarrow> string \<Rightarrow> string" where
  "relative_name root f = TrimSuffix f (''.'' @ root @ ''.'')"

definition below_root :: "string \<Rightarrow> string \<Rightarrow> bool" where
  "below_root root f = (HasSuffix f (''.'' @ root @ ''.'') \<and> relative_name root f \<noteq> [])"

text \<open>Records below the root domain can be stored and removed.\<close>

definition relative_storable :: "string \<Rightarrow> (string \<Rightarrow> string \<Rightarrow> string \<Rightarrow> bool) \<Rightarrow> dns_record \<Rightarrow> bool" where
  "relative_storable root valid d =
     (below_root root (d_fqdn d) \<and> d_records d \<noteq> []
      \<and> list_all (valid (relative_name root (d_fqdn d)) (d_type d)) (d_records d))"

definition not_root :: "string \<Rightarrow> string \<times> string \<Rightarrow> bool" where
  "not_root root k = (fst k \<noteq> root @ ''.'')"

lemma relative_absolute: "n \<noteq> [] \<Longrightarrow> relative_name root (absolute_name root n) = n"
  by (simp add: relative_name_def absolute_name_def TrimSuffix_def HasSuffix_def)

lemma absolute_relative: "below_root root f \<Longrightarrow> absolute_name root (relative_name root f) = f"
proof -
  assume below: "below_root root f"
  let ?s = "''.'' @ root @ ''.''"
  have "f = take (length f - length ?s) f @ ?s"
    using below append_take_drop_id [of "length f - length ?s" f] by (simp only: below_root_def HasSuffix_def)
  moreover have "relative_name root f = take (length f - length ?s) f"
    using below unfolding below_root_def relative_name_def TrimSuffix_def by (simp only: if_True)
  moreover have "relative_name root f \<noteq> []" using below by (simp add: below_root_def)
  ultimately show ?thesis by (simp add: absolute_name_def)
qed

lemma below_rootD: "below_root root f \<Longrightarrow> f \<noteq> [] \<and> f \<noteq> root @ ''.''"
  using absolute_relative [of root f] by (auto simp: below_root_def absolute_name_def split: if_splits)

lemma relative_matches:
  assumes "below_root root f \<or> f \<noteq> root @ ''.'' \<and> (\<exists>m. absolute_name root m = f)"
  shows "n = relative_name root f \<longleftrightarrow> absolute_name root n = f"
proof -
  from assms obtain m where m: "m \<noteq> []" "f = absolute_name root m"
    using absolute_relative by (metis absolute_name_def below_root_def)
  show ?thesis
    using m relative_absolute by (auto simp: absolute_name_def)
qed

subsection \<open>What the operations of a provider promise\<close>

text \<open>For the operations of a provider over a world: \<open>UpdateRecord\<close> removes and then adds.\<close>

locale remove_add =
  fixes ok :: "'w \<Rightarrow> bool"
    and zone :: "'w \<Rightarrow> (string \<times> string) \<rightharpoonup> string set"
    and get :: "'w \<Rightarrow> ('e + dns_record list) \<times> 'w"
    and add :: "dns_record \<Rightarrow> 'w \<Rightarrow> 'e option \<times> 'w"
    and remove :: "dns_record \<Rightarrow> 'w \<Rightarrow> 'e option \<times> 'w"
    and storable :: "dns_record \<Rightarrow> bool"
    and removable :: "string \<times> string \<Rightarrow> bool"
  assumes get_frame: "ok w \<Longrightarrow> get w = (res, w') \<Longrightarrow> ok w' \<and> zone w' = zone w"
    and get_view: "ok w \<Longrightarrow> get w = (Inr rs, w') \<Longrightarrow> distinct (map rkey rs) \<and> rview rs = zone w"
    and add_frame: "ok w \<Longrightarrow> storable r \<Longrightarrow> add r w = (e, w') \<Longrightarrow>
          ok w' \<and> (\<forall>k. k \<noteq> rkey r \<longrightarrow> zone w' k = zone w k)"
    and add_ok: "ok w \<Longrightarrow> storable r \<Longrightarrow> zone w (rkey r) = None \<Longrightarrow> add r w = (None, w') \<Longrightarrow>
          zone w' (rkey r) = Some (set (d_records r))"
    and remove_frame: "ok w \<Longrightarrow> storable r \<or> removable (rkey r) \<and> zone w (rkey r) \<noteq> None \<Longrightarrow>
          remove r w = (e, w') \<Longrightarrow> ok w' \<and> (\<forall>k. k \<noteq> rkey r \<longrightarrow> zone w' k = zone w k)"
    and remove_ok: "ok w \<Longrightarrow> storable r \<or> removable (rkey r) \<and> zone w (rkey r) \<noteq> None \<Longrightarrow>
          remove r w = (None, w') \<Longrightarrow> zone w' (rkey r) = None"
begin

lemma update_effect:
  assumes "ok w" and "storable r" and "remove_then_add remove add r w = (e, w')"
  shows "ok w' \<and> (\<forall>k. k \<noteq> rkey r \<longrightarrow> zone w' k = zone w k)
    \<and> (e = None \<longrightarrow> zone w' (rkey r) = Some (set (d_records r)))"
proof -
  obtain e1 w1 where rem: "remove r w = (e1, w1)" by fastforce
  with remove_frame [OF assms(1) _ rem] assms(2) have w1: "ok w1" "\<forall>k. k \<noteq> rkey r \<longrightarrow> zone w1 k = zone w k"
    by simp_all
  show ?thesis
  proof (cases e1)
    case None
    with rem assms(3) have "add r w1 = (e, w')" by (simp add: remove_then_add_def)
    with add_frame [OF w1(1) assms(2) this] add_ok [OF w1(1) assms(2)] remove_ok [OF assms(1)] rem None assms(2) w1
    show ?thesis by auto
  qed (use rem assms(3) w1 in \<open>auto simp: remove_then_add_def\<close>)
qed

text \<open>The provider whose methods are these operations keeps the contract.\<close>

lemma contract:
  assumes "\<And>w. pGetRecords P (c, w) = (fst (get w), c, snd (get w))"
    and "\<And>r w. pAddRecord P r (c, w) = (fst (add r w), c, snd (add r w))"
    and "\<And>r w. pRemoveRecord P r (c, w) = (fst (remove r w), c, snd (remove r w))"
    and "\<And>r w. pUpdateRecord P r (c, w) = (fst (remove_then_add remove add r w), c, snd (remove_then_add remove add r w))"
  shows "dns_provider P (\<lambda>s. fst s = c \<and> ok (snd s)) (\<lambda>s. zone (snd s)) storable removable"
proof (unfold_locales, goal_cases)
  case (1 s res s')
  then show ?case using assms(1) [of "snd s"] get_frame [of "snd s" res "snd s'"] by (auto simp: prod_eq_iff)
next
  case (2 s rs s')
  then show ?case using assms(1) [of "snd s"] get_view [of "snd s" rs "snd s'"] by (auto simp: prod_eq_iff)
next
  case (3 s r e s')
  then show ?case using assms(2) [of r "snd s"] add_frame [of "snd s" r e "snd s'"] by (auto simp: prod_eq_iff)
next
  case (4 s r s')
  then show ?case using assms(2) [of r "snd s"] add_ok [of "snd s" r "snd s'"] by (auto simp: prod_eq_iff)
next
  case (5 s r e s')
  then show ?case using assms(4) [of r "snd s"] update_effect [of "snd s" r e "snd s'"] by (auto simp: prod_eq_iff)
next
  case (6 s r s')
  then show ?case using assms(4) [of r "snd s"] update_effect [of "snd s" r None "snd s'"] by (auto simp: prod_eq_iff)
next
  case (7 s r e s')
  then show ?case using assms(3) [of r "snd s"] remove_frame [of "snd s" r e "snd s'"] by (auto simp: prod_eq_iff)
next
  case (8 s r s')
  then show ?case using assms(3) [of r "snd s"] remove_ok [of "snd s" r "snd s'"] by (auto simp: prod_eq_iff)
qed

end

context remove_add
begin

lemma then_do_operations:
  assumes "\<And>w. ok w \<Longrightarrow> ok (g w) \<and> zone (g w) = zone w"
  shows "remove_add ok zone get (\<lambda>r. then_do (add r) g) (\<lambda>r. then_do (remove r) g) storable removable"
proof (unfold_locales, goal_cases)
  case (3 w r e w')
  obtain e1 w1 where op: "add r w = (e1, w1)" by fastforce
  with 3 add_frame [OF 3(1,2) op] assms [of w1] show ?case by (auto simp: then_do_def split: option.splits)
next
  case (4 w r w')
  then obtain w1 where op: "add r w = (None, w1)" "w' = g w1" by (auto simp: then_do_def split: prod.splits option.splits)
  with add_frame [OF 4(1,2) op(1)] add_ok [OF 4(1-3) op(1)] assms [of w1] show ?case by simp
next
  case (5 w r e w')
  obtain e1 w1 where op: "remove r w = (e1, w1)" by fastforce
  with 5 remove_frame [OF 5(1,2) op] assms [of w1] show ?case by (auto simp: then_do_def split: option.splits)
next
  case (6 w r w')
  then obtain w1 where op: "remove r w = (None, w1)" "w' = g w1"
    by (auto simp: then_do_def split: prod.splits option.splits)
  with remove_frame [OF 6(1,2) op(1)] remove_ok [OF 6(1,2) op(1)] assms [of w1] show ?case by simp
qed (use get_frame get_view in blast)+

text \<open>So a synchronization with it that succeeds leaves the zone as desired.\<close>

lemma provider_sync:
  assumes "\<And>w. pGetRecords P (c, w) = (fst (get w), c, snd (get w))"
    and "\<And>r w. pAddRecord P r (c, w) = (fst (add r w), c, snd (add r w))"
    and "\<And>r w. pRemoveRecord P r (c, w) = (fst (remove r w), c, snd (remove r w))"
    and "\<And>r w. pUpdateRecord P r (c, w) = (fst (remove_then_add remove add r w), c, snd (remove_then_add remove add r w))"
    and "ok w" and "manageable removable (StateFqdn u (RootDomainName cfg)) (zone w)"
    and "desired_ok storable (StateFqdn u (RootDomainName cfg)) desired"
    and "UpdateProviderDnsRecords P u cfg desired (c, w) = (Inr updated, c', w')"
  shows "c' = c \<and> ok w' \<and> synchronized (StateFqdn u (RootDomainName cfg)) desired (zone w) (zone w')"
  using dns_provider.sync_synchronized [OF contract [OF assms(1-4)], of "(c, w)", OF _ _ assms(7,8)] assms(5,6)
  by simp

end

subsection \<open>Single records\<close>

text \<open>The calls a provider makes, as it makes them: \<open>get\<close> lists and groups, \<open>finder\<close> returns the single
  records of a record set, \<open>create\<close> adds one value, \<open>delete\<close> deletes one record. A call that reports
  an error may have taken effect.\<close>

locale record_service =
  fixes ok :: "'w \<Rightarrow> bool"
    and recs :: "'w \<Rightarrow> 'r set"
    and key :: "'r \<Rightarrow> string \<times> string"
    and val :: "'r \<Rightarrow> string"
    and get :: "'w \<Rightarrow> ('e + dns_record list) \<times> 'w"
    and finder :: "dns_record \<Rightarrow> 'w \<Rightarrow> ('e + 'r list) \<times> 'w"
    and create :: "dns_record \<Rightarrow> string \<Rightarrow> 'w \<Rightarrow> 'e option \<times> 'w"
    and delete :: "'r \<Rightarrow> 'w \<Rightarrow> 'e option \<times> 'w"
    and storable :: "dns_record \<Rightarrow> bool"
    and removable :: "string \<times> string \<Rightarrow> bool"
  assumes get_frame: "ok w \<Longrightarrow> get w = (res, w') \<Longrightarrow> ok w' \<and> recs w' = recs w"
    and get_view: "ok w \<Longrightarrow> get w = (Inr rs, w') \<Longrightarrow>
          distinct (map rkey rs) \<and> rview rs = store_view key val (recs w)"
    and find_frame: "ok w \<Longrightarrow> finder d w = (ans, w') \<Longrightarrow> ok w' \<and> recs w' = recs w"
    and find_all: "ok w \<Longrightarrow> storable d \<or> removable (rkey d) \<and> rkey d \<in> key ` recs w \<Longrightarrow>
          finder d w = (Inr found, w') \<Longrightarrow> distinct found \<and> set found = {r \<in> recs w. key r = rkey d}"
    and create_frame: "ok w \<Longrightarrow> storable d \<Longrightarrow> v \<in> set (d_records d) \<Longrightarrow> create d v w = (e, w') \<Longrightarrow>
          ok w' \<and> (recs w' = recs w \<or> (\<exists>r. key r = rkey d \<and> val r = v \<and> recs w' = insert r (recs w)))"
    and create_ok: "ok w \<Longrightarrow> storable d \<Longrightarrow> v \<in> set (d_records d) \<Longrightarrow> create d v w = (None, w') \<Longrightarrow>
          \<exists>r \<in> recs w'. key r = rkey d \<and> val r = v"
    and delete_frame: "ok w \<Longrightarrow> r \<in> recs w \<Longrightarrow> delete r w = (e, w') \<Longrightarrow>
          ok w' \<and> (recs w' = recs w \<or> recs w' = recs w - {r})"
    and delete_ok: "ok w \<Longrightarrow> r \<in> recs w \<Longrightarrow> delete r w = (None, w') \<Longrightarrow> r \<notin> recs w'"
    and some_value: "storable d \<Longrightarrow> d_records d \<noteq> []"
begin

lemma create_loop:
  assumes "ok w" and "storable d" and "set vs \<subseteq> set (d_records d)" and "for_each (create d) vs w = (e, w')"
  shows "ok w' \<and> recs w \<subseteq> recs w' \<and> (\<forall>r \<in> recs w' - recs w. key r = rkey d \<and> val r \<in> set vs)
    \<and> (e = None \<longrightarrow> (\<forall>v \<in> set vs. \<exists>r \<in> recs w'. key r = rkey d \<and> val r = v))"
  using assms
proof (induction vs arbitrary: w)
  case (Cons v vs)
  obtain e1 w1 where call: "create d v w = (e1, w1)" by fastforce
  have v: "v \<in> set (d_records d)" using Cons.prems(3) by simp
  note frame = create_frame [OF Cons.prems(1,2) v call]
  show ?case
  proof (cases e1)
    case None
    with Cons.prems(4) call have rest: "for_each (create d) vs w1 = (e, w')" by simp
    have made: "\<exists>r \<in> recs w1. key r = rkey d \<and> val r = v"
      using create_ok [OF Cons.prems(1,2) v] call None by simp
    from Cons.IH [OF _ Cons.prems(2) _ rest] frame Cons.prems(3)
    have IH: "ok w' \<and> recs w1 \<subseteq> recs w' \<and> (\<forall>r \<in> recs w' - recs w1. key r = rkey d \<and> val r \<in> set vs)
      \<and> (e = None \<longrightarrow> (\<forall>v \<in> set vs. \<exists>r \<in> recs w'. key r = rkey d \<and> val r = v))" by simp
    moreover have "recs w \<subseteq> recs w1" "\<forall>r \<in> recs w1 - recs w. key r = rkey d \<and> val r = v" using frame by auto
    ultimately show ?thesis using made by fastforce
  qed (use Cons.prems(4) call frame in auto)
qed simp

lemma delete_loop:
  assumes "ok w" and "distinct rs" and "set rs \<subseteq> recs w" and "for_each delete rs w = (e, w')"
  shows "ok w' \<and> recs w - set rs \<subseteq> recs w' \<and> recs w' \<subseteq> recs w \<and> (e = None \<longrightarrow> recs w' = recs w - set rs)"
  using assms
proof (induction rs arbitrary: w)
  case (Cons r rs)
  obtain e1 w1 where call: "delete r w = (e1, w1)" by fastforce
  have r: "r \<in> recs w" using Cons.prems(3) by simp
  note frame = delete_frame [OF Cons.prems(1) r call]
  show ?case
  proof (cases e1)
    case None
    with Cons.prems(4) call have rest: "for_each delete rs w1 = (e, w')" by simp
    have "r \<notin> recs w1" using delete_ok [OF Cons.prems(1) r] call None by simp
    with frame r have w1: "recs w1 = recs w - {r}" "ok w1" by auto
    from Cons.IH [OF w1(2) _ _ rest] Cons.prems(2,3) w1(1) show ?thesis by auto
  qed (use Cons.prems(4) call frame in auto)
qed simp

lemma view_None: "store_view key val (recs w) k = None \<longleftrightarrow> k \<notin> key ` recs w"
  by (simp add: store_view_def)

lemma added_frame:
  assumes "ok w" and "storable d" and "for_each (create d) (d_records d) w = (e, w')"
  shows "ok w' \<and> (\<forall>k. k \<noteq> rkey d \<longrightarrow> store_view key val (recs w') k = store_view key val (recs w) k)"
proof -
  note loop = create_loop [OF assms(1,2) subset_refl assms(3)]
  have "store_view key val (recs w') k = store_view key val (recs w) k" if "k \<noteq> rkey d" for k
    using loop that by (intro store_view_cong) blast
  with loop show ?thesis by blast
qed

lemma added_ok:
  assumes "ok w" and "storable d" and "store_view key val (recs w) (rkey d) = None"
    and "for_each (create d) (d_records d) w = (None, w')"
  shows "store_view key val (recs w') (rkey d) = Some (set (d_records d))"
proof -
  note loop = create_loop [OF assms(1,2) subset_refl assms(4)]
  from assms(3) have "rkey d \<notin> key ` recs w" by (simp add: view_None)
  then have new: "r \<in> recs w' - recs w" if "r \<in> recs w'" "key r = rkey d" for r
    using that by (metis DiffI imageI)
  have "val ` {r \<in> recs w'. key r = rkey d} \<subseteq> set (d_records d)" using loop new by blast
  moreover have "set (d_records d) \<subseteq> val ` {r \<in> recs w'. key r = rkey d}" using loop by auto
  ultimately have "val ` {r \<in> recs w'. key r = rkey d} = set (d_records d)" by blast
  moreover have "rkey d \<in> key ` recs w'"
  proof -
    from some_value [OF assms(2)] obtain v where "v \<in> set (d_records d)" by (cases "d_records d") auto
    with loop obtain r where "r \<in> recs w'" "key r = rkey d" by auto
    then show ?thesis by (metis imageI)
  qed
  ultimately show ?thesis by (simp add: store_view_def)
qed

lemma removed:
  assumes "ok w" and "storable d \<or> removable (rkey d) \<and> store_view key val (recs w) (rkey d) \<noteq> None"
    and "find_and_delete finder delete d w = (e, w')"
  shows "ok w' \<and> (\<forall>k. k \<noteq> rkey d \<longrightarrow> store_view key val (recs w') k = store_view key val (recs w) k)
    \<and> (e = None \<longrightarrow> store_view key val (recs w') (rkey d) = None)"
proof -
  obtain res w1 where found: "finder d w = (res, w1)" by fastforce
  note frame = find_frame [OF assms(1) found]
  show ?thesis
  proof (cases res)
    case (Inl x)
    with assms(3) found frame show ?thesis by (auto simp: find_and_delete_def)
  next
    case (Inr rs)
    have rs: "distinct rs" "set rs = {r \<in> recs w. key r = rkey d}"
      using find_all [OF assms(1)] assms(2) found Inr by (auto simp: view_None)
    have run: "for_each delete rs w1 = (e, w')" using assms(3) found Inr by (simp add: find_and_delete_def)
    note loop = delete_loop [OF frame [THEN conjunct1] rs(1) _ run]
    have w': "ok w'" "recs w - set rs \<subseteq> recs w'" "recs w' \<subseteq> recs w" "e = None \<longrightarrow> recs w' = recs w - set rs"
      using loop frame rs(2) by auto
    have "store_view key val (recs w') k = store_view key val (recs w) k" if "k \<noteq> rkey d" for k
      using w'(2,3) rs(2) that by (intro store_view_cong) blast
    moreover have "e = None \<longrightarrow> store_view key val (recs w') (rkey d) = None"
      using w'(4) rs(2) unfolding view_None by auto
    ultimately show ?thesis using w'(1) by blast
  qed
qed

lemma zone_operations:
  "remove_add ok (\<lambda>w. store_view key val (recs w)) get
     (\<lambda>d. for_each (create d) (d_records d)) (find_and_delete finder delete) storable removable"
proof (unfold_locales, goal_cases)
  case (1 w res w')
  then show ?case using get_frame by metis
next
  case (2 w rs w')
  then show ?case using get_view by metis
next
  case (3 w r e w')
  then show ?case by (rule added_frame)
next
  case (4 w r w')
  then show ?case by (rule added_ok)
next
  case (5 w r e w')
  then show ?case using removed by blast
next
  case (6 w r w')
  then show ?case using removed by blast
qed

end

sublocale record_service \<subseteq> zone: remove_add ok "\<lambda>w. store_view key val (recs w)" get
  "\<lambda>d. for_each (create d) (d_records d)" "find_and_delete finder delete" storable removable
  by (rule zone_operations)

subsection \<open>What a service of single records documents\<close>

text \<open>
  The records the service keeps have a name, a type and a value; \<open>stored\<close> is the name it keeps for a
  name that is sent, \<open>canonical\<close> the form of the names it keeps, \<open>valid\<close> what it takes as name, type
  and value. A listing has all records once, a creation adds one record, a deletion takes away the
  record that is meant, and neither touches another record.
\<close>

locale record_api =
  fixes ok :: "'w \<Rightarrow> bool"
    and recs :: "'w \<Rightarrow> 'r set"
    and rname :: "'r \<Rightarrow> string"
    and rtype :: "'r \<Rightarrow> string"
    and rdata :: "'r \<Rightarrow> string"
    and lists :: "'w \<Rightarrow> ('a + 'r list) \<times> 'w"
    and creates :: "string \<Rightarrow> string \<Rightarrow> string \<Rightarrow> int \<Rightarrow> 'w \<Rightarrow> 'a option \<times> 'w"
    and deletes :: "'r \<Rightarrow> 'w \<Rightarrow> 'a option \<times> 'w"
    and stored :: "string \<Rightarrow> string"
    and canonical :: "string \<Rightarrow> bool"
    and valid :: "string \<Rightarrow> string \<Rightarrow> string \<Rightarrow> bool"
  assumes names: "ok w \<Longrightarrow> r \<in> recs w \<Longrightarrow> canonical (rname r)"
    and lists_frame: "ok w \<Longrightarrow> lists w = (res, w') \<Longrightarrow> ok w' \<and> recs w' = recs w"
    and lists_all: "ok w \<Longrightarrow> lists w = (Inr rs, w') \<Longrightarrow> distinct rs \<and> set rs = recs w"
    and creates_frame: "ok w \<Longrightarrow> valid n t v \<Longrightarrow> creates n t v ttl w = (e, w') \<Longrightarrow>
          ok w' \<and> (recs w' = recs w
            \<or> (\<exists>r. rname r = stored n \<and> rtype r = t \<and> rdata r = v \<and> recs w' = insert r (recs w)))"
    and creates_ok: "ok w \<Longrightarrow> valid n t v \<Longrightarrow> creates n t v ttl w = (None, w') \<Longrightarrow>
          \<exists>r \<in> recs w'. rname r = stored n \<and> rtype r = t \<and> rdata r = v"
    and deletes_frame: "ok w \<Longrightarrow> r \<in> recs w \<Longrightarrow> deletes r w = (e, w') \<Longrightarrow>
          ok w' \<and> (recs w' = recs w \<or> recs w' = recs w - {r})"
    and deletes_ok: "ok w \<Longrightarrow> r \<in> recs w \<Longrightarrow> deletes r w = (None, w') \<Longrightarrow> r \<notin> recs w'"
begin

text \<open>
  A provider over such a service is right when its naming is: \<open>fqdn_of\<close> is the full name it reads from
  a name of the service, \<open>sent\<close> the name it sends for a record, and \<open>match\<close> how it recognizes the
  records of a name.
\<close>

lemma single_records:
  assumes reads: "\<And>w r. ok w \<Longrightarrow> r \<in> recs w \<Longrightarrow>
      (\<lambda>(f, t, v, ttl). ((f, t), v)) (reads r) = ((fqdn_of (rname r), rtype r), rdata r)"
    and sent: "\<And>d v. storable d \<Longrightarrow> v \<in> set (d_records d) \<Longrightarrow> valid (sent d) (d_type d) v"
    and returned: "\<And>d. storable d \<Longrightarrow> fqdn_of (stored (sent d)) = d_fqdn d"
    and matching: "\<And>d n. canonical n \<Longrightarrow>
      storable d \<or> removable (rkey d) \<and> (\<exists>m. canonical m \<and> fqdn_of m = d_fqdn d) \<Longrightarrow>
      match d n \<longleftrightarrow> fqdn_of n = d_fqdn d"
    and some: "\<And>d. storable d \<Longrightarrow> d_records d \<noteq> []"
  shows "record_service ok recs (\<lambda>r. (fqdn_of (rname r), rtype r)) rdata
    (\<lambda>w. wrap_res h1 (\<lambda>rs. emit_records (ttl_of rs) (group_map (map reads rs))) (lists w))
    (\<lambda>d w. wrap_res h2 (filter (\<lambda>r. match d (rname r) \<and> rtype r = d_type d)) (lists w))
    (\<lambda>d v w. wrap_err h3 (creates (sent d) (d_type d) v (sent_ttl d) w))
    (\<lambda>r w. wrap_err h4 (deletes r w)) storable removable"
proof (unfold_locales, goal_cases)
  case (1 w res w')
  then show ?case using lists_frame [OF 1(1)] by (auto simp: wrap_res_def prod_eq_iff)
next
  case (2 w rs w')
  then obtain found where "lists w = (Inr found, w')" and rs: "rs = emit_records (ttl_of found) (group_map (map reads found))"
    by (cases "lists w") (auto simp: wrap_res_def map_sum_def split: sum.splits)
  with lists_all [OF 2(1)] have found: "set found = recs w" by simp
  then have "(\<lambda>(f, t, v, ttl). ((f, t), v)) (reads r) = ((fqdn_of (rname r), rtype r), rdata r)" if "r \<in> set found" for r
    using that reads [OF 2(1)] by simp
  from group_records_contract [of found reads "\<lambda>r. (fqdn_of (rname r), rtype r)" rdata "ttl_of found", OF this] found
  show ?case by (simp add: rs)
next
  case (3 w d ans w')
  then show ?case using lists_frame [OF 3(1)] by (auto simp: wrap_res_def prod_eq_iff)
next
  case (4 w d found w')
  then obtain rs where "lists w = (Inr rs, w')" and found: "found = filter (\<lambda>r. match d (rname r) \<and> rtype r = d_type d) rs"
    by (cases "lists w") (auto simp: wrap_res_def map_sum_def split: sum.splits)
  with lists_all [OF 4(1)] have rs: "distinct rs" "set rs = recs w" by simp_all
  have "match d (rname r) \<longleftrightarrow> fqdn_of (rname r) = d_fqdn d" if "r \<in> recs w" for r
  proof (rule matching [OF names [OF 4(1) that]])
    from 4(2) show "storable d \<or> removable (rkey d) \<and> (\<exists>m. canonical m \<and> fqdn_of m = d_fqdn d)"
      by (auto simp: rkey_def intro: names [OF 4(1)])
  qed
  with rs found show ?case by (auto simp: rkey_def)
next
  case (5 w d v e w')
  then obtain e' where "creates (sent d) (d_type d) v (sent_ttl d) w = (e', w')" by (auto simp: wrap_err_def prod_eq_iff)
  from creates_frame [OF 5(1) sent [OF 5(2,3)] this] returned [OF 5(2)] show ?case
    unfolding rkey_def by metis
next
  case (6 w d v w')
  then have "creates (sent d) (d_type d) v (sent_ttl d) w = (None, w')" by (auto simp: wrap_err_def prod_eq_iff)
  from creates_ok [OF 6(1) sent [OF 6(2,3)] this] returned [OF 6(2)] show ?case
    unfolding rkey_def by metis
next
  case (7 w r e w')
  then show ?case using deletes_frame [OF 7(1,2)] by (auto simp: wrap_err_def prod_eq_iff)
next
  case (8 w r w')
  then show ?case using deletes_ok [OF 8(1,2), of w'] by (auto simp: wrap_err_def prod_eq_iff)
next
  case (9 d)
  then show ?case by (rule some)
qed

end

end
