(* ===== verification/Change_Listener.thy ===== *)
theory Change_Listener
  imports Metadata_Client Record_Store
begin

text \<open>
  The change listeners of the metadata client (src/internal/metadata/change.go): requests that the
  service holds back until its version differs from the one they name. A request that times out is
  repeated, another error ends \<open>OnChangeWithError\<close>, while \<open>OnChange\<close> pauses and goes on from the
  version it reported last.

  None of the loops has to end. Each takes a number of requests, returns what is left of it, and
  returns no result when there is none left. \<open>do\<close> is the callback, a change of the world; the
  variable that the closure of \<open>OnChange\<close> assigns is the first component of its state. \<open>is_timeout\<close>
  says of an error of the transport whether it is a timeout, \<open>dec_Version\<close> decodes the JSON string.

  The theorem is a complete account of a listener over every sequence of answers of the service.
\<close>

subsection \<open>Operations\<close>

text \<open>The type assertion \<open>err.(timeout)\<close>: \<open>SendRequest\<close> passes the errors of the transport and of the
  body on as they are, and makes new ones of the others.\<close>

definition timed_out :: "('e \<Rightarrow> bool) \<Rightarrow> 'e md_error \<Rightarrow> bool" where
  "timed_out is_timeout err =
     (case err of RequestFailed e \<Rightarrow> is_timeout e | ReadFailed e \<Rightarrow> is_timeout e | _ \<Rightarrow> False)"

definition wait_path :: "int \<Rightarrow> string \<Rightarrow> string" where
  "wait_path maxWait version = ''/version?wait=true&value='' @ version @ ''&maxWait='' @ FormatInt maxWait"

record ('e, 'w) waiter =
  wt_http :: "('e, 'w) http"
  wt_is_timeout :: "'e \<Rightarrow> bool"
  wt_dec_Version :: "string \<Rightarrow> 'e + string"
  wt_client :: client

text \<open>The variable \<open>version\<close> keeps its value when the answer cannot be decoded, and is returned with
  the error.\<close>

fun waitVersion ::
    "('e, 'w) waiter \<Rightarrow> nat \<Rightarrow> int \<Rightarrow> string \<Rightarrow> 'w \<Rightarrow> (string \<times> 'e md_error option) option \<times> nat \<times> 'w" where
  "waitVersion L 0 maxWait version w = (None, 0, w)"
| "waitVersion L (Suc n) maxWait version w =
     (case SendRequest (wt_http L) (wt_client L) (wait_path maxWait version) w of
        (Inl err, w') \<Rightarrow>
          if timed_out (wt_is_timeout L) err then waitVersion L n maxWait version w'
          else (Some ([], Some err), n, w')
      | (Inr resp, w') \<Rightarrow>
          (case wt_dec_Version L resp of
             Inl e \<Rightarrow> (Some (version, Some (Unmarshal e)), n, w')
           | Inr v \<Rightarrow> (Some (v, None), n, w')))"

lemma waitVersion_requests: "waitVersion L n maxWait version w = (Some r, n', w') \<Longrightarrow> n' < n"
  by (induction n arbitrary: w) (fastforce split: prod.splits sum.splits if_splits)+

function onChangeFromVersionWithError ::
    "('e, 'w) waiter \<Rightarrow> nat \<Rightarrow> string \<Rightarrow> int \<Rightarrow> (string \<Rightarrow> 'x \<times> 'w \<Rightarrow> 'x \<times> 'w) \<Rightarrow> 'x \<times> 'w
       \<Rightarrow> 'e md_error option \<times> nat \<times> 'x \<times> 'w" where
  "onChangeFromVersionWithError L n version intervalSeconds do s =
     (case waitVersion L n intervalSeconds version (snd s) of
        (None, n', w) \<Rightarrow> (None, n', fst s, w)
      | (Some (newVersion, Some err), n', w) \<Rightarrow> (Some err, n', fst s, w)
      | (Some (newVersion, None), n', w) \<Rightarrow>
          if version = newVersion
          then onChangeFromVersionWithError L n' version intervalSeconds do (fst s, w)
          else onChangeFromVersionWithError L n' newVersion intervalSeconds do (do newVersion (fst s, w)))"
  by pat_completeness auto
termination
  by (relation "measure (\<lambda>(L, n, _). n)") (auto dest!: sym [of _ "waitVersion _ _ _ _ _"] waitVersion_requests)

declare onChangeFromVersionWithError.simps [simp del]

definition OnChangeWithError ::
    "('e, 'w) waiter \<Rightarrow> nat \<Rightarrow> int \<Rightarrow> (string \<Rightarrow> 'w \<Rightarrow> 'w) \<Rightarrow> 'w \<Rightarrow> 'e md_error option \<times> 'w" where
  "OnChangeWithError L n intervalSeconds do w =
     (case onChangeFromVersionWithError L n ''init'' intervalSeconds (\<lambda>v (x, w). (x, do v w)) ((), w) of
        (err, n', x, w') \<Rightarrow> (err, w'))"

lemma onChange_requests:
  "onChangeFromVersionWithError L n version sec do s = (Some err, n', s') \<Longrightarrow> n' < n"
proof (induction n arbitrary: version s rule: less_induct)
  case (less n)
  obtain r n1 w where wait: "waitVersion L n sec version (snd s) = (r, n1, w)" by (cases "waitVersion L n sec version (snd s)")
  with less.prems obtain v e where r: "r = Some (v, e)"
    by (cases r) (auto simp: onChangeFromVersionWithError.simps [of L n] simp del: split_paired_Ex)
  note smaller = waitVersion_requests [OF wait [unfolded r]]
  have "n' = n1 \<or> (\<exists>version s. onChangeFromVersionWithError L n1 version sec do s = (Some err, n', s'))"
    using less.prems wait r by (cases e; cases "version = v") (auto simp: onChangeFromVersionWithError.simps [of L n] simp del: split_paired_Ex)
  with less.IH [OF smaller] smaller show ?case by (meson less_trans)
qed

text \<open>The closure of \<open>OnChange\<close> assigns its variable and calls \<open>do\<close>.\<close>

definition updateVersionAndDo :: "(string \<Rightarrow> 'w \<Rightarrow> 'w) \<Rightarrow> string \<Rightarrow> string \<times> 'w \<Rightarrow> string \<times> 'w" where
  "updateVersionAndDo do v s = (v, do v (snd s))"

function OnChange_loop ::
    "('e, 'w) waiter \<Rightarrow> nat \<Rightarrow> int \<Rightarrow> (string \<Rightarrow> 'w \<Rightarrow> 'w) \<Rightarrow> string \<times> 'w \<Rightarrow> string \<times> 'w" where
  "OnChange_loop L n intervalSeconds do s =
     (case onChangeFromVersionWithError L n (fst s) intervalSeconds (updateVersionAndDo do) s of
        (None, n', s') \<Rightarrow> s'
      | (Some err, n', s') \<Rightarrow>
          OnChange_loop L n' intervalSeconds do (fst s', h_Sleep (wt_http L) (nat intervalSeconds) (snd s')))"
  by pat_completeness auto
termination
  by (relation "measure (\<lambda>(L, n, _). n)") (auto dest!: sym [of _ "onChangeFromVersionWithError _ _ _ _ _ _"] onChange_requests)

declare OnChange_loop.simps [simp del]

definition OnChange :: "('e, 'w) waiter \<Rightarrow> nat \<Rightarrow> int \<Rightarrow> (string \<Rightarrow> 'w \<Rightarrow> 'w) \<Rightarrow> 'w \<Rightarrow> 'w" where
  "OnChange L n intervalSeconds do w = snd (OnChange_loop L n intervalSeconds do (''init'', w))"

subsection \<open>The listener as one loop\<close>

text \<open>A single loop with one variable: what the two nested loops, the closure and the repeated request
  come to.\<close>

fun listener ::
    "('e, 'w) waiter \<Rightarrow> nat \<Rightarrow> int \<Rightarrow> (string \<Rightarrow> 'w \<Rightarrow> 'w) \<Rightarrow> string \<times> 'w \<Rightarrow> string \<times> 'w" where
  "listener L 0 sec do s = s"
| "listener L (Suc n) sec do (v, w) =
     (let pause = h_Sleep (wt_http L) (nat sec) in
      case SendRequest (wt_http L) (wt_client L) (wait_path sec v) w of
        (Inl err, w') \<Rightarrow> listener L n sec do (v, if timed_out (wt_is_timeout L) err then w' else pause w')
      | (Inr resp, w') \<Rightarrow>
          (case wt_dec_Version L resp of
             Inl e \<Rightarrow> listener L n sec do (v, pause w')
           | Inr v' \<Rightarrow> listener L n sec do (if v' = v then (v, w') else (v', do v' w'))))"

lemma onChange_none: "onChangeFromVersionWithError L 0 version sec do s = (None, 0, s)"
  by (simp add: onChangeFromVersionWithError.simps)

lemma OnChange_loop_step:
  "OnChange_loop L (Suc n) sec do (v, w) =
     (let pause = h_Sleep (wt_http L) (nat sec) in
      case SendRequest (wt_http L) (wt_client L) (wait_path sec v) w of
        (Inl err, w') \<Rightarrow> OnChange_loop L n sec do (v, if timed_out (wt_is_timeout L) err then w' else pause w')
      | (Inr resp, w') \<Rightarrow>
          (case wt_dec_Version L resp of
             Inl e \<Rightarrow> OnChange_loop L n sec do (v, pause w')
           | Inr v' \<Rightarrow> OnChange_loop L n sec do (if v' = v then (v, w') else (v', do v' w'))))"
proof -
  note unfold = onChangeFromVersionWithError.simps [of L "Suc n"] OnChange_loop.simps [of L "Suc n"]
    updateVersionAndDo_def Let_def
  obtain res w' where send: "SendRequest (wt_http L) (wt_client L) (wait_path sec v) w = (res, w')" by fastforce
  show ?thesis
  proof (cases res)
    case (Inl err)
    show ?thesis
    proof (cases "timed_out (wt_is_timeout L) err")
      case True
      with send Inl show ?thesis
        by (simp add: unfold OnChange_loop.simps [of L n] onChangeFromVersionWithError.simps [of L n v]
            split: prod.split option.split)
    next
      case False
      with send Inl show ?thesis by (simp add: unfold)
    qed
  next
    case (Inr resp)
    show ?thesis
    proof (cases "wt_dec_Version L resp")
      case (Inl e)
      with send \<open>res = Inr resp\<close> show ?thesis by (simp add: unfold)
    next
      case dec: (Inr v')
      with send Inr show ?thesis by (simp add: unfold OnChange_loop.simps [of L n])
    qed
  qed
qed

lemma OnChange_loop_listener: "OnChange_loop L n sec do s = listener L n sec do s"
proof (induction n arbitrary: s)
  case 0
  then show ?case by (cases s) (simp add: OnChange_loop.simps onChange_none)
next
  case (Suc n)
  then show ?case by (cases s) (simp only: OnChange_loop_step listener.simps Suc.IH)
qed

subsection \<open>Every sequence of answers\<close>

text \<open>A service that gives the answers of a list, whatever it is asked, and records the requests and
  the calls of the callback: what the transport reports, or status, body, and the error that ends
  the body.\<close>

datatype answer = NoAnswer string | Answer int string "string option"

record script =
  sc_answers :: "answer list"
  sc_requests :: "string list"
  sc_calls :: "string list"

definition script_Do :: "http_request \<Rightarrow> script \<Rightarrow> (string + string http_response) \<times> script" where
  "script_Do rq w =
     (let w' = w\<lparr>sc_answers := tl (sc_answers w), sc_requests := sc_requests w @ [rq_url rq]\<rparr> in
      case sc_answers w of
        [] \<Rightarrow> (Inl ''refused'', w')
      | NoAnswer e # _ \<Rightarrow> (Inl e, w')
      | Answer st body err # _ \<Rightarrow> (Inr \<lparr>rs_status = st, rs_body = body, rs_body_error = err\<rparr>, w'))"

definition script_waiter :: "(string \<Rightarrow> bool) \<Rightarrow> (string \<Rightarrow> string + string) \<Rightarrow> client \<Rightarrow> (string, script) waiter" where
  "script_waiter is_timeout dec m =
     \<lparr>wt_http = \<lparr>h_NewRequest = (\<lambda>_ _. None), h_Do = script_Do, h_Sleep = (\<lambda>_ w. w)\<rparr>,
      wt_is_timeout = is_timeout, wt_dec_Version = dec, wt_client = m\<rparr>"

definition note_call :: "string \<Rightarrow> script \<Rightarrow> script" where
  "note_call v w = w\<lparr>sc_calls := sc_calls w @ [v]\<rparr>"

text \<open>The version that an answer carries, if it carries one: status 200, a complete body of at most
  4 MiB, which decodes.\<close>

definition version_in :: "(string \<Rightarrow> string + string) \<Rightarrow> answer \<Rightarrow> string option" where
  "version_in dec a =
     (case a of
        NoAnswer e \<Rightarrow> None
      | Answer st body err \<Rightarrow>
          if st = 200 \<and> err = None \<and> length body \<le> maxResponseSize
          then (case dec body of Inl _ \<Rightarrow> None | Inr v \<Rightarrow> Some v) else None)"

primrec versions_in :: "(string \<Rightarrow> string + string) \<Rightarrow> answer list \<Rightarrow> string list" where
  "versions_in dec [] = []"
| "versions_in dec (a # as) = (case version_in dec a of None \<Rightarrow> [] | Some v \<Rightarrow> [v]) @ versions_in dec as"

lemma script_SendRequest:
  assumes "sc_answers w = a # as"
  shows "case SendRequest (wt_http (script_waiter is_timeout dec m)) m path w of
    (res, w') \<Rightarrow> w' = w\<lparr>sc_answers := as, sc_requests := sc_requests w @ [cl_url m @ path]\<rparr>
      \<and> (case res of Inl _ \<Rightarrow> version_in dec a = None
         | Inr body \<Rightarrow> version_in dec a = (case dec body of Inl _ \<Rightarrow> None | Inr v \<Rightarrow> Some v))"
  using assms
  by (auto simp: SendRequest_def script_waiter_def script_Do_def version_in_def ReadAll_limited_def metadata_request_def
      Let_def split: answer.splits option.splits)

text \<open>One answer: the version changes when the answer carries another one, and only then is it
  reported.\<close>

lemma script_step:
  assumes "sc_answers w = a # as"
    and w1_def: "w1 = w\<lparr>sc_answers := as, sc_requests := sc_requests w @ [cl_url m @ wait_path sec v]\<rparr>"
  shows "listener (script_waiter is_timeout dec m) (Suc n) sec note_call (v, w) =
    listener (script_waiter is_timeout dec m) n sec note_call
      (case version_in dec a of None \<Rightarrow> (v, w1) | Some v' \<Rightarrow> if v' = v then (v, w1) else (v', note_call v' w1))"
proof -
  let ?L = "script_waiter is_timeout dec m"
  have L: "wt_client ?L = m" "wt_dec_Version ?L = dec" "h_Sleep (wt_http ?L) k w = w" for k w
    by (simp_all add: script_waiter_def)
  obtain res w' where send: "SendRequest (wt_http ?L) m (wait_path sec v) w = (res, w')" by fastforce
  from script_SendRequest [OF assms(1), where is_timeout = is_timeout and dec = dec and m = m and path = "wait_path sec v"] have
    w': "w' = w1" and ver: "case res of Inl _ \<Rightarrow> version_in dec a = None
      | Inr body \<Rightarrow> version_in dec a = (case dec body of Inl _ \<Rightarrow> None | Inr v \<Rightarrow> Some v)"
    by (simp_all add: send w1_def)
  show ?thesis
    using ver by (simp add: L send w' split: sum.splits)
qed

lemma remdups_adj_tl: "tl (remdups_adj (v # v' # vs)) = (if v = v' then tl (remdups_adj (v # vs)) else v' # tl (remdups_adj (v' # vs)))"
  by (simp add: remdups_adj_Cons [of v' vs] split: list.split)

lemma note_call_script [simp]:
  "note_call v \<lparr>sc_answers = as, sc_requests = rq, sc_calls = cs\<rparr> = \<lparr>sc_answers = as, sc_requests = rq, sc_calls = cs @ [v]\<rparr>"
  by (simp add: note_call_def)

lemma script_run:
  "listener (script_waiter is_timeout dec m) (length as) sec note_call (v, \<lparr>sc_answers = as, sc_requests = rq, sc_calls = cs\<rparr>) =
     (last (v # versions_in dec as),
      \<lparr>sc_answers = [],
       sc_requests = rq @ map (\<lambda>i. cl_url m @ wait_path sec (last (v # versions_in dec (take i as)))) [0..<length as],
       sc_calls = cs @ tl (remdups_adj (v # versions_in dec as))\<rparr>)"
proof (induction as arbitrary: v rq cs)
  case (Cons a as)
  let ?w = "\<lparr>sc_answers = as, sc_requests = rq @ [cl_url m @ wait_path sec v], sc_calls = cs\<rparr>"
  have step: "listener (script_waiter is_timeout dec m) (length (a # as)) sec note_call
      (v, \<lparr>sc_answers = a # as, sc_requests = rq, sc_calls = cs\<rparr>) =
    listener (script_waiter is_timeout dec m) (length as) sec note_call
      (case version_in dec a of None \<Rightarrow> (v, ?w) | Some v' \<Rightarrow> if v' = v then (v, ?w) else (v', note_call v' ?w))"
    unfolding length_Cons by (rule script_step) simp_all
  show ?case
    unfolding step
    by (cases "version_in dec a") (simp_all add: Cons.IH map_upt_Suc remdups_adj_tl del: upt_Suc remdups_adj.simps)
qed simp

subsection \<open>Property\<close>

text \<open>
  C28. What a change listener does, for every sequence of answers of the service, timeouts, errors
  and undecodable answers included: the callback gets exactly the versions that differ from the one
  before, in order, starting from the version it is given, so that no change is lost or reported
  twice across errors; and every request names the version reported last.
\<close>
theorem OnChange_reports_changes:
  "OnChange (script_waiter is_timeout dec m) (length as) sec note_call \<lparr>sc_answers = as, sc_requests = [], sc_calls = []\<rparr> =
     \<lparr>sc_answers = [],
      sc_requests = map (\<lambda>i. cl_url m @ wait_path sec (last (''init'' # versions_in dec (take i as)))) [0..<length as],
      sc_calls = tl (remdups_adj (''init'' # versions_in dec as))\<rparr>"
  by (simp only: OnChange_def OnChange_loop_listener script_run snd_conv append_Nil)

end
