(* ===== verification/Record_Sim.thy ===== *)
theory Record_Sim
  imports Record_Store
begin

text \<open>
  A service of single records in memory, which can fail at any call: for each coming call
  \<open>ssFaults\<close> says whether it fails. \<open>conv\<close> is the form in which a provider's client hands the records
  out. It keeps \<open>record_api\<close> for every form and every naming, so each provider's model is run on it.
\<close>

record single_record =
  srId :: nat
  srName :: string
  srType :: string
  srData :: string
  srTTL :: int

record store =
  ssRecords :: "single_record list"
  ssNext :: nat
  ssFaults :: "bool list"

definition ss_faulty :: "store \<Rightarrow> bool" where
  "ss_faulty w = (ssFaults w \<noteq> [] \<and> hd (ssFaults w))"

definition ss_tick :: "store \<Rightarrow> store" where
  "ss_tick w = w\<lparr>ssFaults := tl (ssFaults w)\<rparr>"

definition ss_list :: "(single_record \<Rightarrow> 'r) \<Rightarrow> store \<Rightarrow> (string + 'r list) \<times> store" where
  "ss_list conv w =
     (if ss_faulty w then (Inl ''unavailable'', ss_tick w) else (Inr (map conv (ssRecords w)), ss_tick w))"

definition ss_create ::
    "(string \<Rightarrow> string) \<Rightarrow> string \<Rightarrow> string \<Rightarrow> string \<Rightarrow> int \<Rightarrow> store \<Rightarrow> string option \<times> store" where
  "ss_create stored n t v ttl w =
     (if ss_faulty w then (Some ''unavailable'', ss_tick w)
      else (None, (ss_tick w)\<lparr>ssRecords := ssRecords w
          @ [\<lparr>srId = ssNext w, srName = stored n, srType = t, srData = v, srTTL = ttl\<rparr>],
        ssNext := Suc (ssNext w)\<rparr>))"

definition ss_delete :: "nat \<Rightarrow> store \<Rightarrow> string option \<times> store" where
  "ss_delete i w =
     (if ss_faulty w then (Some ''unavailable'', ss_tick w)
      else if i \<notin> srId ` set (ssRecords w) then (Some ''not found'', ss_tick w)
      else (None, (ss_tick w)\<lparr>ssRecords := filter (\<lambda>s. srId s \<noteq> i) (ssRecords w)\<rparr>))"

definition ss_ok :: "(string \<Rightarrow> bool) \<Rightarrow> store \<Rightarrow> bool" where
  "ss_ok canonical w =
     (distinct (map srId (ssRecords w))
      \<and> list_all (\<lambda>s. srId s < ssNext w \<and> canonical (srName s)) (ssRecords w))"

definition ss_recs :: "(single_record \<Rightarrow> 'r) \<Rightarrow> store \<Rightarrow> 'r set" where
  "ss_recs conv w = conv ` set (ssRecords w)"

text \<open>Identifiers as strings.\<close>

definition id_text :: "nat \<Rightarrow> string" where
  "id_text i = replicate i (CHR ''x'')"

lemma length_id_text [simp]: "length (id_text i) = i"
  by (simp add: id_text_def)

lemma ss_tick_simps [simp]: "ssRecords (ss_tick w) = ssRecords w" "ssNext (ss_tick w) = ssNext w"
  by (simp_all add: ss_tick_def)

lemma ss_record_api:
  assumes form: "\<And>s. ident (conv s) = srId s" "\<And>s. rname (conv s) = srName s"
      "\<And>s. rtype (conv s) = srType s" "\<And>s. rdata (conv s) = srData s"
    and names: "\<And>n t v. valid n t v \<Longrightarrow> canonical (stored n)"
  shows "record_api (ss_ok canonical) (ss_recs conv) rname rtype rdata
    (ss_list conv) (ss_create stored) (\<lambda>r. ss_delete (ident r)) stored canonical valid"
proof (unfold_locales, goal_cases)
  case (1 w r)
  then show ?case by (auto simp: ss_ok_def ss_recs_def list_all_iff form)
next
  case (2 w res w')
  then show ?case by (auto simp: ss_list_def ss_ok_def ss_recs_def split: if_splits)
next
  case (3 w rs w')
  have "inj_on conv (set (ssRecords w))"
  proof (rule inj_onI)
    fix x y assume "x \<in> set (ssRecords w)" "y \<in> set (ssRecords w)" and "conv x = conv y"
    moreover from this have "srId x = srId y" by (metis form(1))
    ultimately show "x = y" using 3(1) by (auto simp: ss_ok_def distinct_map dest: inj_onD)
  qed
  with 3 show ?case by (auto simp: ss_list_def ss_ok_def ss_recs_def distinct_map split: if_splits)
next
  case (4 w n t v ttl e w')
  let ?s = "\<lparr>srId = ssNext w, srName = stored n, srType = t, srData = v, srTTL = ttl\<rparr>"
  have "ss_ok canonical w'"
    using 4 names [OF 4(2)]
    by (auto simp: ss_create_def ss_ok_def list_all_iff split: if_splits) (force intro: less_SucI)+
  moreover have "ss_recs conv w' = ss_recs conv w \<or> ss_recs conv w' = insert (conv ?s) (ss_recs conv w)"
    using 4(3) by (auto simp: ss_create_def ss_recs_def split: if_splits)
  moreover have "rname (conv ?s) = stored n \<and> rtype (conv ?s) = t \<and> rdata (conv ?s) = v" by (simp add: form)
  ultimately show ?case by metis
next
  case (5 w n t v ttl w')
  then show ?case by (auto simp: ss_create_def ss_recs_def form split: if_splits)
next
  case (6 w r e w')
  from 6(2) obtain x where x: "x \<in> set (ssRecords w)" "r = conv x" by (auto simp: ss_recs_def)
  have "srId s = srId x \<longleftrightarrow> conv s = r" if "s \<in> set (ssRecords w)" for s
    using that x 6(1) by (auto simp: ss_ok_def distinct_map dest: inj_onD) (metis form(1))
  then have "conv ` {s \<in> set (ssRecords w). srId s \<noteq> ident r} = ss_recs conv w - {r}"
    by (auto simp: ss_recs_def x(2) form)
  then have "ss_recs conv w' = ss_recs conv w \<or> ss_recs conv w' = ss_recs conv w - {r}"
  proof (cases "fst (ss_delete (ident r) w)")
    case None
    then have "set (ssRecords w') = {s \<in> set (ssRecords w). srId s \<noteq> ident r}"
      using 6(3) by (simp add: ss_delete_def split: if_splits) auto
    with \<open>conv ` _ = _\<close> show ?thesis by (simp add: ss_recs_def [of conv w'])
  next
    case (Some x)
    then have "ssRecords w' = ssRecords w" using 6(3) by (auto simp: ss_delete_def split: if_splits)
    then show ?thesis by (simp add: ss_recs_def)
  qed
  moreover have "ss_ok canonical w'"
    using 6(1,3) by (auto simp: ss_delete_def ss_ok_def list_all_iff distinct_map_filter split: if_splits)
  ultimately show ?case by blast
next
  case (7 w r w')
  then show ?case by (auto simp: ss_delete_def ss_recs_def form split: if_splits)
qed

end
