(* ===== verification/Example_Store.thy ===== *)
theory Example_Store
  imports Record_Sim Example_Desired
begin

text \<open>
  A zone on the simulated service of single records, for the concrete runs of the providers:
  somebody else's record, one that has to go, one that changes, and the state RRSet with two values.
  \<open>name\<close> is the form of names of the service.
\<close>

definition ex_store :: "(string \<Rightarrow> string) \<Rightarrow> store" where
  "ex_store name =
     \<lparr>ssRecords =
        [\<lparr>srId = 0, srName = name ''mail.ex.com.'', srType = ''A'', srData = ''10.9.9.9'', srTTL = 300\<rparr>,
         \<lparr>srId = 1, srName = name ''old.s.e.ex.com.'', srType = ''A'', srData = ''10.0.0.7'', srTTL = 300\<rparr>,
         \<lparr>srId = 2, srName = name ''web.s.e.ex.com.'', srType = ''A'', srData = ''10.0.0.8'', srTTL = 300\<rparr>,
         \<lparr>srId = 3, srName = name ex_state_name, srType = ''TXT'', srData = ''old.s.e.ex.com.'', srTTL = 300\<rparr>,
         \<lparr>srId = 4, srName = name ex_state_name, srType = ''TXT'', srData = ''web.s.e.ex.com.'', srTTL = 300\<rparr>],
      ssNext = 5, ssFaults = []\<rparr>"

text \<open>What the desired records make of such a zone.\<close>

definition ex_after :: "((string \<times> string) \<rightharpoonup> string set) \<Rightarrow> bool" where
  "ex_after z = (z (''web.s.e.ex.com.'', ''A'') = Some {''10.0.0.1'', ''10.0.0.2''}
     \<and> z (''old.s.e.ex.com.'', ''A'') = None \<and> z (''mail.ex.com.'', ''A'') = Some {''10.9.9.9''})"

lemma ex_synchronized:
  assumes "synchronized ex_state_name ex_desired z z'"
    and "''old.s.e.ex.com.'' \<in> owned ex_state_name z" and "''mail.ex.com.'' \<notin> owned ex_state_name z"
    and "z (''mail.ex.com.'', ''A'') = Some {''10.9.9.9''}"
  shows "ex_after z'"
proof -
  have web: "map_of ex_desired ''web.s.e.ex.com.'' = Some \<lparr>m_service = ''web'', m_stack = ''s'',
      m_dns = ex_rec ''web.s.e.ex.com.'' [''10.0.0.1'', ''10.0.0.2''] ''A''\<rparr>" by code_simp
  have old: "map_of ex_desired ''old.s.e.ex.com.'' = None" and mail: "''mail.ex.com.'' \<notin> fst ` set ex_desired"
    by code_simp+
  have keys: "managed_key ex_state_name ''web.s.e.ex.com.'' = (''web.s.e.ex.com.'', ''A'')"
    "managed_key ex_state_name ''old.s.e.ex.com.'' = (''old.s.e.ex.com.'', ''A'')" by code_simp+
  from mail assms(3) have "(''mail.ex.com.'', ''A'') \<notin> managed_key ex_state_name
      ` (dom (map_of ex_desired) \<union> owned ex_state_name z)"
    by (auto simp: managed_key_def dom_map_of_keys split: if_splits)
  with assms(1,4) have "z' (''mail.ex.com.'', ''A'') = Some {''10.9.9.9''}" unfolding synchronized_def by metis
  moreover have "z' (managed_key ex_state_name ''web.s.e.ex.com.'') = Some (set [''10.0.0.1'', ''10.0.0.2''])"
    using assms(1) web by (auto simp: synchronized_def ex_rec_def)
  moreover have "z' (managed_key ex_state_name ''old.s.e.ex.com.'') = None"
    using assms(1,2) old by (simp add: synchronized_def)
  ultimately show ?thesis by (simp add: ex_after_def keys)
qed

lemma run_Inr:
  assumes "isl (fst run) = False"
  obtains updated c w where "run = (Inr updated, c, w)"
  using assms by (metis isl_def prod.collapse sum.exhaust)

end
