(* ===== verification/AliDNS.thy ===== *)
theory AliDNS
  imports Example_Store
begin

text \<open>
  The AliDNS provider (src/providers/alidns/alidns.go). The answers of the client are pointers:
  fields are options, a listed record may be nil, and an answer without a body or without records
  is \<open>None\<close>. Names are relative to the root domain, with the sign @ for the domain itself; a name
  outside the domain is an error. The paging loop takes a number of pages and reports
  \<open>AliUnfinished\<close> when they run out.
\<close>

record ali_record =
  arRecordId :: "string option"
  arRR :: "string option"
  arType :: "string option"
  arValue :: "string option"
  arTTL :: "int option"

record ali_request =
  aqDomainName :: string
  aqRR :: string
  aqType :: string
  aqValue :: string
  aqTTL :: int

record ('e, 'w) alidnsClient =
  DescribeDomainInfo :: "string \<Rightarrow> 'w \<Rightarrow> 'e option \<times> 'w"
  DescribeDomainRecords :: "string \<Rightarrow> int \<Rightarrow> int \<Rightarrow> 'w
    \<Rightarrow> ('e + (ali_record option list \<times> int option) option) \<times> 'w"
  AddDomainRecord :: "ali_request \<Rightarrow> 'w \<Rightarrow> 'e option \<times> 'w"
  DeleteDomainRecord :: "string \<Rightarrow> 'w \<Rightarrow> 'e option \<times> 'w"

record ('e, 'w) AlidnsProvider =
  ali_client :: "('e, 'w) alidnsClient"
  ali_rootDomainName :: string

datatype 'e alidns_error =
  AliNoKey | AliNoSecret | AliNewClient 'e | AliDescribe 'e | AliHealth 'e | AliApiCall 'e | AliNoRecordId
| AliOutside string | AliTTL | AliIncomplete | AliEnded | AliUnfinished

subsection \<open>Operations\<close>

definition alidnsEndpoint :: string where
  "alidnsEndpoint = ''alidns.aliyuncs.com''"

definition alidns_Init ::
    "(string \<Rightarrow> string \<Rightarrow> string \<Rightarrow> 'e + ('e, 'w) alidnsClient) \<Rightarrow> env \<Rightarrow> string \<Rightarrow> ('e, 'w) AlidnsProvider \<Rightarrow> 'w
       \<Rightarrow> 'e alidns_error option \<times> ('e, 'w) AlidnsProvider \<times> 'w" where
  "alidns_Init newClient env rootDomainName a w =
     (let accessKey = TrimSpace (env ''ALICLOUD_ACCESS_KEY_ID'');
          secretKey = TrimSpace (env ''ALICLOUD_ACCESS_KEY_SECRET'') in
      if accessKey = [] then (Some AliNoKey, a, w)
      else if secretKey = [] then (Some AliNoSecret, a, w)
      else case newClient accessKey secretKey alidnsEndpoint of
             Inl e \<Rightarrow> (Some (AliNewClient e), a, w)
           | Inr cl \<Rightarrow>
               (let a1 = a\<lparr>ali_client := cl, ali_rootDomainName := UnFqdn rootDomainName\<rparr> in
                case DescribeDomainInfo cl (ali_rootDomainName a1) w of
                  (err, w') \<Rightarrow> (map_option AliDescribe err, a1, w')))"

definition alidns_HealthCheck :: "('e, 'w) AlidnsProvider \<Rightarrow> 'w \<Rightarrow> 'e alidns_error option \<times> 'w" where
  "alidns_HealthCheck a w = wrap_err AliHealth (DescribeDomainInfo (ali_client a) (ali_rootDomainName a) w)"

definition alidns_parseName :: "string \<Rightarrow> dns_record \<Rightarrow> 'e alidns_error + string" where
  "alidns_parseName root r =
     (let fqdn = UnFqdn (d_fqdn r); suffix = ''.'' @ root in
      if fqdn = root then Inr ''@''
      else if \<not> HasSuffix fqdn suffix then Inl (AliOutside (d_fqdn r))
      else let rr = TrimSuffix fqdn suffix in if rr = [] then Inr ''@'' else Inr rr)"

definition checkedTTL :: "int \<Rightarrow> 'e alidns_error + int" where
  "checkedTTL ttl = (if ttl \<le> 0 then Inl AliTTL else Inr ttl)"

definition alidns_prepareRecord :: "string \<Rightarrow> dns_record \<Rightarrow> string \<Rightarrow> 'e alidns_error + ali_request" where
  "alidns_prepareRecord root r v =
     (case checkedTTL (d_ttl r) of
        Inl e \<Rightarrow> Inl e
      | Inr ttl \<Rightarrow>
          (case alidns_parseName root r of
             Inl e \<Rightarrow> Inl e
           | Inr rr \<Rightarrow> Inr \<lparr>aqDomainName = root, aqRR = rr, aqType = d_type r, aqValue = v, aqTTL = ttl\<rparr>))"

definition alidns_create ::
    "('e, 'w) AlidnsProvider \<Rightarrow> dns_record \<Rightarrow> string \<Rightarrow> 'w \<Rightarrow> 'e alidns_error option \<times> 'w" where
  "alidns_create a r v w =
     (case alidns_prepareRecord (ali_rootDomainName a) r v of
        Inl e \<Rightarrow> (Some e, w)
      | Inr request \<Rightarrow> wrap_err AliApiCall (AddDomainRecord (ali_client a) request w))"

definition alidns_AddRecord :: "('e, 'w) AlidnsProvider \<Rightarrow> dns_record \<Rightarrow> 'w \<Rightarrow> 'e alidns_error option \<times> 'w" where
  "alidns_AddRecord a r = for_each (alidns_create a r) (d_records r)"

definition pageSize :: int where "pageSize = 500"

fun listRecords_loop ::
    "nat \<Rightarrow> ('e, 'w) AlidnsProvider \<Rightarrow> int \<Rightarrow> ali_record option list \<Rightarrow> 'w
       \<Rightarrow> ('e alidns_error + ali_record option list) \<times> 'w" where
  "listRecords_loop 0 a pageNumber found w = (Inl AliUnfinished, w)"
| "listRecords_loop (Suc fuel) a pageNumber found w =
     (case DescribeDomainRecords (ali_client a) (ali_rootDomainName a) pageNumber pageSize w of
        (Inl e, w') \<Rightarrow> (Inl (AliApiCall e), w')
      | (Inr None, w') \<Rightarrow> (Inl AliIncomplete, w')
      | (Inr (Some (pageRecords, TotalCount)), w') \<Rightarrow>
          (case TotalCount of
             Some n \<Rightarrow>
               if int (length (found @ pageRecords)) \<ge> n then (Inr (found @ pageRecords), w')
               else if pageRecords = [] then (Inl AliEnded, w')
               else listRecords_loop fuel a (pageNumber + 1) (found @ pageRecords) w'
           | None \<Rightarrow>
               if int (length pageRecords) < pageSize then (Inr (found @ pageRecords), w')
               else listRecords_loop fuel a (pageNumber + 1) (found @ pageRecords) w'))"

definition listRecords ::
    "nat \<Rightarrow> ('e, 'w) AlidnsProvider \<Rightarrow> 'w \<Rightarrow> ('e alidns_error + ali_record option list) \<times> 'w" where
  "listRecords fuel a = listRecords_loop fuel a 1 []"

definition alidns_matching :: "string \<Rightarrow> dns_record \<Rightarrow> ali_record option \<Rightarrow> bool" where
  "alidns_matching name r current =
     (case current of None \<Rightarrow> False | Some c \<Rightarrow> arRR c = Some name \<and> arType c = Some (d_type r))"

definition alidns_findRecords ::
    "nat \<Rightarrow> ('e, 'w) AlidnsProvider \<Rightarrow> dns_record \<Rightarrow> 'w \<Rightarrow> ('e alidns_error + ali_record option list) \<times> 'w" where
  "alidns_findRecords fuel a r w =
     (case listRecords fuel a w of
        (Inl e, w') \<Rightarrow> (Inl e, w')
      | (Inr records, w') \<Rightarrow>
          (case alidns_parseName (ali_rootDomainName a) r of
             Inl e \<Rightarrow> (Inl e, w')
           | Inr name \<Rightarrow> (Inr (filter (alidns_matching name r) records), w')))"

definition alidns_delete ::
    "('e, 'w) AlidnsProvider \<Rightarrow> ali_record option \<Rightarrow> 'w \<Rightarrow> 'e alidns_error option \<times> 'w" where
  "alidns_delete a current w =
     (case current of
        None \<Rightarrow> (Some AliNoRecordId, w)
      | Some c \<Rightarrow>
          (case arRecordId c of
             None \<Rightarrow> (Some AliNoRecordId, w)
           | Some i \<Rightarrow>
               if TrimSpace i = [] then (Some AliNoRecordId, w)
               else wrap_err AliApiCall (DeleteDomainRecord (ali_client a) i w)))"

definition alidns_RemoveRecord ::
    "nat \<Rightarrow> ('e, 'w) AlidnsProvider \<Rightarrow> dns_record \<Rightarrow> 'w \<Rightarrow> 'e alidns_error option \<times> 'w" where
  "alidns_RemoveRecord fuel a = find_and_delete (alidns_findRecords fuel a) (alidns_delete a)"

definition alidns_UpdateRecord ::
    "nat \<Rightarrow> ('e, 'w) AlidnsProvider \<Rightarrow> dns_record \<Rightarrow> 'w \<Rightarrow> 'e alidns_error option \<times> 'w" where
  "alidns_UpdateRecord fuel a = remove_then_add (alidns_RemoveRecord fuel a) (alidns_AddRecord a)"

text \<open>The full name of a listed name, and the loop of \<open>GetRecords\<close>: incomplete records are skipped,
  the first record of a name and type sets the TTL.\<close>

definition alidns_fqdn :: "string \<Rightarrow> string \<Rightarrow> string" where
  "alidns_fqdn root RR =
     (let rr = TrimSpace RR in if rr = [] \<or> rr = ''@'' then root @ ''.'' else rr @ ''.'' @ root @ ''.'')"

definition alidns_group_step ::
    "string \<Rightarrow> ali_record option \<Rightarrow> ((string \<times> string) \<times> dns_record) list \<Rightarrow> ((string \<times> string) \<times> dns_record) list" where
  "alidns_group_step root current grouped =
     (case current of
        None \<Rightarrow> grouped
      | Some c \<Rightarrow>
          (case (arRR c, arType c, arValue c, arTTL c) of
             (Some RR, Some ty, Some v, Some ttl) \<Rightarrow>
               (let key = (alidns_fqdn root RR, ty);
                    rec = (case map_of grouped key of
                             Some rec \<Rightarrow> rec
                           | None \<Rightarrow> \<lparr>d_fqdn = alidns_fqdn root RR, d_records = [], d_type = ty, d_ttl = ttl\<rparr>)
                in AList.update key (rec\<lparr>d_records := d_records rec @ [v]\<rparr>) grouped)
           | _ \<Rightarrow> grouped))"

definition key_less :: "string \<times> string \<Rightarrow> string \<times> string \<Rightarrow> bool" where
  "key_less i j = (if fst i = fst j then snd i < snd j else fst i < fst j)"

definition alidns_group :: "string \<Rightarrow> ali_record option list \<Rightarrow> dns_record list" where
  "alidns_group root apiRecords =
     (let grouped = fold (alidns_group_step root) apiRecords [];
          keys = sort_slice key_less (map fst grouped)
      in map (\<lambda>key. the (map_of grouped key)) keys)"

definition alidns_GetRecords ::
    "nat \<Rightarrow> ('e, 'w) AlidnsProvider \<Rightarrow> 'w \<Rightarrow> ('e alidns_error + dns_record list) \<times> 'w" where
  "alidns_GetRecords fuel a w =
     (case listRecords fuel a w of
        (Inl e, w') \<Rightarrow> (Inl e, w')
      | (Inr apiRecords, w') \<Rightarrow> (Inr (alidns_group (ali_rootDomainName a) apiRecords), w'))"

definition alidns_provider ::
    "(string \<Rightarrow> string \<Rightarrow> string \<Rightarrow> 'e + ('e, 'w) alidnsClient) \<Rightarrow> env \<Rightarrow> nat
       \<Rightarrow> ('e alidns_error, ('e, 'w) AlidnsProvider \<times> 'w) provider" where
  "alidns_provider newClient env fuel =
     \<lparr>pInit = (\<lambda>root. init_on (alidns_Init newClient env root)), pGetName = ''AliDNS'',
      pHealthCheck = call_on alidns_HealthCheck,
      pAddRecord = (\<lambda>r. call_on (\<lambda>a. alidns_AddRecord a r)),
      pRemoveRecord = (\<lambda>r. call_on (\<lambda>a. alidns_RemoveRecord fuel a r)),
      pUpdateRecord = (\<lambda>r. call_on (\<lambda>a. alidns_UpdateRecord fuel a r)),
      pGetRecords = call_on (alidns_GetRecords fuel)\<rparr>"

subsection \<open>Lemmas: grouping\<close>

interpretation ali_keys: comparison key_less UNIV
  by unfold_locales (auto simp: key_less_def prod_eq_iff split: if_splits)

text \<open>A record with all its fields, and a name without surrounding white space.\<close>

definition ali_complete :: "ali_record \<Rightarrow> bool" where
  "ali_complete c =
     ((case arRecordId c of None \<Rightarrow> False | Some i \<Rightarrow> TrimSpace i \<noteq> [])
      \<and> (case arRR c of None \<Rightarrow> False | Some n \<Rightarrow> n \<noteq> [] \<and> TrimSpace n = n)
      \<and> arType c \<noteq> None \<and> arValue c \<noteq> None \<and> arTTL c \<noteq> None)"

definition ali_key :: "string \<Rightarrow> ali_record \<Rightarrow> string \<times> string" where
  "ali_key root c = (alidns_fqdn root (the (arRR c)), the (arType c))"

definition ali_value :: "ali_record \<Rightarrow> string" where
  "ali_value c = the (arValue c)"

definition ali_values :: "string \<Rightarrow> ali_record list \<Rightarrow> string \<times> string \<Rightarrow> string list" where
  "ali_values root cs k = map ali_value (filter (\<lambda>c. ali_key root c = k) cs)"

definition grouped_as :: "((string \<times> string) \<times> dns_record) list \<Rightarrow> (string \<times> string \<Rightarrow> string list) \<Rightarrow> bool" where
  "grouped_as m vals =
     (distinct (map fst m)
      \<and> (\<forall>k. map_option (\<lambda>r. (rkey r, d_records r)) (map_of m k) = (if vals k = [] then None else Some (k, vals k))))"

lemma group_step_as:
  assumes "ali_complete c" and "grouped_as m vals"
  shows "grouped_as (alidns_group_step root (Some c) m) (\<lambda>k. vals k @ (if ali_key root c = k then [ali_value c] else []))"
proof -
  obtain n t v ttl where c: "arRR c = Some n" "arType c = Some t" "arValue c = Some v" "arTTL c = Some ttl"
    using assms(1) by (auto simp: ali_complete_def split: option.splits)
  let ?k = "(alidns_fqdn root n, t)"
  from assms(2) have old: "map_option (\<lambda>r. (rkey r, d_records r)) (map_of m ?k) = (if vals ?k = [] then None else Some (?k, vals ?k))"
    unfolding grouped_as_def by blast
  define r where "r = (case map_of m ?k of Some rec \<Rightarrow> rec
    | None \<Rightarrow> \<lparr>d_fqdn = alidns_fqdn root n, d_records = [], d_type = t, d_ttl = ttl\<rparr>)"
  have step: "alidns_group_step root (Some c) m = AList.update ?k (r\<lparr>d_records := d_records r @ [v]\<rparr>) m"
    by (simp add: alidns_group_step_def c r_def Let_def)
  have r: "rkey r = ?k" "d_records r = vals ?k"
    using old by (auto simp: r_def rkey_def split: option.splits if_splits)
  have "rkey (r\<lparr>d_records := d_records r @ [v]\<rparr>) = ?k" using r(1) by (simp add: rkey_def)
  then have new: "map_option (\<lambda>r. (rkey r, d_records r)) (map_of (alidns_group_step root (Some c) m) ?k)
      = Some (?k, vals ?k @ [v])" using r(2) by (simp add: step update_conv')
  have keep: "map_of (alidns_group_step root (Some c) m) k = map_of m k" if "k \<noteq> ?k" for k
    using that by (simp add: step update_conv')
  have "map_option (\<lambda>r. (rkey r, d_records r)) (map_of (alidns_group_step root (Some c) m) k)
      = (if vals k @ (if ?k = k then [v] else []) = [] then None else Some (k, vals k @ (if ?k = k then [v] else [])))" for k
    using new keep [of k] assms(2) unfolding grouped_as_def by (cases "?k = k") auto
  moreover have "distinct (map fst (alidns_group_step root (Some c) m))"
    using assms(2) by (simp add: step grouped_as_def distinct_update)
  moreover have c_key: "ali_key root c = ?k" and c_val: "ali_value c = v"
    using c by (simp_all add: ali_key_def ali_value_def)
  ultimately show ?thesis unfolding grouped_as_def c_key c_val by blast
qed

lemma grouped_as_fold:
  assumes "list_all ali_complete cs" and "grouped_as m vals"
  shows "grouped_as (fold (alidns_group_step root) (map Some cs) m) (\<lambda>k. vals k @ ali_values root cs k)"
  using assms
proof (induction cs arbitrary: m vals)
  case (Cons c cs)
  have "(\<lambda>k. (vals k @ (if ali_key root c = k then [ali_value c] else [])) @ ali_values root cs k)
      = (\<lambda>k. vals k @ ali_values root (c # cs) k)" by (auto simp: ali_values_def)
  with Cons.IH [OF _ group_step_as [OF _ Cons.prems(2)], of c root] Cons.prems(1) show ?case by simp
qed (simp add: ali_values_def)

lemma alidns_group_view:
  assumes "list_all ali_complete cs"
  shows "distinct (map rkey (alidns_group root (map Some cs)))
    \<and> rview (alidns_group root (map Some cs)) = store_view (ali_key root) ali_value (set cs)"
proof -
  let ?m = "fold (alidns_group_step root) (map Some cs) []"
  have as: "grouped_as ?m (ali_values root cs)"
  proof -
    have "grouped_as [] (\<lambda>_. [])" by (simp add: grouped_as_def)
    from grouped_as_fold [OF assms this, of root] show ?thesis by simp
  qed
  have key: "rkey (the (map_of ?m k)) = k \<and> d_records (the (map_of ?m k)) = ali_values root cs k \<and> ali_values root cs k \<noteq> []"
    if "k \<in> fst ` set ?m" for k
  proof -
    from that have "map_of ?m k \<noteq> None" by (simp add: map_of_eq_None_iff)
    moreover have "map_option (\<lambda>r. (rkey r, d_records r)) (map_of ?m k)
        = (if ali_values root cs k = [] then None else Some (k, ali_values root cs k))"
      using as unfolding grouped_as_def by blast
    ultimately show ?thesis by (cases "map_of ?m k") (auto split: if_splits)
  qed
  let ?ks = "sort_slice key_less (map fst ?m)"
  have ks: "set ?ks = fst ` set ?m" "distinct ?ks"
    using as mset_eq_imp_distinct_iff [OF ali_keys.mset_sort_slice [of "map fst ?m"]]
    by (auto simp: ali_keys.set_sort_slice grouped_as_def)
  have out: "alidns_group root (map Some cs) = map (\<lambda>k. the (map_of ?m k)) ?ks" by (simp add: alidns_group_def Let_def)
  have keys: "map rkey (alidns_group root (map Some cs)) = ?ks"
    unfolding out map_map comp_def using key ks(1) by (intro map_idI) simp
  have "rview (alidns_group root (map Some cs)) k = store_view (ali_key root) ali_value (set cs) k" for k
  proof (cases "k \<in> fst ` set ?m")
    case True
    with ks(1) have "the (map_of ?m k) \<in> set (alidns_group root (map Some cs))" by (simp add: out)
    from rview_Some [OF _ this] keys ks(2) key [OF True] show ?thesis
      by (auto simp: store_view_def ali_values_def filter_empty_conv)
  next
    case False
    then have "map_of ?m k = None" by (simp add: map_of_eq_None_iff)
    moreover have "map_option (\<lambda>r. (rkey r, d_records r)) (map_of ?m k)
        = (if ali_values root cs k = [] then None else Some (k, ali_values root cs k))"
      using as unfolding grouped_as_def by blast
    ultimately have "ali_values root cs k = []" by (simp split: if_splits)
    moreover have "k \<notin> rkey ` set (alidns_group root (map Some cs))" using keys ks(1) False by (metis list.set_map)
    ultimately show ?thesis
      by (auto simp: rview_find find_None_iff store_view_def ali_values_def filter_empty_conv image_iff)
  qed
  then show ?thesis using keys ks(2) by auto
qed

subsection \<open>Lemmas: names\<close>

definition ali_storable :: "string \<Rightarrow> (string \<Rightarrow> string \<Rightarrow> string \<Rightarrow> bool) \<Rightarrow> dns_record \<Rightarrow> bool" where
  "ali_storable root valid d =
     (0 < d_ttl d \<and> d_records d \<noteq> []
      \<and> (case alidns_parseName root d :: unit alidns_error + string of
           Inl _ \<Rightarrow> False
         | Inr n \<Rightarrow> (n = ''@'' \<longrightarrow> d_fqdn d = root @ ''.'') \<and> TrimSpace n = n \<and> HasSuffix (d_fqdn d) ''.''
             \<and> list_all (valid n (d_type d)) (d_records d)))"

lemma parseName_listed:
  assumes "n \<noteq> []" and "TrimSpace n = n" and "d_fqdn d = alidns_fqdn root n"
  shows "alidns_parseName root d = Inr n"
proof (cases "n = ''@''")
  case True
  with assms have "d_fqdn d = root @ ''.''" by (simp add: alidns_fqdn_def)
  with True show ?thesis by (simp add: alidns_parseName_def UnFqdn_def)
next
  case False
  with assms have "d_fqdn d = (n @ ''.'' @ root) @ ''.''" by (simp add: alidns_fqdn_def Let_def)
  moreover have "UnFqdn (x @ ''.'') = x" for x by (simp add: UnFqdn_def)
  ultimately have "UnFqdn (d_fqdn d) = n @ ''.'' @ root" by metis
  with assms(1) show ?thesis by (simp add: alidns_parseName_def HasSuffix_def TrimSuffix_def)
qed

lemma parseName_storable:
  assumes "ali_storable root valid d"
  shows "\<exists>n. alidns_parseName root d = Inr n \<and> alidns_fqdn root n = d_fqdn d \<and> n \<noteq> [] \<and> TrimSpace n = n
    \<and> list_all (valid n (d_type d)) (d_records d)"
proof -
  from assms obtain n where n: "alidns_parseName root d = (Inr n :: unit alidns_error + string)" "TrimSpace n = n"
    "n = ''@'' \<longrightarrow> d_fqdn d = root @ ''.''" "HasSuffix (d_fqdn d) ''.''" "list_all (valid n (d_type d)) (d_records d)"
    by (auto simp: ali_storable_def split: sum.splits)
  from n(1) have "n \<noteq> []" by (auto simp: alidns_parseName_def Let_def split: if_splits)
  have full: "d_fqdn d = UnFqdn (d_fqdn d) @ ''.''"
    using n(4) by (auto simp: UnFqdn_def HasSuffix_iff suffix_def)
  have name: "alidns_parseName root d = Inr n"
    using n(1) by (auto simp: alidns_parseName_def Let_def split: if_splits)
  have "alidns_fqdn root n = d_fqdn d"
  proof (cases "n = ''@''")
    case True
    with n(3,2) show ?thesis by (simp add: alidns_fqdn_def)
  next
    case False
    with n(1) have "HasSuffix (UnFqdn (d_fqdn d)) (''.'' @ root)" "n = TrimSuffix (UnFqdn (d_fqdn d)) (''.'' @ root)"
      by (auto simp: alidns_parseName_def Let_def split: if_splits)
    then have "UnFqdn (d_fqdn d) = n @ ''.'' @ root"
      by (auto simp: TrimSuffix_def HasSuffix_iff suffix_def)
    with full False \<open>n \<noteq> []\<close> n(2) show ?thesis by (simp add: alidns_fqdn_def Let_def)
  qed
  with name \<open>n \<noteq> []\<close> n(2,5) show ?thesis by blast
qed

subsection \<open>What the service documents\<close>

definition ali_zone :: "string \<Rightarrow> ('w \<Rightarrow> ali_record set) \<Rightarrow> 'w \<Rightarrow> (string \<times> string) \<rightharpoonup> string set" where
  "ali_zone root recs w = store_view (ali_key root) ali_value (recs w)"

text \<open>\<open>listed w page\<close> are the records from that page on; a total, when the answer has one, is the
  number of all records, and without a total a page that is not full is the last.\<close>

locale alidns_api =
  fixes a :: "('e, 'w) AlidnsProvider"
    and ok :: "'w \<Rightarrow> bool"
    and recs :: "'w \<Rightarrow> ali_record set"
    and listed :: "'w \<Rightarrow> int \<Rightarrow> ali_record list"
    and valid :: "string \<Rightarrow> string \<Rightarrow> string \<Rightarrow> bool"
  assumes complete: "ok w \<Longrightarrow> c \<in> recs w \<Longrightarrow> ali_complete c"
    and list_first: "ok w \<Longrightarrow> distinct (listed w 1) \<and> set (listed w 1) = recs w"
    and list_frame: "ok w \<Longrightarrow> DescribeDomainRecords (ali_client a) (ali_rootDomainName a) page pageSize w = (res, w') \<Longrightarrow>
          ok w' \<and> recs w' = recs w \<and> listed w' = listed w"
    and list_page: "ok w \<Longrightarrow> DescribeDomainRecords (ali_client a) (ali_rootDomainName a) page pageSize w = (Inr ans, w') \<Longrightarrow>
          \<exists>rs total. ans = Some (map Some rs, total) \<and> listed w page = rs @ listed w (page + 1)
            \<and> (case total of
                 Some n \<Rightarrow> n = int (length (listed w 1))
               | None \<Rightarrow> int (length rs) < pageSize \<longrightarrow> listed w (page + 1) = [])"
    and add_frame: "ok w \<Longrightarrow> valid n t v \<Longrightarrow> AddDomainRecord (ali_client a)
            \<lparr>aqDomainName = ali_rootDomainName a, aqRR = n, aqType = t, aqValue = v, aqTTL = ttl\<rparr> w = (e, w') \<Longrightarrow>
          ok w' \<and> (recs w' = recs w \<or> (\<exists>c. arRR c = Some n \<and> arType c = Some t \<and> arValue c = Some v
            \<and> recs w' = insert c (recs w)))"
    and add_ok: "ok w \<Longrightarrow> valid n t v \<Longrightarrow> AddDomainRecord (ali_client a)
            \<lparr>aqDomainName = ali_rootDomainName a, aqRR = n, aqType = t, aqValue = v, aqTTL = ttl\<rparr> w = (None, w') \<Longrightarrow>
          \<exists>c \<in> recs w'. arRR c = Some n \<and> arType c = Some t \<and> arValue c = Some v"
    and delete_frame: "ok w \<Longrightarrow> c \<in> recs w \<Longrightarrow> DeleteDomainRecord (ali_client a) (the (arRecordId c)) w = (e, w') \<Longrightarrow>
          ok w' \<and> (recs w' = recs w \<or> recs w' = recs w - {c})"
    and delete_ok: "ok w \<Longrightarrow> c \<in> recs w \<Longrightarrow> DeleteDomainRecord (ali_client a) (the (arRecordId c)) w = (None, w') \<Longrightarrow>
          c \<notin> recs w'"
begin

lemma list_loop:
  assumes "ok w" and "listed w 1 = acc @ listed w page"
    and "listRecords_loop fuel a page (map Some acc) w = (res, w')"
  shows "ok w' \<and> recs w' = recs w \<and> (\<forall>rs. res = Inr rs \<longrightarrow> rs = map Some (listed w 1))
    \<and> (length (listed w page) < fuel \<longrightarrow> res \<noteq> Inl AliUnfinished)"
  using assms
proof (induction fuel arbitrary: page acc w)
  case (Suc fuel)
  obtain ans w1 where call: "DescribeDomainRecords (ali_client a) (ali_rootDomainName a) page pageSize w = (ans, w1)"
    by fastforce
  note frame = list_frame [OF Suc.prems(1) call]
  show ?case
  proof (cases ans)
    case (Inl e)
    with Suc.prems(3) call frame show ?thesis by auto
  next
    case (Inr x)
    from list_page [OF Suc.prems(1) call [unfolded Inr]] obtain rs total where
      x: "x = Some (map Some rs, total)" and page: "listed w page = rs @ listed w (page + 1)" and
      law: "case total of Some n \<Rightarrow> n = int (length (listed w 1))
        | None \<Rightarrow> int (length rs) < pageSize \<longrightarrow> listed w (page + 1) = []" by blast
    have first: "listed w 1 = (acc @ rs) @ listed w (page + 1)" using Suc.prems(2) page by simp
    show ?thesis
    proof (cases "fst (listRecords_loop (Suc fuel) a page (map Some acc) w) = Inr (map Some (acc @ rs))
        \<and> snd (listRecords_loop (Suc fuel) a page (map Some acc) w) = w1 \<and> listed w (page + 1) = []")
      case True
      then show ?thesis using Suc.prems(3) frame first by auto
    next
      case False
      have go: "listRecords_loop fuel a (page + 1) (map Some (acc @ rs)) w1 = (res, w') \<and> rs \<noteq> []
          \<or> res = Inl AliEnded \<and> w' = w1"
        using False Suc.prems(3) call Inr x law first pageSize_def
        by (auto split: option.splits if_splits)
      then show ?thesis
      proof
        assume run: "listRecords_loop fuel a (page + 1) (map Some (acc @ rs)) w1 = (res, w') \<and> rs \<noteq> []"
        from Suc.IH [of w1 "acc @ rs" "page + 1"] run frame first page show ?thesis by (cases rs) auto
      qed (use frame in simp)
    qed
  qed
qed auto

lemma list_records:
  assumes "ok w" and "listRecords fuel a w = (res, w')"
  shows "ok w' \<and> recs w' = recs w
    \<and> (\<forall>rs. res = Inr rs \<longrightarrow> (\<exists>cs. rs = map Some cs \<and> distinct cs \<and> set cs = recs w \<and> list_all ali_complete cs))"
  using list_loop [OF assms(1), of "[]" 1 fuel res w'] assms(2) list_first [OF assms(1)] complete [OF assms(1)]
  by (auto simp: listRecords_def list_all_iff)

lemma matching_key:
  assumes "ali_complete c" and "n \<noteq> []" and "TrimSpace n = n"
  shows "alidns_matching n d (Some c) \<longleftrightarrow> ali_key root c = (alidns_fqdn root n, d_type d)"
proof -
  from assms(1) obtain m t where c: "arRR c = Some m" "arType c = Some t" "m \<noteq> []" "TrimSpace m = m"
    by (auto simp: ali_complete_def split: option.splits)
  have "alidns_fqdn root m = alidns_fqdn root n \<longleftrightarrow> m = n"
    using c(3,4) assms(2,3) by (auto simp: alidns_fqdn_def Let_def)
  with c show ?thesis by (auto simp: alidns_matching_def ali_key_def)
qed

lemma parsed_name:
  assumes "ok w"
    and "ali_storable (ali_rootDomainName a) valid d \<or> rkey d \<in> ali_key (ali_rootDomainName a) ` recs w"
  obtains n where "alidns_parseName (ali_rootDomainName a) d = Inr n" and "n \<noteq> []" and "TrimSpace n = n"
    and "alidns_fqdn (ali_rootDomainName a) n = d_fqdn d"
proof (cases "ali_storable (ali_rootDomainName a) valid d")
  case True
  with parseName_storable [OF True] that show ?thesis by blast
next
  case False
  with assms(2) obtain c where c: "c \<in> recs w" "rkey d = ali_key (ali_rootDomainName a) c" by auto
  then obtain m where m: "arRR c = Some m" "m \<noteq> []" "TrimSpace m = m"
    using complete [OF assms(1) c(1)] by (auto simp: ali_complete_def split: option.splits)
  with c(2) have "d_fqdn d = alidns_fqdn (ali_rootDomainName a) m" by (simp add: ali_key_def rkey_def)
  with m that [of m] parseName_listed [OF m(2,3) this] show ?thesis by simp
qed

lemma find_single:
  assumes "ok w" and "ali_storable (ali_rootDomainName a) valid d \<or> rkey d \<in> ali_key (ali_rootDomainName a) ` recs w"
    and "alidns_findRecords fuel a d w = (Inr found, w')"
  shows "distinct found \<and> set found = Some ` {c \<in> recs w. ali_key (ali_rootDomainName a) c = rkey d}"
proof -
  obtain r w1 where l: "listRecords fuel a w = (r, w1)" by fastforce
  from parsed_name [OF assms(1,2)] obtain n where
    n: "alidns_parseName (ali_rootDomainName a) d = (Inr n :: 'e alidns_error + string)" "n \<noteq> []" "TrimSpace n = n"
    "alidns_fqdn (ali_rootDomainName a) n = d_fqdn d" .
  from l assms(3) n(1) obtain xs where xs: "r = Inr xs" "found = filter (alidns_matching n d) xs"
    by (cases r) (auto simp: alidns_findRecords_def)
  with list_records [OF assms(1) l] obtain cs where cs: "xs = map Some cs" "distinct cs" "set cs = recs w" by auto
  have "alidns_matching n d (Some c) \<longleftrightarrow> ali_key (ali_rootDomainName a) c = rkey d" if "c \<in> recs w" for c
    unfolding matching_key [OF complete [OF assms(1) that] n(2,3), of d "ali_rootDomainName a"] n(4) rkey_def ..
  then have "set found = Some ` {c \<in> recs w. ali_key (ali_rootDomainName a) c = rkey d}" using xs(2) cs by auto
  moreover have "distinct found" using xs(2) cs by (simp add: distinct_map)
  ultimately show ?thesis by blast
qed

lemma create_single:
  assumes "ok w" and "ali_storable (ali_rootDomainName a) valid d" and "v \<in> set (d_records d)"
    and "alidns_create a d v w = (e, w')"
  shows "ok w' \<and> (recs w' = recs w \<or> (\<exists>c. ali_key (ali_rootDomainName a) c = rkey d \<and> ali_value c = v
      \<and> recs w' = insert c (recs w)))
    \<and> (e = None \<longrightarrow> (\<exists>c \<in> recs w'. ali_key (ali_rootDomainName a) c = rkey d \<and> ali_value c = v))"
proof -
  from parseName_storable [OF assms(2)] obtain n where
    n: "alidns_parseName (ali_rootDomainName a) d = (Inr n :: 'e alidns_error + string)"
    "alidns_fqdn (ali_rootDomainName a) n = d_fqdn d" "valid n (d_type d) v" using assms(3) by (auto simp: list_all_iff)
  have "0 < d_ttl d" using assms(2) by (simp add: ali_storable_def)
  with n assms(4) obtain e' where call: "AddDomainRecord (ali_client a) \<lparr>aqDomainName = ali_rootDomainName a, aqRR = n,
      aqType = d_type d, aqValue = v, aqTTL = d_ttl d\<rparr> w = (e', w')" "e = map_option AliApiCall e'"
    by (auto simp: alidns_create_def alidns_prepareRecord_def checkedTTL_def wrap_err_def prod_eq_iff)
  have key: "ali_key (ali_rootDomainName a) c = rkey d \<and> ali_value c = v"
    if "arRR c = Some n" "arType c = Some (d_type d)" "arValue c = Some v" for c
    using that n(2) by (simp add: ali_key_def ali_value_def rkey_def)
  have "e = None \<longrightarrow> (\<exists>c \<in> recs w'. ali_key (ali_rootDomainName a) c = rkey d \<and> ali_value c = v)"
  proof
    assume "e = None"
    with call have "AddDomainRecord (ali_client a) \<lparr>aqDomainName = ali_rootDomainName a, aqRR = n,
      aqType = d_type d, aqValue = v, aqTTL = d_ttl d\<rparr> w = (None, w')" by simp
    from add_ok [OF assms(1) n(3) this] key show "\<exists>c \<in> recs w'. ali_key (ali_rootDomainName a) c = rkey d \<and> ali_value c = v"
      by blast
  qed
  moreover have "ok w' \<and> (recs w' = recs w \<or> (\<exists>c. ali_key (ali_rootDomainName a) c = rkey d \<and> ali_value c = v
      \<and> recs w' = insert c (recs w)))"
    using add_frame [OF assms(1) n(3) call(1)] key by metis
  ultimately show ?thesis by blast
qed

lemma delete_single:
  assumes "ok w" and "c \<in> recs w" and "alidns_delete a (Some c) w = (e, w')"
  shows "ok w' \<and> (recs w' = recs w \<or> recs w' = recs w - {c}) \<and> (e = None \<longrightarrow> c \<notin> recs w')"
proof -
  from complete [OF assms(1,2)] obtain i where i: "arRecordId c = Some i" "TrimSpace i \<noteq> []"
    by (auto simp: ali_complete_def split: option.splits)
  with assms(3) obtain e' where "DeleteDomainRecord (ali_client a) (the (arRecordId c)) w = (e', w')" "e = map_option AliApiCall e'"
    by (auto simp: alidns_delete_def wrap_err_def prod_eq_iff)
  with delete_frame [OF assms(1,2) this(1)] delete_ok [OF assms(1,2), of w'] show ?thesis by auto
qed

lemma get_single:
  assumes "ok w" and "alidns_GetRecords fuel a w = (Inr rs, w')"
  shows "distinct (map rkey rs) \<and> rview rs = ali_zone (ali_rootDomainName a) recs w"
proof -
  obtain r w1 where l: "listRecords fuel a w = (r, w1)" by fastforce
  with assms(2) obtain xs where xs: "r = Inr xs" "rs = alidns_group (ali_rootDomainName a) xs"
    by (cases r) (auto simp: alidns_GetRecords_def)
  with list_records [OF assms(1) l] obtain cs where cs: "xs = map Some cs" "set cs = recs w" "list_all ali_complete cs" by auto
  with alidns_group_view [OF cs(3), of "ali_rootDomainName a"] xs show ?thesis by (simp add: ali_zone_def)
qed

lemma calls_frame:
  assumes "ok w"
  shows "alidns_GetRecords fuel a w = (res, w') \<Longrightarrow> ok w' \<and> recs w' = recs w"
    and "alidns_findRecords fuel a d w = (ans, w') \<Longrightarrow> ok w' \<and> recs w' = recs w"
  using list_records [OF assms, of fuel "fst (listRecords fuel a w)" "snd (listRecords fuel a w)"]
  by (auto simp: alidns_GetRecords_def alidns_findRecords_def split: prod.splits sum.splits)

lemma option_view:
  "store_view (\<lambda>x. ali_key root (the x)) (\<lambda>x. ali_value (the x)) (Some ` S) = store_view (ali_key root) ali_value S"
  by (simp add: store_view_image)

lemma single_records:
  "record_service ok (\<lambda>w. Some ` recs w) (\<lambda>x. ali_key (ali_rootDomainName a) (the x)) (\<lambda>x. ali_value (the x))
     (alidns_GetRecords fuel a) (alidns_findRecords fuel a) (alidns_create a) (alidns_delete a)
     (ali_storable (ali_rootDomainName a) valid) (\<lambda>_. True)"
proof (unfold_locales, goal_cases)
  case (1 w res w')
  then show ?case using calls_frame(1) by metis
next
  case (2 w rs w')
  then show ?case using get_single by (simp add: option_view ali_zone_def)
next
  case (3 w d ans w')
  then show ?case using calls_frame(2) by metis
next
  case (4 w d found w')
  then have "ali_storable (ali_rootDomainName a) valid d \<or> rkey d \<in> ali_key (ali_rootDomainName a) ` recs w" by auto
  from find_single [OF 4(1) this 4(3)] show ?case by auto
next
  case (5 w d v e w')
  from create_single [OF 5] show ?case by (metis image_insert option.sel)
next
  case (6 w d v w')
  from create_single [OF 6] show ?case by auto
next
  case (7 w r e w')
  then obtain c where c: "r = Some c" "c \<in> recs w" by auto
  from delete_single [OF 7(1) c(2), of e w'] 7(3) c(1) show ?case by auto
next
  case (8 w r w')
  then obtain c where c: "r = Some c" "c \<in> recs w" by auto
  from delete_single [OF 8(1) c(2), of None w'] 8(3) c(1) show ?case by auto
next
  case (9 d)
  then show ?case by (simp add: ali_storable_def)
qed

lemma records:
  "remove_add ok (ali_zone (ali_rootDomainName a) recs) (alidns_GetRecords fuel a) (alidns_AddRecord a)
     (alidns_RemoveRecord fuel a) (ali_storable (ali_rootDomainName a) valid) (\<lambda>_. True)"
  using record_service.zone_operations [OF single_records [of fuel]]
  by (simp add: option_view ali_zone_def [abs_def] alidns_AddRecord_def [abs_def] alidns_RemoveRecord_def)

end

lemmas alidns_methods = alidns_provider_def alidns_UpdateRecord_def call_on_pair

subsection \<open>The simulated service\<close>

definition ali_canonical :: "string \<Rightarrow> bool" where
  "ali_canonical n = (n \<noteq> [] \<and> TrimSpace n = n)"

definition ali_id :: "nat \<Rightarrow> string" where
  "ali_id i = CHR ''r'' # id_text i"

definition ali_form :: "single_record \<Rightarrow> ali_record" where
  "ali_form s = \<lparr>arRecordId = Some (ali_id (srId s)), arRR = Some (srName s), arType = Some (srType s),
     arValue = Some (srData s), arTTL = Some (srTTL s)\<rparr>"

definition ali_from :: "int \<Rightarrow> store \<Rightarrow> int \<Rightarrow> ali_record list" where
  "ali_from per w page = drop (nat ((max 1 page - 1) * per)) (map ali_form (ssRecords w))"

text \<open>Pages before the first are refused.\<close>

definition ali_simulated :: "(string, store) alidnsClient" where
  "ali_simulated =
     \<lparr>DescribeDomainInfo = (\<lambda>_ w. (None, w)),
      DescribeDomainRecords = (\<lambda>_ page per w.
        if ss_faulty w \<or> page < 1 then (Inl ''unavailable'', ss_tick w)
        else (Inr (Some (map Some (take (nat per) (ali_from per w page)), Some (int (length (ssRecords w))))), ss_tick w)),
      AddDomainRecord = (\<lambda>q. ss_create (\<lambda>n. n) (aqRR q) (aqType q) (aqValue q) (aqTTL q)),
      DeleteDomainRecord = (\<lambda>i. ss_delete (length i - 1))\<rparr>"

lemma ali_base: "record_api (ss_ok ali_canonical) (ss_recs ali_form) (\<lambda>c. the (arRR c)) (\<lambda>c. the (arType c)) (\<lambda>c. the (arValue c))
    (ss_list ali_form) (ss_create (\<lambda>n. n)) (\<lambda>r. ss_delete (length (the (arRecordId r)) - 1)) (\<lambda>n. n) ali_canonical
    (\<lambda>n _ _. ali_canonical n)"
  by (rule ss_record_api) (simp_all add: ali_form_def ali_id_def)

lemma TrimSpace_ali_id: "TrimSpace (ali_id i) \<noteq> []"
  by (simp add: ali_id_def TrimSpace_def Trim_def TrimLeft_def TrimRight_def white_space_def dropWhile_append)

lemma ali_form_complete: "ali_canonical (srName s) \<Longrightarrow> ali_complete (ali_form s)"
  by (simp add: ali_complete_def ali_form_def ali_canonical_def TrimSpace_ali_id)

definition ex_alidns :: "(string, store) AlidnsProvider \<times> store" where
  "ex_alidns = (\<lparr>ali_client = ali_simulated, ali_rootDomainName = ''ex.com''\<rparr>, ex_store (relative_name ''ex.com''))"

interpretation ali_sim: alidns_api "fst ex_alidns" "ss_ok ali_canonical" "ss_recs ali_form" "ali_from 500"
  "\<lambda>n _ _. ali_canonical n"
proof (unfold_locales, goal_cases)
  case (1 w c)
  then show ?case by (auto simp: ss_ok_def ss_recs_def list_all_iff intro: ali_form_complete)
next
  case (2 w)
  have "inj_on ali_form (set (ssRecords w))"
    using 2 by (auto simp: ss_ok_def ali_form_def ali_id_def inj_on_def distinct_map dest: arg_cong [of _ _ length])
  with 2 show ?case by (auto simp: ali_from_def ss_ok_def ss_recs_def distinct_map)
next
  case (3 w page res w')
  then show ?case by (auto simp: ex_alidns_def ali_simulated_def ss_ok_def ss_recs_def ali_from_def split: if_splits)
next
  case (4 w page ans w')
  then have page: "1 \<le> page" "ans = Some (map Some (take 500 (ali_from 500 w page)), Some (int (length (ssRecords w))))"
    by (auto simp: ex_alidns_def ali_simulated_def pageSize_def split: if_splits)
  from page(1) obtain k where "page = 1 + int k" by (metis zle_iff_zadd)
  then have "nat ((max 1 (page + 1) - 1) * 500) = 500 + nat ((max 1 page - 1) * 500)"
    by (simp add: nat_mult_distrib nat_add_distrib)
  then have "ali_from 500 w (page + 1) = drop 500 (ali_from 500 w page)" by (simp only: ali_from_def drop_drop)
  moreover have "length (ali_from 500 w 1) = length (ssRecords w)" by (simp add: ali_from_def)
  ultimately show ?case using page(2)
    by (intro exI [of _ "take 500 (ali_from 500 w page)"] exI [of _ "Some (int (length (ssRecords w)))"]) simp
next
  case (5 w n t v ttl e w')
  then have call: "ss_create (\<lambda>n. n) n t v ttl w = (e, w')" by (simp add: ex_alidns_def ali_simulated_def)
  let ?c = "ali_form \<lparr>srId = ssNext w, srName = n, srType = t, srData = v, srTTL = ttl\<rparr>"
  have "ss_recs ali_form w' = ss_recs ali_form w \<or> ss_recs ali_form w' = insert ?c (ss_recs ali_form w)"
    using call by (auto simp: ss_create_def ss_recs_def split: if_splits)
  moreover have "arRR ?c = Some n \<and> arType ?c = Some t \<and> arValue ?c = Some v" by (simp add: ali_form_def)
  ultimately show ?case using record_api.creates_frame [OF ali_base 5(1,2) call] by blast
next
  case (6 w n t v ttl w')
  then show ?case
    by (auto simp: ex_alidns_def ali_simulated_def ss_create_def ss_recs_def ali_form_def split: if_splits)
next
  case (7 w c e w')
  then show ?case using record_api.deletes_frame [OF ali_base 7(1,2)] by (simp add: ex_alidns_def ali_simulated_def)
next
  case (8 w c w')
  then show ?case using record_api.deletes_ok [OF ali_base 8(1,2)] by (simp add: ex_alidns_def ali_simulated_def)
qed

definition ex_alidns_run ::
    "(string alidns_error sync_error + metadata_dns_record list) \<times> (string, store) AlidnsProvider \<times> store" where
  "ex_alidns_run =
     UpdateProviderDnsRecords (alidns_provider (\<lambda>_ _ _. Inr ali_simulated) (\<lambda>_. []) 2) ''u1'' ex_cfg ex_desired ex_alidns"

subsection \<open>Properties\<close>

text \<open>
  C13. A synchronization with AliDNS that reports success leaves the zone as desired, at the root of
  the domain too: names are sent and compared relative to the domain, values go into the record set
  of their name and type, and the paging of a listing ends within one page for each record and one
  more.
\<close>
theorem sync_alidns:
  assumes "alidns_api a ok recs listed valid" and "ok w"
    and "ali_zone (ali_rootDomainName a) recs w (StateFqdn u (RootDomainName cfg), ''A'') = None"
    and "desired_ok (ali_storable (ali_rootDomainName a) valid) (StateFqdn u (RootDomainName cfg)) desired"
    and "UpdateProviderDnsRecords (alidns_provider newClient env fuel) u cfg desired (a, w) = (Inr updated, a', w')"
  shows "a' = a \<and> ok w' \<and> synchronized (StateFqdn u (RootDomainName cfg)) desired
      (ali_zone (ali_rootDomainName a) recs w) (ali_zone (ali_rootDomainName a) recs w')
    \<and> (card (recs w) < n \<longrightarrow> fst (listRecords n a w) \<noteq> Inl AliUnfinished)"
proof -
  note api = alidns_api.records [OF assms(1)]
  have "length (listed w 1) = card (recs w)"
    using alidns_api.list_first [OF assms(1,2)] by (metis distinct_card)
  with alidns_api.list_loop [OF assms(1,2), of "[]" 1 n "fst (listRecords n a w)" "snd (listRecords n a w)"]
  have "card (recs w) < n \<longrightarrow> fst (listRecords n a w) \<noteq> Inl AliUnfinished" by (simp add: listRecords_def)
  moreover have "a' = a \<and> ok w' \<and> synchronized (StateFqdn u (RootDomainName cfg)) desired
      (ali_zone (ali_rootDomainName a) recs w) (ali_zone (ali_rootDomainName a) recs w')"
    using assms(3) by (intro remove_add.provider_sync [OF api _ _ _ _ assms(2) _ assms(4,5)])
      (simp_all add: alidns_methods)
  ultimately show ?thesis by blast
qed

theorem sync_alidns_witness:
  "ex_after (ali_zone ''ex.com'' (ss_recs ali_form) (snd (snd ex_alidns_run)))
   \<and> fst (listRecords 6 (fst ex_alidns) (snd ex_alidns)) \<noteq> Inl AliUnfinished"
proof -
  have "isl (fst ex_alidns_run) = False" by code_simp
  then obtain updated p' w' where run: "ex_alidns_run = (Inr updated, p', w')" by (rule run_Inr)
  let ?z = "ali_zone ''ex.com'' (ss_recs ali_form) (snd ex_alidns)"
  have z: "?z (ex_state_name, ''A'') = None" "?z (''mail.ex.com.'', ''A'') = Some {''10.9.9.9''}"
    "''old.s.e.ex.com.'' \<in> owned ex_state_name ?z" "''mail.ex.com.'' \<notin> owned ex_state_name ?z" by code_simp+
  have ok: "ss_ok ali_canonical (snd ex_alidns)" by code_simp
  have few: "card (ss_recs ali_form (snd ex_alidns)) < 6"
  proof -
    have "card (set (ssRecords (snd ex_alidns))) \<le> 5"
      using card_length [of "ssRecords (snd ex_alidns)"] by (simp add: ex_alidns_def ex_store_def)
    then show ?thesis using card_image_le [of "set (ssRecords (snd ex_alidns))" ali_form] by (simp add: ss_recs_def)
  qed
  have des: "desired_ok (ali_storable ''ex.com'' (\<lambda>n _ _. ali_canonical n)) ex_state_name ex_desired"
    by (rule ex_desired_okI) code_simp
  have p: "ali_rootDomainName (fst ex_alidns) = ''ex.com''" by (simp add: ex_alidns_def)
  have "synchronized ex_state_name ex_desired ?z (ali_zone ''ex.com'' (ss_recs ali_form) w')
      \<and> fst (listRecords 6 (fst ex_alidns) (snd ex_alidns)) \<noteq> Inl AliUnfinished"
    using sync_alidns [where a = "fst ex_alidns" and w = "snd ex_alidns" and u = "''u1''" and cfg = ex_cfg
        and newClient = "\<lambda>_ _ _. Inr ali_simulated" and env = "\<lambda>_. []" and desired = ex_desired and ok = "ss_ok ali_canonical"
        and recs = "ss_recs ali_form" and valid = "\<lambda>n _ _. ali_canonical n" and listed = "ali_from 500" and fuel = 2 and n = 6
        and updated = updated and a' = p' and w' = w']
      ali_sim.alidns_api_axioms z(1) ok des run few
    by (simp add: ex_alidns_run_def p ex_state_name_eq)
  with ex_synchronized [OF _ z(3,4,2)] show ?thesis by (simp only: run snd_conv simp_thms)
qed

end
