(* ===== verification/Cloudflare.thy ===== *)
theory Cloudflare
  imports Example_Store
begin

text \<open>
  The Cloudflare provider (src/providers/cloudflare/cloudflare.go). The API client is a parameter: a
  record of the calls the provider makes. Dereferencing the zone before \<open>Init\<close> has found one is the
  error \<open>CfNilZone\<close>, which in the program is a panic.

  Shown: over a service of single records a synchronization with this provider converges, and the
  TTL that is sent lies in the range the service takes.
\<close>

record cf_record =
  cfID :: string
  cfType :: string
  cfName :: string
  cfContent :: string
  cfTTL :: int
  cfZoneID :: string

record cf_zone =
  cfzID :: string
  cfzName :: string

record ('e, 'w) cf_client =
  cfZonesList :: "'w \<Rightarrow> ('e + cf_zone list) \<times> 'w"
  cfZonesDetails :: "string \<Rightarrow> 'w \<Rightarrow> 'e option \<times> 'w"
  cfRecordsList :: "string \<Rightarrow> 'w \<Rightarrow> ('e + cf_record list) \<times> 'w"
  cfRecordsCreate :: "cf_record \<Rightarrow> 'w \<Rightarrow> 'e option \<times> 'w"
  cfRecordsDelete :: "string \<Rightarrow> string \<Rightarrow> 'w \<Rightarrow> 'e option \<times> 'w"

record ('e, 'w) CloudflareProvider =
  cf_client :: "('e, 'w) cf_client"
  cf_zone :: "cf_zone option"
  cf_root :: string

datatype 'e cloudflare_error =
  CfNoEmail | CfNoKey | CfSetZone "'e cloudflare_error" | CfApiCall 'e | CfNoZone string | CfNilZone | CfDetails 'e

subsection \<open>Operations\<close>

text \<open>TTL must be between 120 and 86400 seconds.\<close>

definition sanitizeTTL :: "int \<Rightarrow> int" where
  "sanitizeTTL ttl = (if ttl < 120 then 120 else if ttl > 86400 then 86400 else ttl)"

definition cloudflare_prepareRecord :: "('e, 'w) CloudflareProvider \<Rightarrow> dns_record \<Rightarrow> cf_record option" where
  "cloudflare_prepareRecord c r =
     map_option (\<lambda>z. \<lparr>cfID = [], cfType = d_type r, cfName = UnFqdn (d_fqdn r), cfContent = [],
       cfTTL = sanitizeTTL (d_ttl r), cfZoneID = cfzID z\<rparr>) (cf_zone c)"

definition cloudflare_setZone ::
    "('e, 'w) CloudflareProvider \<Rightarrow> 'w \<Rightarrow> 'e cloudflare_error option \<times> ('e, 'w) CloudflareProvider \<times> 'w" where
  "cloudflare_setZone c w =
     (case cfZonesList (cf_client c) w of
        (Inl e, w') \<Rightarrow> (Some (CfApiCall e), c, w')
      | (Inr zones, w') \<Rightarrow>
          (let c' = (case find (\<lambda>zone. cfzName zone = cf_root c) zones of
                       Some zone \<Rightarrow> c\<lparr>cf_zone := Some zone\<rparr> | None \<Rightarrow> c)
           in (if cf_zone c' = None then Some (CfNoZone (cf_root c)) else None, c', w')))"

definition cloudflare_Init ::
    "(string \<Rightarrow> string \<Rightarrow> ('e, 'w) cf_client) \<Rightarrow> env \<Rightarrow> string \<Rightarrow> ('e, 'w) CloudflareProvider \<Rightarrow> 'w
       \<Rightarrow> 'e cloudflare_error option \<times> ('e, 'w) CloudflareProvider \<times> 'w" where
  "cloudflare_Init api_New env rootDomainName c w =
     (let email = env ''CLOUDFLARE_EMAIL''; apiKey = env ''CLOUDFLARE_KEY'' in
      if email = [] then (Some CfNoEmail, c, w)
      else if apiKey = [] then (Some CfNoKey, c, w)
      else (case cloudflare_setZone
                   (c\<lparr>cf_client := api_New email apiKey, cf_root := UnFqdn rootDomainName\<rparr>) w of
              (err, c', w') \<Rightarrow> (map_option CfSetZone err, c', w')))"

definition cloudflare_HealthCheck :: "('e, 'w) CloudflareProvider \<Rightarrow> 'w \<Rightarrow> 'e cloudflare_error option \<times> 'w" where
  "cloudflare_HealthCheck c w =
     (case cf_zone c of
        None \<Rightarrow> (Some CfNilZone, w)
      | Some zone \<Rightarrow> wrap_err CfDetails (cfZonesDetails (cf_client c) (cfzID zone) w))"

definition cloudflare_AddRecord ::
    "('e, 'w) CloudflareProvider \<Rightarrow> dns_record \<Rightarrow> 'w \<Rightarrow> 'e cloudflare_error option \<times> 'w" where
  "cloudflare_AddRecord c r =
     for_each (\<lambda>rec w.
       case cloudflare_prepareRecord c r of
         None \<Rightarrow> (Some CfNilZone, w)
       | Some x \<Rightarrow> wrap_err CfApiCall (cfRecordsCreate (cf_client c) (x\<lparr>cfContent := rec\<rparr>) w)) (d_records r)"

definition cloudflare_findRecords ::
    "('e, 'w) CloudflareProvider \<Rightarrow> dns_record \<Rightarrow> 'w \<Rightarrow> ('e cloudflare_error + cf_record list) \<times> 'w" where
  "cloudflare_findRecords c r w =
     (case cf_zone c of
        None \<Rightarrow> (Inl CfNilZone, w)
      | Some zone \<Rightarrow>
          wrap_res CfApiCall (filter (\<lambda>rec. cfName rec = UnFqdn (d_fqdn r) \<and> cfType rec = d_type r))
            (cfRecordsList (cf_client c) (cfzID zone) w))"

definition cloudflare_RemoveRecord ::
    "('e, 'w) CloudflareProvider \<Rightarrow> dns_record \<Rightarrow> 'w \<Rightarrow> 'e cloudflare_error option \<times> 'w" where
  "cloudflare_RemoveRecord c =
     find_and_delete (cloudflare_findRecords c) (\<lambda>rec w.
       case cf_zone c of
         None \<Rightarrow> (Some CfNilZone, w)
       | Some zone \<Rightarrow> wrap_err CfApiCall (cfRecordsDelete (cf_client c) (cfzID zone) (cfID rec) w))"

definition cloudflare_UpdateRecord ::
    "('e, 'w) CloudflareProvider \<Rightarrow> dns_record \<Rightarrow> 'w \<Rightarrow> 'e cloudflare_error option \<times> 'w" where
  "cloudflare_UpdateRecord c = remove_then_add (cloudflare_RemoveRecord c) (cloudflare_AddRecord c)"

definition cloudflare_GetRecords ::
    "('e, 'w) CloudflareProvider \<Rightarrow> 'w \<Rightarrow> ('e cloudflare_error + dns_record list) \<times> 'w" where
  "cloudflare_GetRecords c w =
     (case cf_zone c of
        None \<Rightarrow> (Inl CfNilZone, w)
      | Some zone \<Rightarrow>
          wrap_res CfApiCall
            (\<lambda>result. group_records
               (map (\<lambda>rec. (Fqdn (cfName rec), cfType rec, cfContent rec, cfTTL rec)) result))
            (cfRecordsList (cf_client c) (cfzID zone) w))"

definition cloudflare_provider ::
    "(string \<Rightarrow> string \<Rightarrow> ('e, 'w) cf_client) \<Rightarrow> env
       \<Rightarrow> ('e cloudflare_error, ('e, 'w) CloudflareProvider \<times> 'w) provider" where
  "cloudflare_provider api_New env =
     \<lparr>pInit = (\<lambda>root. init_on (cloudflare_Init api_New env root)), pGetName = ''CloudFlare'',
      pHealthCheck = call_on cloudflare_HealthCheck,
      pAddRecord = (\<lambda>r. call_on (\<lambda>c. cloudflare_AddRecord c r)),
      pRemoveRecord = (\<lambda>r. call_on (\<lambda>c. cloudflare_RemoveRecord c r)),
      pUpdateRecord = (\<lambda>r. call_on (\<lambda>c. cloudflare_UpdateRecord c r)),
      pGetRecords = call_on cloudflare_GetRecords\<rparr>"

subsection \<open>The contract\<close>

abbreviation cloudflare_service ::
    "('e, 'w) cf_client \<Rightarrow> string \<Rightarrow> ('w \<Rightarrow> bool) \<Rightarrow> ('w \<Rightarrow> cf_record set)
       \<Rightarrow> (string \<Rightarrow> string \<Rightarrow> string \<Rightarrow> bool) \<Rightarrow> bool" where
  "cloudflare_service client zid ok recs valid \<equiv>
     record_api ok recs cfName cfType cfContent (cfRecordsList client zid)
       (\<lambda>n t v ttl. cfRecordsCreate client
          \<lparr>cfID = [], cfType = t, cfName = n, cfContent = v, cfTTL = ttl, cfZoneID = zid\<rparr>)
       (\<lambda>r. cfRecordsDelete client zid (cfID r)) (\<lambda>n. n) bare_name valid"

definition cloudflare_storable :: "(string \<Rightarrow> string \<Rightarrow> string \<Rightarrow> bool) \<Rightarrow> dns_record \<Rightarrow> bool" where
  "cloudflare_storable valid d =
     (full_name (d_fqdn d) \<and> d_records d \<noteq> [] \<and> list_all (valid (UnFqdn (d_fqdn d)) (d_type d)) (d_records d))"

definition cloudflare_zone :: "('w \<Rightarrow> cf_record set) \<Rightarrow> 'w \<Rightarrow> (string \<times> string) \<rightharpoonup> string set" where
  "cloudflare_zone recs w = store_view (\<lambda>r. (Fqdn (cfName r), cfType r)) cfContent (recs w)"

lemma cloudflare_records:
  assumes "cloudflare_service (cf_client c) (cfzID z) ok recs valid" and "cf_zone c = Some z"
  shows "remove_add ok (cloudflare_zone recs) (cloudflare_GetRecords c) (cloudflare_AddRecord c)
    (cloudflare_RemoveRecord c) (cloudflare_storable valid) (\<lambda>_. True)"
proof -
  let ?reads = "\<lambda>rec. (Fqdn (cfName rec), cfType rec, cfContent rec, cfTTL rec)"
  have "record_service ok recs (\<lambda>r. (Fqdn (cfName r), cfType r)) cfContent
    (\<lambda>w. wrap_res CfApiCall (\<lambda>rs. emit_records (get_ttl (group_ttls (map ?reads rs))) (group_map (map ?reads rs)))
       (cfRecordsList (cf_client c) (cfzID z) w))
    (\<lambda>d w. wrap_res CfApiCall (filter (\<lambda>r. cfName r = UnFqdn (d_fqdn d) \<and> cfType r = d_type d))
       (cfRecordsList (cf_client c) (cfzID z) w))
    (\<lambda>d v w. wrap_err CfApiCall (cfRecordsCreate (cf_client c) \<lparr>cfID = [], cfType = d_type d,
       cfName = UnFqdn (d_fqdn d), cfContent = v, cfTTL = sanitizeTTL (d_ttl d), cfZoneID = cfzID z\<rparr> w))
    (\<lambda>r w. wrap_err CfApiCall (cfRecordsDelete (cf_client c) (cfzID z) (cfID r) w))
    (cloudflare_storable valid) (\<lambda>_. True)"
    by (rule record_api.single_records [OF assms(1)])
      (auto simp: cloudflare_storable_def list_all_iff full_name_Fqdn intro!: bare_matches)
  from record_service.zone_operations [OF this] show ?thesis
    by (simp add: cloudflare_zone_def [abs_def] cloudflare_GetRecords_def [abs_def] cloudflare_AddRecord_def [abs_def]
        cloudflare_RemoveRecord_def [abs_def] cloudflare_findRecords_def [abs_def] cloudflare_prepareRecord_def
        group_records_def assms(2))
qed

lemmas cloudflare_methods = cloudflare_provider_def cloudflare_UpdateRecord_def call_on_pair

subsection \<open>The simulated service\<close>

definition cf_form :: "single_record \<Rightarrow> cf_record" where
  "cf_form s = \<lparr>cfID = id_text (srId s), cfType = srType s, cfName = srName s, cfContent = srData s,
     cfTTL = srTTL s, cfZoneID = ''Z1''\<rparr>"

definition cf_simulated :: "(string, store) cf_client" where
  "cf_simulated =
     \<lparr>cfZonesList = (\<lambda>w. (Inr [\<lparr>cfzID = ''Z1'', cfzName = ''ex.com''\<rparr>], w)),
      cfZonesDetails = (\<lambda>_ w. (None, w)),
      cfRecordsList = (\<lambda>_. ss_list cf_form),
      cfRecordsCreate = (\<lambda>r. ss_create (\<lambda>n. n) (cfName r) (cfType r) (cfContent r) (cfTTL r)),
      cfRecordsDelete = (\<lambda>_ i. ss_delete (length i))\<rparr>"

definition cf_valid :: "string \<Rightarrow> string \<Rightarrow> string \<Rightarrow> bool" where
  "cf_valid n t v = bare_name n"

interpretation cf_sim: record_api "ss_ok bare_name" "ss_recs cf_form" cfName cfType cfContent
  "cfRecordsList cf_simulated zid"
  "\<lambda>n t v ttl. cfRecordsCreate cf_simulated
     \<lparr>cfID = [], cfType = t, cfName = n, cfContent = v, cfTTL = ttl, cfZoneID = zid\<rparr>"
  "\<lambda>r. cfRecordsDelete cf_simulated zid (cfID r)" "\<lambda>n. n" bare_name cf_valid
  for zid
  using ss_record_api [of "\<lambda>r. length (cfID r)" cf_form cfName cfType cfContent cf_valid bare_name "\<lambda>n. n"]
  by (simp add: cf_form_def cf_simulated_def cf_valid_def)

definition ex_cloudflare :: "(string, store) CloudflareProvider \<times> store" where
  "ex_cloudflare = (\<lparr>cf_client = cf_simulated, cf_zone = Some \<lparr>cfzID = ''Z1'', cfzName = ''ex.com''\<rparr>,
     cf_root = ''ex.com''\<rparr>, ex_store UnFqdn)"

definition ex_cloudflare_run ::
    "(string cloudflare_error sync_error + metadata_dns_record list) \<times> (string, store) CloudflareProvider \<times> store" where
  "ex_cloudflare_run =
     UpdateProviderDnsRecords (cloudflare_provider (\<lambda>_ _. cf_simulated) (\<lambda>_. [])) ''u1'' ex_cfg ex_desired ex_cloudflare"

subsection \<open>Properties\<close>

text \<open>
  C11. A synchronization with Cloudflare that reports success leaves the zone as desired: single
  records are created, found and deleted so that every desired name has exactly the desired
  values, names that were owned and are not desired have none, and nothing else changes.
\<close>
theorem sync_cloudflare:
  assumes "cloudflare_service (cf_client c) (cfzID z) ok recs valid" and "cf_zone c = Some z" and "ok w"
    and "cloudflare_zone recs w (StateFqdn u (RootDomainName cfg), ''A'') = None"
    and "desired_ok (cloudflare_storable valid) (StateFqdn u (RootDomainName cfg)) desired"
    and "UpdateProviderDnsRecords (cloudflare_provider api_New env) u cfg desired (c, w) = (Inr updated, c', w')"
  shows "c' = c \<and> ok w'
    \<and> synchronized (StateFqdn u (RootDomainName cfg)) desired (cloudflare_zone recs w) (cloudflare_zone recs w')"
  using assms(4)
  by (intro remove_add.provider_sync [OF cloudflare_records [OF assms(1,2)] _ _ _ _ assms(3) _ assms(5,6)])
    (simp_all add: cloudflare_methods)

theorem sync_cloudflare_witness:
  "ex_after (cloudflare_zone (ss_recs cf_form) (snd (snd ex_cloudflare_run)))"
proof -
  have "isl (fst ex_cloudflare_run) = False" by code_simp
  then obtain updated c' w' where run: "ex_cloudflare_run = (Inr updated, c', w')" by (rule run_Inr)
  let ?z = "cloudflare_zone (ss_recs cf_form) (snd ex_cloudflare)"
  have z: "?z (ex_state_name, ''A'') = None" "?z (''mail.ex.com.'', ''A'') = Some {''10.9.9.9''}"
    "''old.s.e.ex.com.'' \<in> owned ex_state_name ?z" "''mail.ex.com.'' \<notin> owned ex_state_name ?z" by code_simp+
  have ok: "ss_ok bare_name (snd ex_cloudflare)" by code_simp
  have des: "desired_ok (cloudflare_storable cf_valid) ex_state_name ex_desired" by (rule ex_desired_okI) code_simp
  have zone: "cf_zone (fst ex_cloudflare) = Some \<lparr>cfzID = ''Z1'', cfzName = ''ex.com''\<rparr>"
    by (simp add: ex_cloudflare_def)
  have service: "cloudflare_service (cf_client (fst ex_cloudflare)) (cfzID \<lparr>cfzID = ''Z1'', cfzName = ''ex.com''\<rparr>)
      (ss_ok bare_name) (ss_recs cf_form) cf_valid"
    using cf_sim.record_api_axioms by (simp add: ex_cloudflare_def)
  from sync_cloudflare [OF service zone ok z(1) [folded ex_state_name_eq] des [folded ex_state_name_eq],
      of "\<lambda>_ _. cf_simulated" "\<lambda>_. []" updated c' w', unfolded ex_state_name_eq] run
  have "synchronized ex_state_name ex_desired ?z (cloudflare_zone (ss_recs cf_form) w')"
    by (simp add: ex_cloudflare_run_def)
  from ex_synchronized [OF this z(3,4,2)] show ?thesis by (simp only: run snd_conv)
qed

end
