(* ===== verification/DigitalOcean.thy ===== *)
theory DigitalOcean
  imports Example_Store
begin

text \<open>
  The DigitalOcean provider (src/providers/digitalocean/digitalocean.go). TTLs are those of the
  domain: \<open>Init\<close> puts them into the package variable \<open>config.TTL\<close>, which is the field \<open>do_TTL\<close> here.
  The rate limiter only delays and is left out. A listing is paged; the loop could run forever if
  the service repeated a page, so it takes a number of pages and reports \<open>DoUnfinished\<close> when they
  run out.
\<close>

record do_record =
  doID :: int
  doType :: string
  doName :: string
  doData :: string

record do_edit =
  deType :: string
  deName :: string
  deData :: string

record do_domain =
  ddName :: string
  ddTTL :: int

text \<open>What the links of a response say: whether this is the last page, and which page it is.\<close>

record 'e do_links =
  dlIsLastPage :: bool
  dlCurrentPage :: "'e + int"

record ('e, 'w) do_client =
  doAccountGet :: "'w \<Rightarrow> 'e option \<times> 'w"
  doDomainsGet :: "string \<Rightarrow> 'w \<Rightarrow> ('e + do_domain) \<times> 'w"
  doRecords :: "string \<Rightarrow> int \<Rightarrow> int \<Rightarrow> 'w \<Rightarrow> ('e + do_record list \<times> 'e do_links option) \<times> 'w"
  doCreateRecord :: "string \<Rightarrow> do_edit \<Rightarrow> 'w \<Rightarrow> 'e option \<times> 'w"
  doDeleteRecord :: "string \<Rightarrow> int \<Rightarrow> 'w \<Rightarrow> 'e option \<times> 'w"

record ('e, 'w) DigitalOceanProvider =
  do_client :: "('e, 'w) do_client"
  do_rootDomainName :: string
  do_TTL :: int

datatype 'e digitalocean_error =
  DoNoPAT | DoAccount 'e | DoDomain 'e | DoApiCall 'e | DoCurrentPage 'e | DoUnfinished
| DoRemoveRecord "'e digitalocean_error" | DoGetRecords "'e digitalocean_error"

subsection \<open>Operations\<close>

definition digitalocean_Init ::
    "(string \<Rightarrow> ('e, 'w) do_client) \<Rightarrow> env \<Rightarrow> string \<Rightarrow> ('e, 'w) DigitalOceanProvider \<Rightarrow> 'w
       \<Rightarrow> 'e digitalocean_error option \<times> ('e, 'w) DigitalOceanProvider \<times> 'w" where
  "digitalocean_Init newClient env rootDomainName p w =
     (let pat = env ''DO_PAT'' in
      if pat = [] then (Some DoNoPAT, p, w)
      else let p1 = p\<lparr>do_client := newClient pat, do_rootDomainName := UnFqdn rootDomainName\<rparr> in
        case doAccountGet (do_client p1) w of
          (Some e, w1) \<Rightarrow> (Some (DoAccount e), p1, w1)
        | (None, w1) \<Rightarrow>
            (case doDomainsGet (do_client p1) (do_rootDomainName p1) w1 of
               (Inl e, w2) \<Rightarrow> (Some (DoDomain e), p1, w2)
             | (Inr domain, w2) \<Rightarrow> (None, p1\<lparr>do_TTL := ddTTL domain\<rparr>, w2)))"

definition digitalocean_HealthCheck ::
    "('e, 'w) DigitalOceanProvider \<Rightarrow> 'w \<Rightarrow> 'e digitalocean_error option \<times> 'w" where
  "digitalocean_HealthCheck p w =
     (case doDomainsGet (do_client p) (do_rootDomainName p) w of
        (Inl e, w') \<Rightarrow> (Some (DoDomain e), w') | (Inr _, w') \<Rightarrow> (None, w'))"

definition nameToFqdn :: "string \<Rightarrow> string \<Rightarrow> string" where
  "nameToFqdn root name = Fqdn (if name = ''@'' then root else Join [name, root] ''.'')"

definition digitalocean_AddRecord ::
    "('e, 'w) DigitalOceanProvider \<Rightarrow> dns_record \<Rightarrow> 'w \<Rightarrow> 'e digitalocean_error option \<times> 'w" where
  "digitalocean_AddRecord p r =
     for_each (\<lambda>rec w. wrap_err DoApiCall
       (doCreateRecord (do_client p) (do_rootDomainName p)
          \<lparr>deType = d_type r, deName = d_fqdn r, deData = rec\<rparr> w)) (d_records r)"

fun fetchDoRecords_loop ::
    "nat \<Rightarrow> ('e, 'w) DigitalOceanProvider \<Rightarrow> int \<Rightarrow> do_record list \<Rightarrow> 'w
       \<Rightarrow> ('e digitalocean_error + do_record list) \<times> 'w" where
  "fetchDoRecords_loop 0 p page doRecs w = (Inl DoUnfinished, w)"
| "fetchDoRecords_loop (Suc fuel) p page doRecs w =
     (case doRecords (do_client p) (do_rootDomainName p) page 200 w of
        (Inl e, w') \<Rightarrow> (Inl (DoApiCall e), w')
      | (Inr (records, links), w') \<Rightarrow>
          (case links of
             None \<Rightarrow> (Inr (doRecs @ records), w')
           | Some l \<Rightarrow>
               if dlIsLastPage l \<or> records = [] then (Inr (doRecs @ records), w')
               else (case dlCurrentPage l of
                       Inl e \<Rightarrow> (Inl (DoCurrentPage e), w')
                     | Inr current \<Rightarrow> fetchDoRecords_loop fuel p (current + 1) (doRecs @ records) w')))"

definition fetchDoRecords ::
    "nat \<Rightarrow> ('e, 'w) DigitalOceanProvider \<Rightarrow> 'w \<Rightarrow> ('e digitalocean_error + do_record list) \<times> 'w" where
  "fetchDoRecords fuel p = fetchDoRecords_loop fuel p 0 []"

definition digitalocean_RemoveRecord ::
    "nat \<Rightarrow> ('e, 'w) DigitalOceanProvider \<Rightarrow> dns_record \<Rightarrow> 'w \<Rightarrow> 'e digitalocean_error option \<times> 'w" where
  "digitalocean_RemoveRecord fuel p =
     find_and_delete
       (\<lambda>r w. wrap_res DoRemoveRecord
          (filter (\<lambda>rec. nameToFqdn (do_rootDomainName p) (doName rec) = d_fqdn r \<and> doType rec = d_type r))
          (fetchDoRecords fuel p w))
       (\<lambda>rec w. wrap_err DoApiCall (doDeleteRecord (do_client p) (do_rootDomainName p) (doID rec) w))"

definition digitalocean_UpdateRecord ::
    "nat \<Rightarrow> ('e, 'w) DigitalOceanProvider \<Rightarrow> dns_record \<Rightarrow> 'w \<Rightarrow> 'e digitalocean_error option \<times> 'w" where
  "digitalocean_UpdateRecord fuel p = remove_then_add (digitalocean_RemoveRecord fuel p) (digitalocean_AddRecord p)"

definition digitalocean_GetRecords ::
    "nat \<Rightarrow> ('e, 'w) DigitalOceanProvider \<Rightarrow> 'w \<Rightarrow> ('e digitalocean_error + dns_record list) \<times> 'w" where
  "digitalocean_GetRecords fuel p w =
     wrap_res DoGetRecords
       (\<lambda>doRecs. emit_records (\<lambda>_ _. do_TTL p) (group_map
          (map (\<lambda>rec. (nameToFqdn (do_rootDomainName p) (doName rec), doType rec, doData rec, do_TTL p)) doRecs)))
       (fetchDoRecords fuel p w)"

definition digitalocean_provider ::
    "(string \<Rightarrow> ('e, 'w) do_client) \<Rightarrow> env \<Rightarrow> nat
       \<Rightarrow> ('e digitalocean_error, ('e, 'w) DigitalOceanProvider \<times> 'w) provider" where
  "digitalocean_provider newClient env fuel =
     \<lparr>pInit = (\<lambda>root. init_on (digitalocean_Init newClient env root)), pGetName = ''DigitalOcean'',
      pHealthCheck = call_on digitalocean_HealthCheck,
      pAddRecord = (\<lambda>r. call_on (\<lambda>p. digitalocean_AddRecord p r)),
      pRemoveRecord = (\<lambda>r. call_on (\<lambda>p. digitalocean_RemoveRecord fuel p r)),
      pUpdateRecord = (\<lambda>r. call_on (\<lambda>p. digitalocean_UpdateRecord fuel p r)),
      pGetRecords = call_on (digitalocean_GetRecords fuel)\<rparr>"

subsection \<open>What the service documents\<close>

text \<open>\<open>listed w page\<close> are the records from that page on. A full name that is sent is stored relative
  to the domain, with the sign @ for the domain itself.\<close>

definition do_stored :: "string \<Rightarrow> string \<Rightarrow> string" where
  "do_stored root f = (if f = root @ ''.'' then ''@'' else relative_name root f)"

definition do_storable :: "string \<Rightarrow> (string \<Rightarrow> string \<Rightarrow> string \<Rightarrow> bool) \<Rightarrow> dns_record \<Rightarrow> bool" where
  "do_storable root valid d =
     (bare_name root \<and> (d_fqdn d = root @ ''.'' \<or> below_root root (d_fqdn d) \<and> relative_name root (d_fqdn d) \<noteq> ''@'')
      \<and> d_records d \<noteq> [] \<and> list_all (valid (d_fqdn d) (d_type d)) (d_records d))"

definition do_zone :: "string \<Rightarrow> ('w \<Rightarrow> do_record set) \<Rightarrow> 'w \<Rightarrow> (string \<times> string) \<rightharpoonup> string set" where
  "do_zone root recs w = store_view (\<lambda>r. (nameToFqdn root (doName r), doType r)) doData (recs w)"

locale digitalocean_api =
  fixes cl :: "('e, 'w) do_client"
    and root :: string
    and ok :: "'w \<Rightarrow> bool"
    and recs :: "'w \<Rightarrow> do_record set"
    and listed :: "'w \<Rightarrow> int \<Rightarrow> do_record list"
    and valid :: "string \<Rightarrow> string \<Rightarrow> string \<Rightarrow> bool"
  assumes list_first: "ok w \<Longrightarrow> distinct (listed w 0) \<and> set (listed w 0) = recs w"
    and list_frame: "ok w \<Longrightarrow> doRecords cl root page 200 w = (res, w') \<Longrightarrow>
          ok w' \<and> recs w' = recs w \<and> listed w' = listed w"
    and list_page: "ok w \<Longrightarrow> doRecords cl root page 200 w = (Inr (rs, links), w') \<Longrightarrow>
          (case links of
             None \<Rightarrow> listed w page = rs
           | Some l \<Rightarrow>
               if dlIsLastPage l \<or> rs = [] then listed w page = rs
               else \<exists>current. dlCurrentPage l = Inr current \<and> listed w page = rs @ listed w (current + 1))"
    and create_frame: "ok w \<Longrightarrow> valid n t v \<Longrightarrow> doCreateRecord cl root \<lparr>deType = t, deName = n, deData = v\<rparr> w = (e, w') \<Longrightarrow>
          ok w' \<and> (recs w' = recs w \<or> (\<exists>r. doName r = do_stored root n \<and> doType r = t \<and> doData r = v
            \<and> recs w' = insert r (recs w)))"
    and create_ok: "ok w \<Longrightarrow> valid n t v \<Longrightarrow> doCreateRecord cl root \<lparr>deType = t, deName = n, deData = v\<rparr> w = (None, w') \<Longrightarrow>
          \<exists>r \<in> recs w'. doName r = do_stored root n \<and> doType r = t \<and> doData r = v"
    and delete_frame: "ok w \<Longrightarrow> r \<in> recs w \<Longrightarrow> doDeleteRecord cl root (doID r) w = (e, w') \<Longrightarrow>
          ok w' \<and> (recs w' = recs w \<or> recs w' = recs w - {r})"
    and delete_ok: "ok w \<Longrightarrow> r \<in> recs w \<Longrightarrow> doDeleteRecord cl root (doID r) w = (None, w') \<Longrightarrow> r \<notin> recs w'"
begin

lemma fetch_loop:
  assumes "do_client p = cl" and "do_rootDomainName p = root" and "ok w"
    and "fetchDoRecords_loop fuel p page acc w = (res, w')"
  shows "ok w' \<and> recs w' = recs w \<and> (\<forall>rs. res = Inr rs \<longrightarrow> rs = acc @ listed w page)
    \<and> (length (listed w page) < fuel \<longrightarrow> res \<noteq> Inl DoUnfinished)"
  using assms(3,4)
proof (induction fuel arbitrary: page acc w)
  case (Suc fuel)
  obtain ans w1 where call: "doRecords cl root page 200 w = (ans, w1)" by fastforce
  note frame = list_frame [OF Suc.prems(1) call]
  show ?case
  proof (cases ans)
    case (Inl e)
    with Suc.prems(2) call frame assms(1,2) show ?thesis by auto
  next
    case (Inr a)
    obtain rs links where a: "a = (rs, links)" by (cases a)
    note law = list_page [OF Suc.prems(1) call [unfolded Inr a]]
    show ?thesis
    proof (cases "\<exists>l. links = Some l \<and> \<not> dlIsLastPage l \<and> rs \<noteq> []")
      case True
      then obtain l where l: "links = Some l" "\<not> dlIsLastPage l" "rs \<noteq> []" by blast
      with law obtain current where cur: "dlCurrentPage l = Inr current" "listed w page = rs @ listed w (current + 1)"
        by auto
      have run: "fetchDoRecords_loop fuel p (current + 1) (acc @ rs) w1 = (res, w')"
        using Suc.prems(2) call Inr a l cur(1) assms(1,2) by simp
      from Suc.IH [OF frame [THEN conjunct1] run] frame cur(2) l(3) show ?thesis by (cases rs) auto
    next
      case False
      with Suc.prems(2) call Inr a law frame assms(1,2) show ?thesis by (auto split: option.splits if_splits)
    qed
  qed
qed auto

lemma fetch_all:
  assumes "do_client p = cl" and "do_rootDomainName p = root"
  shows "record_api ok recs doName doType doData (fetchDoRecords fuel p)
    (\<lambda>n t v ttl w. wrap_err DoApiCall (doCreateRecord cl root \<lparr>deType = t, deName = n, deData = v\<rparr> w))
    (\<lambda>r w. wrap_err DoApiCall (doDeleteRecord cl root (doID r) w))
    (do_stored root) (\<lambda>_. True) valid"
proof (unfold_locales, goal_cases)
  case (2 w res w')
  then show ?case using fetch_loop [OF assms 2(1)] by (simp add: fetchDoRecords_def)
next
  case (3 w rs w')
  then show ?case using fetch_loop [OF assms 3(1)] list_first [OF 3(1)] by (fastforce simp: fetchDoRecords_def)
next
  case (4 w n t v ttl e w')
  then show ?case using create_frame [OF 4(1,2), of _ w'] by (auto simp: wrap_err_def prod_eq_iff)
next
  case (5 w n t v ttl w')
  then show ?case using create_ok [OF 5(1,2), of w'] by (auto simp: wrap_err_def prod_eq_iff)
next
  case (6 w r e w')
  then show ?case using delete_frame [OF 6(1,2), of _ w'] by (auto simp: wrap_err_def prod_eq_iff)
next
  case (7 w r w')
  then show ?case using delete_ok [OF 7(1,2), of w'] by (auto simp: wrap_err_def prod_eq_iff)
qed simp

lemma stored_name: "do_storable root valid d \<Longrightarrow> nameToFqdn root (do_stored root (d_fqdn d)) = d_fqdn d"
  using absolute_relative [of root "d_fqdn d"]
  by (auto simp: do_storable_def do_stored_def nameToFqdn_def bare_name_def Fqdn_def below_root_def absolute_name_def
      split: if_splits)

lemma records:
  assumes "do_client p = cl" and "do_rootDomainName p = root"
  shows "remove_add ok (do_zone root recs) (digitalocean_GetRecords fuel p) (digitalocean_AddRecord p)
    (digitalocean_RemoveRecord fuel p) (do_storable root valid) (\<lambda>_. True)"
proof -
  let ?reads = "\<lambda>rec. (nameToFqdn root (doName rec), doType rec, doData rec, do_TTL p)"
  have "record_service ok recs (\<lambda>r. (nameToFqdn root (doName r), doType r)) doData
    (\<lambda>w. wrap_res DoGetRecords (\<lambda>rs. emit_records (\<lambda>_ _. do_TTL p) (group_map (map ?reads rs))) (fetchDoRecords fuel p w))
    (\<lambda>r w. wrap_res DoRemoveRecord (filter (\<lambda>x. nameToFqdn root (doName x) = d_fqdn r \<and> doType x = d_type r))
       (fetchDoRecords fuel p w))
    (\<lambda>r v w. wrap_err (\<lambda>e. e) (wrap_err DoApiCall (doCreateRecord cl root \<lparr>deType = d_type r, deName = d_fqdn r, deData = v\<rparr> w)))
    (\<lambda>r w. wrap_err (\<lambda>e. e) (wrap_err DoApiCall (doDeleteRecord cl root (doID r) w)))
    (do_storable root valid) (\<lambda>_. True)"
    by (rule record_api.single_records [OF fetch_all [OF assms]])
      (auto simp: stored_name, auto simp: do_storable_def list_all_iff)
  from record_service.zone_operations [OF this] show ?thesis
    by (simp add: do_zone_def [abs_def] digitalocean_GetRecords_def [abs_def] digitalocean_AddRecord_def [abs_def]
        digitalocean_RemoveRecord_def [abs_def] assms)
qed

end

lemmas digitalocean_methods = digitalocean_provider_def digitalocean_UpdateRecord_def call_on_pair

subsection \<open>The simulated service\<close>

definition do_form :: "single_record \<Rightarrow> do_record" where
  "do_form s = \<lparr>doID = int (srId s), doType = srType s, doName = srName s, doData = srData s\<rparr>"

definition do_from :: "int \<Rightarrow> store \<Rightarrow> int \<Rightarrow> do_record list" where
  "do_from per w page = drop (nat ((max 1 page - 1) * per)) (map do_form (ssRecords w))"

definition do_simulated :: "(string, store) do_client" where
  "do_simulated =
     \<lparr>doAccountGet = (\<lambda>w. (None, w)), doDomainsGet = (\<lambda>_ w. (Inr \<lparr>ddName = ''ex.com'', ddTTL = 1800\<rparr>, w)),
      doRecords = (\<lambda>_ page per w.
        if ss_faulty w then (Inl ''unavailable'', ss_tick w)
        else (Inr (take (nat per) (do_from per w page),
               Some \<lparr>dlIsLastPage = length (do_from per w page) \<le> nat per, dlCurrentPage = Inr (max 1 page)\<rparr>), ss_tick w)),
      doCreateRecord = (\<lambda>root e. ss_create (do_stored root) (deName e) (deType e) (deData e) 1800),
      doDeleteRecord = (\<lambda>_ i. ss_delete (nat i))\<rparr>"

lemma do_base: "record_api (ss_ok (\<lambda>_. True)) (ss_recs do_form) doName doType doData
    (ss_list do_form) (ss_create (do_stored root)) (\<lambda>r. ss_delete (nat (doID r))) (do_stored root) (\<lambda>_. True) (\<lambda>_ _ _. True)"
  by (rule ss_record_api) (simp_all add: do_form_def)

interpretation do_sim: digitalocean_api do_simulated root "ss_ok (\<lambda>_. True)" "ss_recs do_form" "do_from 200" "\<lambda>_ _ _. True"
  for root
proof (unfold_locales, goal_cases)
  case (1 w)
  have "inj_on do_form (set (ssRecords w))"
    using 1 by (auto simp: ss_ok_def do_form_def inj_on_def distinct_map)
  with 1 show ?case by (auto simp: do_from_def ss_ok_def ss_recs_def distinct_map)
next
  case (2 w page res w')
  then show ?case by (auto simp: do_simulated_def ss_ok_def ss_recs_def do_from_def split: if_splits)
next
  case (3 w page rs links w')
  have "do_from 200 w page = take 200 (do_from 200 w page) @ do_from 200 w (max 1 page + 1)"
  proof -
    have "nat ((max 1 (max 1 page + 1) - 1) * 200) = 200 + nat ((max 1 page - 1) * 200)" by (simp add: nat_eq_iff)
    then have "do_from 200 w (max 1 page + 1) = drop 200 (do_from 200 w page)" by (simp add: do_from_def)
    then show ?thesis by (metis append_take_drop_id)
  qed
  with 3 show ?case by (auto simp: do_simulated_def split: if_splits)
next
  case (4 w n t v e w')
  then show ?case using record_api.creates_frame [OF do_base 4(1)] by (simp add: do_simulated_def)
next
  case (5 w n t v w')
  then show ?case using record_api.creates_ok [OF do_base 5(1)] by (simp add: do_simulated_def)
next
  case (6 w r e w')
  then show ?case using record_api.deletes_frame [OF do_base 6(1,2)] by (simp add: do_simulated_def)
next
  case (7 w r w')
  then show ?case using record_api.deletes_ok [OF do_base 7(1,2)] by (simp add: do_simulated_def)
qed

definition ex_digitalocean :: "(string, store) DigitalOceanProvider \<times> store" where
  "ex_digitalocean = (\<lparr>do_client = do_simulated, do_rootDomainName = ''ex.com'', do_TTL = 1800\<rparr>,
     ex_store (relative_name ''ex.com''))"

definition ex_digitalocean_run ::
    "(string digitalocean_error sync_error + metadata_dns_record list) \<times> (string, store) DigitalOceanProvider \<times> store" where
  "ex_digitalocean_run =
     UpdateProviderDnsRecords (digitalocean_provider (\<lambda>_. do_simulated) (\<lambda>_. []) 2) ''u1'' ex_cfg ex_desired ex_digitalocean"

subsection \<open>Properties\<close>

text \<open>
  C12. A synchronization with DigitalOcean that reports success leaves the zone as desired, at the
  root of the domain too: full names are sent, relative ones are read, all pages are fetched, and
  the paging ends within one page for each record and one more.
\<close>
theorem sync_digitalocean:
  assumes "digitalocean_api (do_client p) (do_rootDomainName p) ok recs listed valid" and "ok w"
    and "do_zone (do_rootDomainName p) recs w (StateFqdn u (RootDomainName cfg), ''A'') = None"
    and "desired_ok (do_storable (do_rootDomainName p) valid) (StateFqdn u (RootDomainName cfg)) desired"
    and "UpdateProviderDnsRecords (digitalocean_provider newClient env fuel) u cfg desired (p, w) = (Inr updated, p', w')"
  shows "p' = p \<and> ok w' \<and> synchronized (StateFqdn u (RootDomainName cfg)) desired
      (do_zone (do_rootDomainName p) recs w) (do_zone (do_rootDomainName p) recs w')
    \<and> (card (recs w) < n \<longrightarrow> fst (fetchDoRecords n p w) \<noteq> Inl DoUnfinished)"
proof -
  note api = digitalocean_api.records [OF assms(1) refl refl]
  have "length (listed w 0) = card (recs w)"
    using digitalocean_api.list_first [OF assms(1,2)] by (metis distinct_card)
  with digitalocean_api.fetch_loop [OF assms(1) refl refl assms(2), of n 0 "[]" "fst (fetchDoRecords n p w)" "snd (fetchDoRecords n p w)"]
  have "card (recs w) < n \<longrightarrow> fst (fetchDoRecords n p w) \<noteq> Inl DoUnfinished" by (simp add: fetchDoRecords_def)
  moreover have "p' = p \<and> ok w' \<and> synchronized (StateFqdn u (RootDomainName cfg)) desired
      (do_zone (do_rootDomainName p) recs w) (do_zone (do_rootDomainName p) recs w')"
    using assms(3) by (intro remove_add.provider_sync [OF api _ _ _ _ assms(2) _ assms(4,5)])
      (simp_all add: digitalocean_methods)
  ultimately show ?thesis by blast
qed

theorem sync_digitalocean_witness:
  "ex_after (do_zone ''ex.com'' (ss_recs do_form) (snd (snd ex_digitalocean_run)))
   \<and> fst (fetchDoRecords 6 (fst ex_digitalocean) (snd ex_digitalocean)) \<noteq> Inl DoUnfinished"
proof -
  have "isl (fst ex_digitalocean_run) = False" by code_simp
  then obtain updated p' w' where run: "ex_digitalocean_run = (Inr updated, p', w')" by (rule run_Inr)
  let ?z = "do_zone ''ex.com'' (ss_recs do_form) (snd ex_digitalocean)"
  have z: "?z (ex_state_name, ''A'') = None" "?z (''mail.ex.com.'', ''A'') = Some {''10.9.9.9''}"
    "''old.s.e.ex.com.'' \<in> owned ex_state_name ?z" "''mail.ex.com.'' \<notin> owned ex_state_name ?z" by code_simp+
  have ok: "ss_ok (\<lambda>_. True) (snd ex_digitalocean)" by code_simp
  have few: "card (ss_recs do_form (snd ex_digitalocean)) < 6"
  proof -
    have "card (set (ssRecords (snd ex_digitalocean))) \<le> 5"
      using card_length [of "ssRecords (snd ex_digitalocean)"] by (simp add: ex_digitalocean_def ex_store_def)
    then show ?thesis using card_image_le [of "set (ssRecords (snd ex_digitalocean))" do_form] by (simp add: ss_recs_def)
  qed
  have des: "desired_ok (do_storable ''ex.com'' (\<lambda>_ _ _. True)) ex_state_name ex_desired"
    by (rule ex_desired_okI) code_simp
  have p: "do_rootDomainName (fst ex_digitalocean) = ''ex.com''" "do_client (fst ex_digitalocean) = do_simulated"
    by (simp_all add: ex_digitalocean_def)
  have "synchronized ex_state_name ex_desired ?z (do_zone ''ex.com'' (ss_recs do_form) w')
      \<and> fst (fetchDoRecords 6 (fst ex_digitalocean) (snd ex_digitalocean)) \<noteq> Inl DoUnfinished"
    using sync_digitalocean [where p = "fst ex_digitalocean" and w = "snd ex_digitalocean" and u = "''u1''" and cfg = ex_cfg
        and newClient = "\<lambda>_. do_simulated" and env = "\<lambda>_. []" and desired = ex_desired and ok = "ss_ok (\<lambda>_. True)"
        and recs = "ss_recs do_form" and valid = "\<lambda>_ _ _. True" and listed = "do_from 200" and fuel = 2 and n = 6
        and updated = updated and p' = p' and w' = w']
      do_sim.digitalocean_api_axioms z(1) ok des run few
    by (simp add: ex_digitalocean_run_def p ex_state_name_eq)
  with ex_synchronized [OF _ z(3,4,2)] show ?thesis by (simp only: run snd_conv simp_thms)
qed

end
