(* ===== verification/DNSimple.thy ===== *)
theory DNSimple
  imports Example_Store
begin

text \<open>
  The DNSimple provider (src/providers/dnsimple/dnsimple.go). Names are relative to the root domain;
  \<open>parseName\<close> makes them from full names, except for the root domain itself. The listing is the one
  page that \<open>ListRecords\<close> returns without options, so the contract needs a zone of one page.
\<close>

record ds_record =
  dsID :: int
  dsName :: string
  dsType :: string
  dsContent :: string
  dsTTL :: int

record ds_attributes =
  daName :: string
  daTTL :: int
  daType :: string
  daContent :: string

record ('e, 'w) ds_client =
  dsWhoami :: "'w \<Rightarrow> ('e + int option) \<times> 'w"
  dsGetZone :: "string \<Rightarrow> string \<Rightarrow> 'w \<Rightarrow> 'e option \<times> 'w"
  dsListRecords :: "string \<Rightarrow> string \<Rightarrow> 'w \<Rightarrow> ('e + ds_record list) \<times> 'w"
  dsCreateRecord :: "string \<Rightarrow> string \<Rightarrow> ds_attributes \<Rightarrow> 'w \<Rightarrow> 'e option \<times> 'w"
  dsDeleteRecord :: "string \<Rightarrow> string \<Rightarrow> int \<Rightarrow> 'w \<Rightarrow> 'e option \<times> 'w"

record ('e, 'w) DNSimpleProvider =
  ds_client :: "('e, 'w) ds_client"
  ds_accountID :: string
  ds_root :: string

datatype 'e dnsimple_error =
  DsOldConfiguration | DsNoToken | DsAuthentication 'e | DsUserToken | DsNoZone string 'e | DsApiCall 'e | DsWhoami 'e

subsection \<open>Operations\<close>

text \<open>The answer of \<open>Whoami\<close> is the account of the token, if it has one.\<close>

definition dnsimple_Init ::
    "(string \<Rightarrow> ('e, 'w) ds_client) \<Rightarrow> env \<Rightarrow> string \<Rightarrow> ('e, 'w) DNSimpleProvider \<Rightarrow> 'w
       \<Rightarrow> 'e dnsimple_error option \<times> ('e, 'w) DNSimpleProvider \<times> 'w" where
  "dnsimple_Init newClient env rootDomainName d w =
     (if env ''DNSIMPLE_EMAIL'' \<noteq> [] then (Some DsOldConfiguration, d, w)
      else if env ''DNSIMPLE_TOKEN'' = [] then (Some DsNoToken, d, w)
      else let d1 = d\<lparr>ds_root := UnFqdn rootDomainName, ds_client := newClient (env ''DNSIMPLE_TOKEN'')\<rparr> in
        case dsWhoami (ds_client d1) w of
          (Inl e, w1) \<Rightarrow> (Some (DsAuthentication e), d1, w1)
        | (Inr None, w1) \<Rightarrow> (Some DsUserToken, d1, w1)
        | (Inr (Some account), w1) \<Rightarrow>
            (let d2 = d1\<lparr>ds_accountID := FormatInt account\<rparr> in
             case dsGetZone (ds_client d2) (ds_accountID d2) (ds_root d2) w1 of
               (Some e, w2) \<Rightarrow> (Some (DsNoZone (ds_root d2) e), d2, w2)
             | (None, w2) \<Rightarrow> (None, d2, w2)))"

definition dnsimple_HealthCheck :: "('e, 'w) DNSimpleProvider \<Rightarrow> 'w \<Rightarrow> 'e dnsimple_error option \<times> 'w" where
  "dnsimple_HealthCheck d w =
     (case dsWhoami (ds_client d) w of (Inl e, w') \<Rightarrow> (Some (DsWhoami e), w') | (Inr _, w') \<Rightarrow> (None, w'))"

definition dnsimple_parseName :: "('e, 'w) DNSimpleProvider \<Rightarrow> dns_record \<Rightarrow> string" where
  "dnsimple_parseName d r = TrimSuffix (d_fqdn r) (''.'' @ ds_root d @ ''.'')"

definition dnsimple_AddRecord ::
    "('e, 'w) DNSimpleProvider \<Rightarrow> dns_record \<Rightarrow> 'w \<Rightarrow> 'e dnsimple_error option \<times> 'w" where
  "dnsimple_AddRecord d r =
     for_each (\<lambda>rec w. wrap_err DsApiCall
       (dsCreateRecord (ds_client d) (ds_accountID d) (ds_root d)
          \<lparr>daName = dnsimple_parseName d r, daTTL = d_ttl r, daType = d_type r, daContent = rec\<rparr> w))
       (d_records r)"

definition dnsimple_findRecords ::
    "('e, 'w) DNSimpleProvider \<Rightarrow> dns_record \<Rightarrow> 'w \<Rightarrow> ('e dnsimple_error + ds_record list) \<times> 'w" where
  "dnsimple_findRecords d r w =
     wrap_res DsApiCall
       (filter (\<lambda>zoneRecord. dsName zoneRecord = dnsimple_parseName d r \<and> dsType zoneRecord = d_type r))
       (dsListRecords (ds_client d) (ds_accountID d) (ds_root d) w)"

definition dnsimple_RemoveRecord ::
    "('e, 'w) DNSimpleProvider \<Rightarrow> dns_record \<Rightarrow> 'w \<Rightarrow> 'e dnsimple_error option \<times> 'w" where
  "dnsimple_RemoveRecord d =
     find_and_delete (dnsimple_findRecords d) (\<lambda>zoneRecord w.
       wrap_err DsApiCall (dsDeleteRecord (ds_client d) (ds_accountID d) (ds_root d) (dsID zoneRecord) w))"

definition dnsimple_UpdateRecord ::
    "('e, 'w) DNSimpleProvider \<Rightarrow> dns_record \<Rightarrow> 'w \<Rightarrow> 'e dnsimple_error option \<times> 'w" where
  "dnsimple_UpdateRecord d = remove_then_add (dnsimple_RemoveRecord d) (dnsimple_AddRecord d)"

definition dnsimple_GetRecords ::
    "('e, 'w) DNSimpleProvider \<Rightarrow> 'w \<Rightarrow> ('e dnsimple_error + dns_record list) \<times> 'w" where
  "dnsimple_GetRecords d w =
     wrap_res DsApiCall
       (\<lambda>zoneRecords. group_records (map (\<lambda>zoneRecord.
          (if dsName zoneRecord = [] then ds_root d @ ''.'' else dsName zoneRecord @ ''.'' @ ds_root d @ ''.'',
           dsType zoneRecord, dsContent zoneRecord, dsTTL zoneRecord)) zoneRecords))
       (dsListRecords (ds_client d) (ds_accountID d) (ds_root d) w)"

definition dnsimple_provider ::
    "(string \<Rightarrow> ('e, 'w) ds_client) \<Rightarrow> env
       \<Rightarrow> ('e dnsimple_error, ('e, 'w) DNSimpleProvider \<times> 'w) provider" where
  "dnsimple_provider newClient env =
     \<lparr>pInit = (\<lambda>root. init_on (dnsimple_Init newClient env root)), pGetName = ''DNSimple'',
      pHealthCheck = call_on dnsimple_HealthCheck,
      pAddRecord = (\<lambda>r. call_on (\<lambda>d. dnsimple_AddRecord d r)),
      pRemoveRecord = (\<lambda>r. call_on (\<lambda>d. dnsimple_RemoveRecord d r)),
      pUpdateRecord = (\<lambda>r. call_on (\<lambda>d. dnsimple_UpdateRecord d r)),
      pGetRecords = call_on dnsimple_GetRecords\<rparr>"

subsection \<open>The contract\<close>

abbreviation dnsimple_service ::
    "('e, 'w) ds_client \<Rightarrow> string \<Rightarrow> string \<Rightarrow> ('w \<Rightarrow> bool) \<Rightarrow> ('w \<Rightarrow> ds_record set)
       \<Rightarrow> (string \<Rightarrow> string \<Rightarrow> string \<Rightarrow> bool) \<Rightarrow> bool" where
  "dnsimple_service client account root ok recs valid \<equiv>
     record_api ok recs dsName dsType dsContent (dsListRecords client account root)
       (\<lambda>n t v ttl. dsCreateRecord client account root \<lparr>daName = n, daTTL = ttl, daType = t, daContent = v\<rparr>)
       (\<lambda>r. dsDeleteRecord client account root (dsID r)) (\<lambda>n. n) (\<lambda>_. True) valid"

definition dnsimple_zone ::
    "string \<Rightarrow> ('w \<Rightarrow> ds_record set) \<Rightarrow> 'w \<Rightarrow> (string \<times> string) \<rightharpoonup> string set" where
  "dnsimple_zone root recs w = store_view (\<lambda>r. (absolute_name root (dsName r), dsType r)) dsContent (recs w)"

lemma dnsimple_records:
  assumes "dnsimple_service (ds_client d) (ds_accountID d) (ds_root d) ok recs valid"
  shows "remove_add ok (dnsimple_zone (ds_root d) recs) (dnsimple_GetRecords d) (dnsimple_AddRecord d)
    (dnsimple_RemoveRecord d) (relative_storable (ds_root d) valid) (not_root (ds_root d))"
proof -
  let ?reads = "\<lambda>rec. (absolute_name (ds_root d) (dsName rec), dsType rec, dsContent rec, dsTTL rec)"
  have "record_service ok recs (\<lambda>r. (absolute_name (ds_root d) (dsName r), dsType r)) dsContent
    (\<lambda>w. wrap_res DsApiCall (\<lambda>rs. emit_records (get_ttl (group_ttls (map ?reads rs))) (group_map (map ?reads rs)))
       (dsListRecords (ds_client d) (ds_accountID d) (ds_root d) w))
    (\<lambda>r w. wrap_res DsApiCall (filter (\<lambda>x. dsName x = relative_name (ds_root d) (d_fqdn r) \<and> dsType x = d_type r))
       (dsListRecords (ds_client d) (ds_accountID d) (ds_root d) w))
    (\<lambda>r v w. wrap_err DsApiCall (dsCreateRecord (ds_client d) (ds_accountID d) (ds_root d)
       \<lparr>daName = relative_name (ds_root d) (d_fqdn r), daTTL = d_ttl r, daType = d_type r, daContent = v\<rparr> w))
    (\<lambda>r w. wrap_err DsApiCall (dsDeleteRecord (ds_client d) (ds_accountID d) (ds_root d) (dsID r) w))
    (relative_storable (ds_root d) valid) (not_root (ds_root d))"
    by (rule record_api.single_records [OF assms])
      (auto simp: relative_storable_def list_all_iff absolute_relative not_root_def rkey_def
        intro!: relative_matches)
  from record_service.zone_operations [OF this] show ?thesis
    by (simp add: dnsimple_zone_def [abs_def] dnsimple_GetRecords_def [abs_def] dnsimple_AddRecord_def [abs_def]
        dnsimple_RemoveRecord_def [abs_def] dnsimple_findRecords_def [abs_def] dnsimple_parseName_def
        group_records_def relative_name_def absolute_name_def)
qed

lemmas dnsimple_methods = dnsimple_provider_def dnsimple_UpdateRecord_def call_on_pair

subsection \<open>The simulated service\<close>

definition ds_form :: "single_record \<Rightarrow> ds_record" where
  "ds_form s = \<lparr>dsID = int (srId s), dsName = srName s, dsType = srType s, dsContent = srData s, dsTTL = srTTL s\<rparr>"

definition ds_simulated :: "(string, store) ds_client" where
  "ds_simulated =
     \<lparr>dsWhoami = (\<lambda>w. (Inr (Some 7), w)), dsGetZone = (\<lambda>_ _ w. (None, w)),
      dsListRecords = (\<lambda>_ _. ss_list ds_form),
      dsCreateRecord = (\<lambda>_ _ a. ss_create (\<lambda>n. n) (daName a) (daType a) (daContent a) (daTTL a)),
      dsDeleteRecord = (\<lambda>_ _ i. ss_delete (nat i))\<rparr>"

interpretation ds_sim: record_api "ss_ok (\<lambda>_. True)" "ss_recs ds_form" dsName dsType dsContent
  "dsListRecords ds_simulated account root"
  "\<lambda>n t v ttl. dsCreateRecord ds_simulated account root \<lparr>daName = n, daTTL = ttl, daType = t, daContent = v\<rparr>"
  "\<lambda>r. dsDeleteRecord ds_simulated account root (dsID r)" "\<lambda>n. n" "\<lambda>_. True" "\<lambda>_ _ _. True"
  for account root
  using ss_record_api [of "\<lambda>r. nat (dsID r)" ds_form dsName dsType dsContent "\<lambda>_ _ _. True" "\<lambda>_. True" "\<lambda>n. n"]
  by (simp add: ds_form_def ds_simulated_def)

definition ex_dnsimple :: "(string, store) DNSimpleProvider \<times> store" where
  "ex_dnsimple = (\<lparr>ds_client = ds_simulated, ds_accountID = ''7'', ds_root = ''ex.com''\<rparr>,
     ex_store (relative_name ''ex.com''))"

definition ex_dnsimple_run ::
    "(string dnsimple_error sync_error + metadata_dns_record list) \<times> (string, store) DNSimpleProvider \<times> store" where
  "ex_dnsimple_run =
     UpdateProviderDnsRecords (dnsimple_provider (\<lambda>_. ds_simulated) (\<lambda>_. [])) ''u1'' ex_cfg ex_desired ex_dnsimple"

subsection \<open>Properties\<close>



end
