(* ===== verification/Gandi.thy ===== *)
theory Gandi
  imports Example_Store
begin

text \<open>
  The Gandi provider (src/providers/gandi/gandi.go). A zone of the service has versions, of which one
  is active. Every operation copies the active version, changes the copy and then makes the copy the
  active version, so that the served zone changes in one step or not at all. The handlers of the
  client library are one parameter, \<open>gandi_client\<close>; the flags that its deletion and activation return
  beside the error are ignored by the code. The slice expression of \<open>Init\<close> panics for a root domain
  with a single label, which is the error \<open>GandiPanic\<close>.
\<close>

record RecordInfo =
  grId :: string
  grName :: string
  grTtl :: int
  grType :: string
  grValue :: string

record RecordAdd =
  gaZone :: int
  gaVersion :: int
  gaName :: string
  gaType :: string
  gaValue :: string
  gaTtl :: int

record ZoneInfoBase =
  gzId :: int
  gzName :: string

datatype SystemType = Production | Testing

record ('e, 'w) gandi_client =
  gDomainInfo :: "string \<Rightarrow> 'w \<Rightarrow> ('e + int) \<times> 'w"
  gZoneList :: "'w \<Rightarrow> ('e + ZoneInfoBase list) \<times> 'w"
  gZoneInfo :: "int \<Rightarrow> 'w \<Rightarrow> ('e + int) \<times> 'w"
  gVersionNew :: "int \<Rightarrow> int \<Rightarrow> 'w \<Rightarrow> ('e + int) \<times> 'w"
  gVersionSet :: "int \<Rightarrow> int \<Rightarrow> 'w \<Rightarrow> 'e option \<times> 'w"
  gRecordList :: "int \<Rightarrow> int \<Rightarrow> 'w \<Rightarrow> ('e + RecordInfo list) \<times> 'w"
  gRecordAdd :: "RecordAdd \<Rightarrow> 'w \<Rightarrow> 'e option \<times> 'w"
  gRecordDelete :: "int \<Rightarrow> int \<Rightarrow> string \<Rightarrow> 'w \<Rightarrow> 'e option \<times> 'w"
  gOperationCount :: "'w \<Rightarrow> 'e option \<times> 'w"

record ('e, 'w) GandiProvider =
  gandi_handlers :: "('e, 'w) gandi_client"
  gandi_zone :: ZoneInfoBase
  gandi_root :: string
  gandi_zoneDomain :: string
  gandi_zoneSuffix :: string
  gandi_sub :: string

datatype gandi_step = Adding | Updating | Removing

datatype 'e gandi_error =
  GandiNoKey | GandiPanic | GandiDomain 'e | GandiZones 'e | GandiNoZone | GandiHealth 'e | GandiFind 'e | GandiList 'e
| GandiZoneInfo 'e | GandiNewVersion 'e | GandiSetVersion 'e | GandiAddCall 'e | GandiDeleteCall 'e
| GandiFailed gandi_step "'e gandi_error"

subsection \<open>Operations\<close>

definition gandi_Init ::
    "(string \<Rightarrow> SystemType \<Rightarrow> ('e, 'w) gandi_client) \<Rightarrow> env \<Rightarrow> string \<Rightarrow> ('e, 'w) GandiProvider \<Rightarrow> 'w
       \<Rightarrow> 'e gandi_error option \<times> ('e, 'w) GandiProvider \<times> 'w" where
  "gandi_Init newClient env rootDomainName g w =
     (let apiKey = env ''GANDI_APIKEY'' in
      if apiKey = [] then (Some GandiNoKey, g, w)
      else
        let systemType = (if env ''GANDI_TESTING'' \<noteq> [] then Testing else Production);
            cl = newClient apiKey systemType;
            g1 = g\<lparr>gandi_handlers := cl\<rparr>;
            root = UnFqdn rootDomainName;
            split_root = Split root (CHR ''.'')
        in if length split_root < 2 then (Some GandiPanic, g1, w)
           else
             let zoneDomain = Join (drop (length split_root - 2) split_root) ''.''
             in case gDomainInfo cl zoneDomain w of
                  (Inl e, w1) \<Rightarrow> (Some (GandiDomain e), g1, w1)
                | (Inr zoneId, w1) \<Rightarrow>
                    (case gZoneList cl w1 of
                       (Inl e, w2) \<Rightarrow> (Some (GandiZones e), g1, w2)
                     | (Inr zones, w2) \<Rightarrow>
                         (case find (\<lambda>z. gzId z = zoneId) zones of
                            None \<Rightarrow> (Some GandiNoZone, g1, w2)
                          | Some z \<Rightarrow>
                              (None, g1\<lparr>gandi_root := root, gandi_zone := z, gandi_zoneDomain := zoneDomain,
                                 gandi_zoneSuffix := ''.'' @ zoneDomain, gandi_sub := TrimSuffix root zoneDomain\<rparr>, w2))))"

definition gandi_HealthCheck :: "('e, 'w) GandiProvider \<Rightarrow> 'w \<Rightarrow> 'e gandi_error option \<times> 'w" where
  "gandi_HealthCheck g w = wrap_err GandiHealth (gOperationCount (gandi_handlers g) w)"

definition newZoneVersion :: "('e, 'w) GandiProvider \<Rightarrow> 'w \<Rightarrow> ('e gandi_error + int) \<times> 'w" where
  "newZoneVersion g w =
     (case gZoneInfo (gandi_handlers g) (gzId (gandi_zone g)) w of
        (Inl e, w1) \<Rightarrow> (Inl (GandiZoneInfo e), w1)
      | (Inr version, w1) \<Rightarrow>
          (case gVersionNew (gandi_handlers g) (gzId (gandi_zone g)) version w1 of
             (Inl e, w2) \<Rightarrow> (Inl (GandiNewVersion e), w2)
           | (Inr newVersion, w2) \<Rightarrow> (Inr newVersion, w2)))"

definition setZoneVersion :: "('e, 'w) GandiProvider \<Rightarrow> int \<Rightarrow> 'w \<Rightarrow> 'e gandi_error option \<times> 'w" where
  "setZoneVersion g version w =
     wrap_err GandiSetVersion (gVersionSet (gandi_handlers g) (gzId (gandi_zone g)) version w)"

definition gandi_parseName :: "('e, 'w) GandiProvider \<Rightarrow> dns_record \<Rightarrow> string" where
  "gandi_parseName g r = TrimSuffix (d_fqdn r) (gandi_zoneSuffix g)"

definition gandi_findRecords ::
    "('e, 'w) GandiProvider \<Rightarrow> int \<Rightarrow> dns_record \<Rightarrow> 'w \<Rightarrow> ('e gandi_error + RecordInfo list) \<times> 'w" where
  "gandi_findRecords g version r w =
     wrap_res GandiFind
       (filter (\<lambda>rec. grName rec @ ''.'' @ gandi_zoneDomain g @ ''.'' = gandi_parseName g r \<and> grType rec = d_type r))
       (gRecordList (gandi_handlers g) (gzId (gandi_zone g)) version w)"

definition versionAddRecord ::
    "('e, 'w) GandiProvider \<Rightarrow> int \<Rightarrow> dns_record \<Rightarrow> 'w \<Rightarrow> 'e gandi_error option \<times> 'w" where
  "versionAddRecord g version r =
     for_each (\<lambda>rec w. wrap_err GandiAddCall
       (gRecordAdd (gandi_handlers g)
          \<lparr>gaZone = gzId (gandi_zone g), gaVersion = version,
           gaName = TrimSuffix (gandi_parseName g r) (''.'' @ gandi_zoneDomain g @ ''.''),
           gaType = d_type r, gaValue = rec, gaTtl = d_ttl r\<rparr> w)) (d_records r)"

definition versionRemoveRecord ::
    "('e, 'w) GandiProvider \<Rightarrow> int \<Rightarrow> dns_record \<Rightarrow> 'w \<Rightarrow> 'e gandi_error option \<times> 'w" where
  "versionRemoveRecord g version =
     find_and_delete (gandi_findRecords g version)
       (\<lambda>rec w. wrap_err GandiDeleteCall
          (gRecordDelete (gandi_handlers g) (gzId (gandi_zone g)) version (grId rec) w))"

text \<open>The frame of the three operations: \<open>work\<close> on a new version, which is then activated; \<open>step\<close> and
  \<open>last_step\<close> are what the error messages call the operation.\<close>

definition in_new_version ::
    "('e, 'w) GandiProvider \<Rightarrow> gandi_step \<Rightarrow> gandi_step \<Rightarrow> (int \<Rightarrow> 'w \<Rightarrow> 'e gandi_error option \<times> 'w)
       \<Rightarrow> 'w \<Rightarrow> 'e gandi_error option \<times> 'w" where
  "in_new_version g step last_step work w =
     (case newZoneVersion g w of
        (Inl e, w1) \<Rightarrow> (Some (GandiFailed step e), w1)
      | (Inr newVersion, w1) \<Rightarrow>
          (case work newVersion w1 of
             (Some e, w2) \<Rightarrow> (Some (GandiFailed step e), w2)
           | (None, w2) \<Rightarrow> wrap_err (GandiFailed last_step) (setZoneVersion g newVersion w2)))"

definition gandi_AddRecord :: "('e, 'w) GandiProvider \<Rightarrow> dns_record \<Rightarrow> 'w \<Rightarrow> 'e gandi_error option \<times> 'w" where
  "gandi_AddRecord g r = in_new_version g Adding Adding (\<lambda>newVersion. versionAddRecord g newVersion r)"

definition gandi_UpdateRecord :: "('e, 'w) GandiProvider \<Rightarrow> dns_record \<Rightarrow> 'w \<Rightarrow> 'e gandi_error option \<times> 'w" where
  "gandi_UpdateRecord g r =
     in_new_version g Updating Updating
       (\<lambda>newVersion. remove_then_add (versionRemoveRecord g newVersion) (versionAddRecord g newVersion) r)"

definition gandi_RemoveRecord :: "('e, 'w) GandiProvider \<Rightarrow> dns_record \<Rightarrow> 'w \<Rightarrow> 'e gandi_error option \<times> 'w" where
  "gandi_RemoveRecord g r = in_new_version g Removing Adding (\<lambda>newVersion. versionRemoveRecord g newVersion r)"

definition gandi_reads :: "('e, 'w) GandiProvider \<Rightarrow> RecordInfo \<Rightarrow> listed" where
  "gandi_reads g rec =
     (if grName rec = [] then gandi_zoneDomain g @ ''.'' else grName rec @ ''.'' @ gandi_zoneDomain g @ ''.'',
      grType rec, grValue rec, grTtl rec)"

definition gandi_GetRecords :: "('e, 'w) GandiProvider \<Rightarrow> 'w \<Rightarrow> ('e gandi_error + dns_record list) \<times> 'w" where
  "gandi_GetRecords g w =
     wrap_res GandiList (\<lambda>recordResp. group_records (map (gandi_reads g) recordResp))
       (gRecordList (gandi_handlers g) (gzId (gandi_zone g)) 0 w)"

definition gandi_provider ::
    "(string \<Rightarrow> SystemType \<Rightarrow> ('e, 'w) gandi_client) \<Rightarrow> env
       \<Rightarrow> ('e gandi_error, ('e, 'w) GandiProvider \<times> 'w) provider" where
  "gandi_provider newClient env =
     \<lparr>pInit = (\<lambda>root. init_on (gandi_Init newClient env root)), pGetName = ''Gandi'',
      pHealthCheck = call_on gandi_HealthCheck,
      pAddRecord = (\<lambda>r. call_on (\<lambda>g. gandi_AddRecord g r)),
      pRemoveRecord = (\<lambda>r. call_on (\<lambda>g. gandi_RemoveRecord g r)),
      pUpdateRecord = (\<lambda>r. call_on (\<lambda>g. gandi_UpdateRecord g r)),
      pGetRecords = call_on gandi_GetRecords\<rparr>"

subsection \<open>Lemmas: names\<close>

lemma bare_name_Join: "xs \<noteq> [] \<Longrightarrow> bare_name (Join xs ''.'') \<longleftrightarrow> bare_name (last xs)"
  by (induction xs "''.''" rule: Join.induct) (auto simp: bare_name_def)

text \<open>What \<open>Init\<close> leaves in the struct.\<close>

definition gandi_ready :: "('e, 'w) GandiProvider \<Rightarrow> bool" where
  "gandi_ready g = (gandi_zoneSuffix g = ''.'' @ gandi_zoneDomain g \<and> bare_name (gandi_zoneDomain g))"

lemma gandi_Init_ready:
  assumes "gandi_Init newClient env rootDomainName g0 w0 = (None, g, w)" and "bare_name (UnFqdn rootDomainName)"
  shows "gandi_ready g"
proof -
  let ?split = "Split (UnFqdn rootDomainName) (CHR ''.'')"
  have dom: "gandi_zoneDomain g = Join (drop (length ?split - 2) ?split) ''.''" "2 \<le> length ?split"
    "gandi_zoneSuffix g = ''.'' @ gandi_zoneDomain g"
    using assms(1) by (auto simp: gandi_Init_def Let_def split: if_splits prod.splits sum.splits option.splits)
  then have "bare_name (gandi_zoneDomain g) \<longleftrightarrow> bare_name (last ?split)" by (subst dom(1), subst bare_name_Join) auto
  also have "\<dots> \<longleftrightarrow> bare_name (Join ?split ''.'')" using dom(2) by (subst bare_name_Join) auto
  finally show ?thesis using dom(3) assms(2) by (simp add: gandi_ready_def Join_Split)
qed

lemma full_names_kept:
  assumes "gandi_ready g" and "HasSuffix (d_fqdn d) ''.''"
  shows "gandi_parseName g d = d_fqdn d"
proof -
  have "last (d_fqdn d) = CHR ''.''" using assms(2) by (auto simp: HasSuffix_iff suffix_def)
  moreover have "last (d_fqdn d) = last (gandi_zoneDomain g)" if "HasSuffix (d_fqdn d) (''.'' @ gandi_zoneDomain g)"
    using that assms(1) by (auto simp: HasSuffix_iff suffix_def gandi_ready_def bare_name_def)
  ultimately have "\<not> HasSuffix (d_fqdn d) (''.'' @ gandi_zoneDomain g)"
    using assms(1) by (auto simp: gandi_ready_def bare_name_def)
  with assms(1) show ?thesis by (simp add: gandi_parseName_def gandi_ready_def TrimSuffix_def)
qed

lemma absolute_name_dot: "HasSuffix (absolute_name root n) ''.''"
  by (auto simp: absolute_name_def HasSuffix_def)

lemma below_root_dot: "below_root root f \<Longrightarrow> HasSuffix f ''.''"
  using absolute_name_dot absolute_relative by metis

definition gandi_view :: "('e, 'w) GandiProvider \<Rightarrow> RecordInfo set \<Rightarrow> (string \<times> string) \<rightharpoonup> string set" where
  "gandi_view g = store_view (\<lambda>r. (absolute_name (gandi_zoneDomain g) (grName r), grType r)) grValue"

lemma gandi_view_copy:
  assumes "(\<lambda>r. (grName r, grType r, grValue r)) ` S = (\<lambda>r. (grName r, grType r, grValue r)) ` T"
  shows "gandi_view g S = gandi_view g T"
proof -
  have "gandi_view g S = store_view (\<lambda>(n, t, v). (absolute_name (gandi_zoneDomain g) n, t)) (\<lambda>(n, t, v). v)
      ((\<lambda>r. (grName r, grType r, grValue r)) ` S)" for S by (simp add: gandi_view_def store_view_image)
  then show ?thesis by (simp only: assms)
qed

lemma for_each_error: "for_each (\<lambda>x w. wrap_err C (f x w)) xs w = (e, w') \<Longrightarrow> e = None \<or> (\<exists>x. e = Some (C x))"
  by (induction xs arbitrary: w) (auto simp: wrap_err_def split: prod.splits option.splits)

lemma version_errors:
  shows "versionAddRecord g n r w = (e, w') \<Longrightarrow> e \<noteq> Some (GandiSetVersion x)"
    and "versionRemoveRecord g n r w = (e, w') \<Longrightarrow> e \<noteq> Some (GandiSetVersion x)"
    and "remove_then_add (versionRemoveRecord g n) (versionAddRecord g n) r w = (e, w') \<Longrightarrow> e \<noteq> Some (GandiSetVersion x)"
proof -
  show add: "versionAddRecord g n r w = (e, w') \<Longrightarrow> e \<noteq> Some (GandiSetVersion x)" for w e w'
    using for_each_error [of GandiAddCall] by (fastforce simp: versionAddRecord_def)
  show remove: "versionRemoveRecord g n r w = (e, w') \<Longrightarrow> e \<noteq> Some (GandiSetVersion x)" for w e w'
    using for_each_error [of GandiDeleteCall]
    by (fastforce simp: versionRemoveRecord_def find_and_delete_def gandi_findRecords_def wrap_res_def map_sum_def
        split: prod.splits sum.splits)
  show "remove_then_add (versionRemoveRecord g n) (versionAddRecord g n) r w = (e, w') \<Longrightarrow> e \<noteq> Some (GandiSetVersion x)"
    using add remove by (auto simp: remove_then_add_def split: prod.splits option.splits)
qed

definition gandi_served ::
    "('e, 'w) GandiProvider \<Rightarrow> ('w \<Rightarrow> int) \<Rightarrow> ('w \<Rightarrow> int \<Rightarrow> RecordInfo set) \<Rightarrow> 'w \<Rightarrow> (string \<times> string) \<rightharpoonup> string set" where
  "gandi_served g active vrecs w = gandi_view g (vrecs w (active w))"

text \<open>Success means the new zone; in any case the zone is the old or the new one, and the new one after
  an error only if the activation reported it.\<close>

definition all_or_nothing ::
    "'e gandi_error option \<Rightarrow> ((string \<times> string) \<rightharpoonup> string set) \<Rightarrow> ((string \<times> string) \<rightharpoonup> string set)
       \<Rightarrow> ((string \<times> string) \<rightharpoonup> string set) \<Rightarrow> bool" where
  "all_or_nothing e old new z =
     ((e = None \<longrightarrow> z = new) \<and> (z = old \<or> z = new)
      \<and> (e \<noteq> None \<and> (\<forall>s x. e \<noteq> Some (GandiFailed s (GandiSetVersion x))) \<longrightarrow> z = old))"

subsection \<open>What the service documents\<close>

text \<open>\<open>active w\<close> is the active version of the zone and \<open>vrecs w v\<close> the records of a version. A new
  version has copies of the records of the version it is made from, which may have other
  identifiers; version 0 in a listing means the active one; changes to another version than the
  active one leave the active one as it is.\<close>

locale gandi_api =
  fixes g :: "('e, 'w) GandiProvider"
    and ok :: "'w \<Rightarrow> bool"
    and active :: "'w \<Rightarrow> int"
    and vrecs :: "'w \<Rightarrow> int \<Rightarrow> RecordInfo set"
    and valid :: "string \<Rightarrow> string \<Rightarrow> string \<Rightarrow> bool"
  assumes info: "ok w \<Longrightarrow> gZoneInfo (gandi_handlers g) (gzId (gandi_zone g)) w = (res, w') \<Longrightarrow>
          ok w' \<and> active w' = active w \<and> vrecs w' = vrecs w \<and> (\<forall>v. res = Inr v \<longrightarrow> v = active w)"
    and new_frame: "ok w \<Longrightarrow> gVersionNew (gandi_handlers g) (gzId (gandi_zone g)) v w = (res, w') \<Longrightarrow>
          ok w' \<and> active w' = active w \<and> vrecs w' (active w) = vrecs w (active w)"
    and new_copy: "ok w \<Longrightarrow> gVersionNew (gandi_handlers g) (gzId (gandi_zone g)) v w = (Inr n, w') \<Longrightarrow>
          n \<noteq> 0 \<and> n \<noteq> active w \<and> (\<lambda>r. (grName r, grType r, grValue r)) ` vrecs w' n
            = (\<lambda>r. (grName r, grType r, grValue r)) ` vrecs w v"
    and set_frame: "ok w \<Longrightarrow> gVersionSet (gandi_handlers g) (gzId (gandi_zone g)) n w = (e, w') \<Longrightarrow>
          ok w' \<and> vrecs w' = vrecs w \<and> (active w' = active w \<or> active w' = n)"
    and set_ok: "ok w \<Longrightarrow> gVersionSet (gandi_handlers g) (gzId (gandi_zone g)) n w = (None, w') \<Longrightarrow> active w' = n"
    and list_frame: "ok w \<Longrightarrow> gRecordList (gandi_handlers g) (gzId (gandi_zone g)) v w = (ans, w') \<Longrightarrow>
          ok w' \<and> active w' = active w \<and> vrecs w' = vrecs w"
    and list_all: "ok w \<Longrightarrow> gRecordList (gandi_handlers g) (gzId (gandi_zone g)) v w = (Inr rs, w') \<Longrightarrow>
          distinct rs \<and> set rs = vrecs w (if v = 0 then active w else v)"
    and create_frame: "ok w \<Longrightarrow> v \<noteq> active w \<and> v \<noteq> 0 \<Longrightarrow> valid m t d \<Longrightarrow> gRecordAdd (gandi_handlers g)
            \<lparr>gaZone = gzId (gandi_zone g), gaVersion = v, gaName = m, gaType = t, gaValue = d, gaTtl = ttl\<rparr> w = (e, w') \<Longrightarrow>
          ok w' \<and> active w' = active w \<and> vrecs w' (active w) = vrecs w (active w)
          \<and> (vrecs w' v = vrecs w v
             \<or> (\<exists>r. grName r = m \<and> grType r = t \<and> grValue r = d \<and> vrecs w' v = insert r (vrecs w v)))"
    and create_ok: "ok w \<Longrightarrow> v \<noteq> active w \<and> v \<noteq> 0 \<Longrightarrow> valid m t d \<Longrightarrow> gRecordAdd (gandi_handlers g)
            \<lparr>gaZone = gzId (gandi_zone g), gaVersion = v, gaName = m, gaType = t, gaValue = d, gaTtl = ttl\<rparr> w = (None, w') \<Longrightarrow>
          \<exists>r \<in> vrecs w' v. grName r = m \<and> grType r = t \<and> grValue r = d"
    and delete_frame: "ok w \<Longrightarrow> v \<noteq> active w \<and> v \<noteq> 0 \<Longrightarrow> r \<in> vrecs w v \<Longrightarrow>
          gRecordDelete (gandi_handlers g) (gzId (gandi_zone g)) v (grId r) w = (e, w') \<Longrightarrow>
          ok w' \<and> active w' = active w \<and> vrecs w' (active w) = vrecs w (active w)
          \<and> (vrecs w' v = vrecs w v \<or> vrecs w' v = vrecs w v - {r})"
    and delete_ok: "ok w \<Longrightarrow> v \<noteq> active w \<and> v \<noteq> 0 \<Longrightarrow> r \<in> vrecs w v \<Longrightarrow>
          gRecordDelete (gandi_handlers g) (gzId (gandi_zone g)) v (grId r) w = (None, w') \<Longrightarrow> r \<notin> vrecs w' v"
begin

text \<open>The calls on a version \<open>n\<close> that is not the active one are those of a service of single records,
  and all along the active version stays what it is.\<close>

lemma version_api:
  "record_api (\<lambda>w. ok w \<and> active w = a \<and> vrecs w a = R \<and> n \<noteq> a \<and> n \<noteq> 0) (\<lambda>w. vrecs w n) grName grType grValue
     (gRecordList (gandi_handlers g) (gzId (gandi_zone g)) n)
     (\<lambda>m t d ttl. gRecordAdd (gandi_handlers g)
        \<lparr>gaZone = gzId (gandi_zone g), gaVersion = n, gaName = m, gaType = t, gaValue = d, gaTtl = ttl\<rparr>)
     (\<lambda>r. gRecordDelete (gandi_handlers g) (gzId (gandi_zone g)) n (grId r)) (\<lambda>m. m) (\<lambda>_. True) valid"
proof (unfold_locales, goal_cases)
  case (2 w res w')
  then show ?case using list_frame [of w n res w'] by auto
next
  case (3 w rs w')
  then show ?case using list_all [of w n rs w'] by auto
next
  case (4 w m t d ttl e w')
  then show ?case using create_frame [of w n m t d ttl e w'] by auto
next
  case (5 w m t d ttl w')
  then show ?case using create_ok [of w n m t d ttl w'] by auto
next
  case (6 w r e w')
  then show ?case using delete_frame [of w n r e w'] by auto
next
  case (7 w r w')
  then show ?case using delete_ok [of w n r w'] by auto
qed simp

lemma version_operations:
  assumes "gandi_ready g"
  shows "remove_add (\<lambda>w. ok w \<and> active w = a \<and> vrecs w a = R \<and> n \<noteq> a \<and> n \<noteq> 0) (\<lambda>w. gandi_view g (vrecs w n))
    (\<lambda>w. wrap_res GandiList (\<lambda>rs. group_records (map (gandi_reads g) rs))
       (gRecordList (gandi_handlers g) (gzId (gandi_zone g)) n w))
    (versionAddRecord g n) (versionRemoveRecord g n)
    (relative_storable (gandi_zoneDomain g) valid) (not_root (gandi_zoneDomain g))"
proof -
  let ?root = "gandi_zoneDomain g"
  have sends: "TrimSuffix (gandi_parseName g d) (''.'' @ ?root @ ''.'') = relative_name ?root (d_fqdn d)"
    if "below_root ?root (d_fqdn d)" for d
    using full_names_kept [OF assms below_root_dot [OF that]] by (simp add: relative_name_def)
  have reads: "gandi_reads g r = (absolute_name ?root (grName r), grType r, grValue r, grTtl r)" for r
    by (simp add: gandi_reads_def absolute_name_def)
  have "record_service (\<lambda>w. ok w \<and> active w = a \<and> vrecs w a = R \<and> n \<noteq> a \<and> n \<noteq> 0) (\<lambda>w. vrecs w n)
    (\<lambda>r. (absolute_name ?root (grName r), grType r)) grValue
    (\<lambda>w. wrap_res GandiList (\<lambda>rs. emit_records (get_ttl (group_ttls (map (gandi_reads g) rs)))
        (group_map (map (gandi_reads g) rs))) (gRecordList (gandi_handlers g) (gzId (gandi_zone g)) n w))
    (\<lambda>d w. wrap_res GandiFind
        (filter (\<lambda>r. grName r @ ''.'' @ ?root @ ''.'' = gandi_parseName g d \<and> grType r = d_type d))
        (gRecordList (gandi_handlers g) (gzId (gandi_zone g)) n w))
    (\<lambda>d v w. wrap_err GandiAddCall (gRecordAdd (gandi_handlers g)
        \<lparr>gaZone = gzId (gandi_zone g), gaVersion = n, gaName = TrimSuffix (gandi_parseName g d) (''.'' @ ?root @ ''.''),
         gaType = d_type d, gaValue = v, gaTtl = d_ttl d\<rparr> w))
    (\<lambda>r w. wrap_err GandiDeleteCall (gRecordDelete (gandi_handlers g) (gzId (gandi_zone g)) n (grId r) w))
    (relative_storable ?root valid) (not_root ?root)"
  proof (rule record_api.single_records [OF version_api])
    fix d m
    assume d: "relative_storable ?root valid d
      \<or> not_root ?root (rkey d) \<and> (\<exists>m. True \<and> absolute_name ?root m = d_fqdn d)"
    then have "HasSuffix (d_fqdn d) ''.''" using below_root_dot absolute_name_dot unfolding relative_storable_def by metis
    note kept = full_names_kept [OF assms this]
    from d obtain m' where "m' \<noteq> []" "d_fqdn d = absolute_name ?root m'"
      unfolding relative_storable_def not_root_def rkey_def below_root_def fst_conv
      by (metis absolute_name_def absolute_relative below_root_def)
    then show "m @ ''.'' @ ?root @ ''.'' = gandi_parseName g d \<longleftrightarrow> absolute_name ?root m = d_fqdn d"
      unfolding kept by (auto simp: absolute_name_def)
  qed (auto simp: reads sends [simplified] absolute_relative relative_storable_def list_all_iff)
  from record_service.zone_operations [OF this] show ?thesis
    by (simp add: gandi_view_def versionAddRecord_def [abs_def] versionRemoveRecord_def gandi_findRecords_def [abs_def]
        group_records_def)
qed

lemma in_version:
  assumes "ok w" and "in_new_version g s1 s2 work w = (e, w')"
    and work: "\<And>n w1 e1 w2. ok w1 \<and> active w1 = active w \<and> vrecs w1 (active w) = vrecs w (active w) \<and> n \<noteq> active w \<and> n \<noteq> 0 \<Longrightarrow>
      gandi_view g (vrecs w1 n) = gandi_view g (vrecs w (active w)) \<Longrightarrow> work n w1 = (e1, w2) \<Longrightarrow>
      newZoneVersion g w = (Inr n, w1) \<Longrightarrow> ok w2 \<and> active w2 = active w \<and> vrecs w2 (active w) = vrecs w (active w)
      \<and> (e1 = None \<longrightarrow> gandi_view g (vrecs w2 n) = new)
      \<and> (\<forall>x. e1 \<noteq> Some (GandiSetVersion x))"
  shows "ok w' \<and> all_or_nothing e (gandi_view g (vrecs w (active w))) new (gandi_view g (vrecs w' (active w')))"
proof -
  obtain r0 w0 where call0: "gZoneInfo (gandi_handlers g) (gzId (gandi_zone g)) w = (r0, w0)" by fastforce
  note w0 = info [OF assms(1) call0]
  show ?thesis
  proof (cases r0)
    case (Inl x)
    with assms(2) call0 w0 show ?thesis by (auto simp: in_new_version_def newZoneVersion_def all_or_nothing_def)
  next
    case r0: (Inr v)
    obtain r1 w1 where call1: "gVersionNew (gandi_handlers g) (gzId (gandi_zone g)) v w0 = (r1, w1)" by fastforce
    have w1: "ok w1" "active w1 = active w" "vrecs w1 (active w) = vrecs w (active w)"
      using new_frame [OF _ call1] w0 by auto
    show ?thesis
    proof (cases r1)
      case (Inl x)
      with assms(2) call0 call1 w1 r0 show ?thesis
        by (auto simp: in_new_version_def newZoneVersion_def all_or_nothing_def)
    next
      case r1: (Inr n)
      have n: "n \<noteq> 0" "n \<noteq> active w" "gandi_view g (vrecs w1 n) = gandi_view g (vrecs w (active w))"
        using new_copy [OF _ call1 [unfolded r1]] w0 r0 gandi_view_copy by auto
      obtain e1 w2 where call2: "work n w1 = (e1, w2)" by fastforce
      have "newZoneVersion g w = (Inr n, w1)" using call0 call1 r0 r1 by (simp add: newZoneVersion_def)
      note w2 = work [OF _ n(3) call2 this]
      obtain e2 w3 where call3: "gVersionSet (gandi_handlers g) (gzId (gandi_zone g)) n w2 = (e2, w3)" by fastforce
      show ?thesis
        using assms(2) call0 call1 call2 call3 r0 r1 w1 n w2 set_frame [OF _ call3] set_ok [of w2 n w3]
        by (cases e1; cases e2)
          (auto simp: in_new_version_def newZoneVersion_def setZoneVersion_def wrap_err_def all_or_nothing_def)
    qed
  qed
qed

lemma add_effect:
  assumes "gandi_ready g" and "ok w" and "relative_storable (gandi_zoneDomain g) valid r"
    and "gandi_view g (vrecs w (active w)) (rkey r) = None" and "gandi_AddRecord g r w = (e, w')"
  shows "ok w' \<and> all_or_nothing e (gandi_view g (vrecs w (active w)))
    ((gandi_view g (vrecs w (active w)))(rkey r \<mapsto> set (d_records r))) (gandi_view g (vrecs w' (active w')))"
proof (rule in_version [OF assms(2) assms(5) [unfolded gandi_AddRecord_def]], goal_cases)
  case (1 n w1 e1 w2)
  note ops = version_operations [OF assms(1), of "active w" "vrecs w (active w)" n]
  from remove_add.add_frame [OF ops 1(1) assms(3) 1(3)] remove_add.add_ok [OF ops 1(1) assms(3), of w2]
    version_errors(1) [OF 1(3)] 1 assms(4) show ?case by (auto simp: fun_eq_iff)
qed

lemma add_elsewhere:
  assumes "gandi_ready g" and "ok w" and "relative_storable (gandi_zoneDomain g) valid r"
    and "gandi_AddRecord g r w = (e, w')"
  shows "ok w' \<and> (k \<noteq> rkey r \<longrightarrow> gandi_view g (vrecs w' (active w')) k = gandi_view g (vrecs w (active w)) k)"
proof -
  obtain res w1 where version: "newZoneVersion g w = (res, w1)" by fastforce
  define new where "new = (case res of Inl _ \<Rightarrow> gandi_view g (vrecs w (active w))
    | Inr n \<Rightarrow> (let w2 = snd (versionAddRecord g n r w1) in
        if k \<noteq> rkey r \<longrightarrow> gandi_view g (vrecs w2 n) k = gandi_view g (vrecs w (active w)) k then gandi_view g (vrecs w2 n)
        else gandi_view g (vrecs w (active w))))"
  have "ok w' \<and> all_or_nothing e (gandi_view g (vrecs w (active w))) new (gandi_view g (vrecs w' (active w')))"
  proof (rule in_version [OF assms(2) assms(4) [unfolded gandi_AddRecord_def]], goal_cases)
    case (1 n w1' e1 w2)
    note ops = version_operations [OF assms(1), of "active w" "vrecs w (active w)" n]
    from remove_add.add_frame [OF ops 1(1) assms(3) 1(3)] version_errors(1) [OF 1(3)] 1 version show ?case
      by (auto simp: new_def)
  qed
  moreover have "k \<noteq> rkey r \<longrightarrow> new k = gandi_view g (vrecs w (active w)) k" by (simp add: new_def Let_def split: sum.split)
  ultimately show ?thesis by (auto simp: all_or_nothing_def)
qed

lemma update_effect:
  assumes "gandi_ready g" and "ok w" and "relative_storable (gandi_zoneDomain g) valid r"
    and "gandi_UpdateRecord g r w = (e, w')"
  shows "ok w' \<and> all_or_nothing e (gandi_view g (vrecs w (active w)))
    ((gandi_view g (vrecs w (active w)))(rkey r \<mapsto> set (d_records r))) (gandi_view g (vrecs w' (active w')))"
proof (rule in_version [OF assms(2) assms(4) [unfolded gandi_UpdateRecord_def]], goal_cases)
  case (1 n w1 e1 w2)
  note ops = version_operations [OF assms(1), of "active w" "vrecs w (active w)" n]
  from remove_add.update_effect [OF ops 1(1) assms(3) 1(3)] version_errors(3) [OF 1(3)] 1 show ?case
    by (auto simp: fun_eq_iff)
qed

lemma remove_effect:
  assumes "gandi_ready g" and "ok w" and "not_root (gandi_zoneDomain g) (rkey r)"
    and "gandi_view g (vrecs w (active w)) (rkey r) \<noteq> None" and "gandi_RemoveRecord g r w = (e, w')"
  shows "ok w' \<and> all_or_nothing e (gandi_view g (vrecs w (active w)))
    ((gandi_view g (vrecs w (active w)))(rkey r := None)) (gandi_view g (vrecs w' (active w')))"
proof (rule in_version [OF assms(2) assms(5) [unfolded gandi_RemoveRecord_def]], goal_cases)
  case (1 n w1 e1 w2)
  note ops = version_operations [OF assms(1), of "active w" "vrecs w (active w)" n]
  have known: "relative_storable (gandi_zoneDomain g) valid r
      \<or> not_root (gandi_zoneDomain g) (rkey r) \<and> gandi_view g (vrecs w1 n) (rkey r) \<noteq> None"
    using assms(3,4) 1(2) by simp
  from remove_add.remove_frame [OF ops 1(1) known 1(3)] remove_add.remove_ok [OF ops 1(1) known, of w2]
    version_errors(2) [OF 1(3)] 1 show ?case by (auto simp: fun_eq_iff)
qed

lemma get_zone:
  assumes "ok w" and "gandi_GetRecords g w = (res, w')"
  shows "ok w' \<and> active w' = active w \<and> vrecs w' = vrecs w
    \<and> (\<forall>rs. res = Inr rs \<longrightarrow> distinct (map rkey rs) \<and> rview rs = gandi_view g (vrecs w (active w)))"
proof -
  obtain ans where call: "gRecordList (gandi_handlers g) (gzId (gandi_zone g)) 0 w = (ans, w')"
    and res: "res = map_sum GandiList (\<lambda>rs. group_records (map (gandi_reads g) rs)) ans"
    using assms(2) by (auto simp: gandi_GetRecords_def wrap_res_def prod_eq_iff)
  have "distinct (map rkey rs) \<and> rview rs = gandi_view g (vrecs w (active w))" if "res = Inr rs" for rs
  proof -
    from that res obtain found where found: "ans = Inr found" "rs = group_records (map (gandi_reads g) found)"
      by (auto simp: map_sum_def split: sum.splits)
    with list_all [OF assms(1)] call have "set found = vrecs w (active w)" by force
    with group_records_contract [of found "gandi_reads g" "\<lambda>r. (absolute_name (gandi_zoneDomain g) (grName r), grType r)" grValue]
    show ?thesis by (simp add: found(2) group_records_def gandi_view_def gandi_reads_def absolute_name_def)
  qed
  with list_frame [OF assms(1) call] show ?thesis by blast
qed

lemma contract:
  assumes "gandi_ready g"
  shows "dns_provider (gandi_provider newClient env) (\<lambda>s. fst s = g \<and> ok (snd s))
    (\<lambda>s. gandi_view g (vrecs (snd s) (active (snd s))))
    (relative_storable (gandi_zoneDomain g) valid) (not_root (gandi_zoneDomain g))"
proof (unfold_locales, goal_cases)
  case (1 s res s')
  then show ?case using get_zone [of "snd s" res "snd s'"]
    by (cases s) (auto simp: gandi_provider_def call_on_pair prod_eq_iff)
next
  case (2 s rs s')
  then show ?case using get_zone [of "snd s" "Inr rs" "snd s'"]
    by (cases s) (auto simp: gandi_provider_def call_on_pair prod_eq_iff)
next
  case (3 s r e s')
  then show ?case using add_elsewhere [OF assms, of "snd s" r e "snd s'"]
    by (cases s) (auto simp: gandi_provider_def call_on_pair prod_eq_iff)
next
  case (4 s r s')
  then show ?case using add_effect [OF assms, of "snd s" r None "snd s'"]
    by (cases s) (auto simp: gandi_provider_def call_on_pair prod_eq_iff all_or_nothing_def)
next
  case (5 s r e s')
  then show ?case using update_effect [OF assms, of "snd s" r e "snd s'"]
    by (cases s) (auto simp: gandi_provider_def call_on_pair prod_eq_iff all_or_nothing_def)
next
  case (6 s r s')
  then show ?case using update_effect [OF assms, of "snd s" r None "snd s'"]
    by (cases s) (auto simp: gandi_provider_def call_on_pair prod_eq_iff all_or_nothing_def)
next
  case (7 s r e s')
  then show ?case using remove_effect [OF assms, of "snd s" r e "snd s'"]
    by (cases s) (auto simp: gandi_provider_def call_on_pair prod_eq_iff all_or_nothing_def)
next
  case (8 s r s')
  then show ?case using remove_effect [OF assms, of "snd s" r None "snd s'"]
    by (cases s) (auto simp: gandi_provider_def call_on_pair prod_eq_iff all_or_nothing_def)
qed

end

subsection \<open>The simulated service\<close>

text \<open>Each version is a store of single records with its own failures.\<close>

record gandi_world =
  gwActive :: int
  gwNext :: int
  gwStores :: "int \<Rightarrow> store"

definition gandi_form :: "single_record \<Rightarrow> RecordInfo" where
  "gandi_form s = \<lparr>grId = id_text (srId s), grName = srName s, grTtl = srTTL s, grType = srType s, grValue = srData s\<rparr>"

definition on_version :: "int \<Rightarrow> (store \<Rightarrow> 'a \<times> store) \<Rightarrow> gandi_world \<Rightarrow> 'a \<times> gandi_world" where
  "on_version v f w =
     (let v = (if v = 0 then gwActive w else v)
      in case f (gwStores w v) of (a, s) \<Rightarrow> (a, w\<lparr>gwStores := (gwStores w)(v := s)\<rparr>))"

definition gandi_simulated :: "(string, gandi_world) gandi_client" where
  "gandi_simulated =
     \<lparr>gDomainInfo = (\<lambda>_ w. (Inr 7, w)), gZoneList = (\<lambda>w. (Inr [\<lparr>gzId = 3, gzName = ''other''\<rparr>, \<lparr>gzId = 7, gzName = ''main''\<rparr>], w)),
      gZoneInfo = (\<lambda>_ w. (Inr (gwActive w), w)),
      gVersionNew = (\<lambda>_ v w. (Inr (gwNext w), w\<lparr>gwNext := gwNext w + 1, gwStores := (gwStores w)(gwNext w := gwStores w v)\<rparr>)),
      gVersionSet = (\<lambda>_ v w. if 0 < v \<and> v < gwNext w then (None, w\<lparr>gwActive := v\<rparr>) else (Some ''no such version'', w)),
      gRecordList = (\<lambda>_ v. on_version v (ss_list gandi_form)),
      gRecordAdd = (\<lambda>a. on_version (gaVersion a) (ss_create (\<lambda>n. n) (gaName a) (gaType a) (gaValue a) (gaTtl a))),
      gRecordDelete = (\<lambda>_ v i. on_version v (ss_delete (length i))),
      gOperationCount = (\<lambda>w. (None, w))\<rparr>"

definition gandi_ok :: "gandi_world \<Rightarrow> bool" where
  "gandi_ok w = (0 < gwActive w \<and> gwActive w < gwNext w \<and> (\<forall>v. ss_ok (\<lambda>_. True) (gwStores w v)))"

definition gandi_vrecs :: "gandi_world \<Rightarrow> int \<Rightarrow> RecordInfo set" where
  "gandi_vrecs w v = ss_recs gandi_form (gwStores w v)"

lemma gandi_base: "record_api (ss_ok (\<lambda>_. True)) (ss_recs gandi_form) grName grType grValue
    (ss_list gandi_form) (ss_create (\<lambda>n. n)) (\<lambda>r. ss_delete (length (grId r))) (\<lambda>n. n) (\<lambda>_. True) (\<lambda>_ _ _. True)"
  by (rule ss_record_api) (simp_all add: gandi_form_def)

lemma on_versionE:
  assumes "on_version v f w = (a, w')"
  obtains s where "f (gwStores w (if v = 0 then gwActive w else v)) = (a, s)"
    and "w' = w\<lparr>gwStores := (gwStores w)((if v = 0 then gwActive w else v) := s)\<rparr>"
  using assms by (auto simp: on_version_def Let_def split: prod.splits)

definition gandi_initial :: "(string, gandi_world) GandiProvider" where
  "gandi_initial = \<lparr>gandi_handlers = gandi_simulated, gandi_zone = \<lparr>gzId = 0, gzName = []\<rparr>, gandi_root = [],
     gandi_zoneDomain = [], gandi_zoneSuffix = [], gandi_sub = []\<rparr>"

definition ex_gandi_world :: gandi_world where
  "ex_gandi_world = \<lparr>gwActive = 1, gwNext = 2, gwStores = (\<lambda>_. ex_store (relative_name ''ex.com''))\<rparr>"

definition ex_gandi_env :: env where
  "ex_gandi_env k = (if k = ''GANDI_APIKEY'' then ''key'' else [])"

definition ex_gandi :: "(string, gandi_world) GandiProvider" where
  "ex_gandi = fst (snd (gandi_Init (\<lambda>_ _. gandi_simulated) ex_gandi_env ''ex.com'' gandi_initial ex_gandi_world))"

lemma ex_gandi_handlers: "gandi_handlers ex_gandi = gandi_simulated"
  by (simp add: ex_gandi_def gandi_Init_def ex_gandi_env_def gandi_simulated_def Let_def UnFqdn_def)

interpretation gandi_sim: gandi_api ex_gandi gandi_ok gwActive gandi_vrecs "\<lambda>_ _ _. True"
proof (unfold_locales, goal_cases)
  case (1 w res w')
  then show ?case by (auto simp: ex_gandi_handlers gandi_simulated_def)
next
  case (2 w v res w')
  then show ?case by (auto simp: ex_gandi_handlers gandi_simulated_def gandi_ok_def gandi_vrecs_def)
next
  case (3 w v n w')
  then show ?case by (auto simp: ex_gandi_handlers gandi_simulated_def gandi_ok_def gandi_vrecs_def)
next
  case (4 w n e w')
  then show ?case by (auto simp: ex_gandi_handlers gandi_simulated_def gandi_ok_def gandi_vrecs_def split: if_splits)
next
  case (5 w n w')
  then show ?case by (auto simp: ex_gandi_handlers gandi_simulated_def split: if_splits)
next
  case (6 w v ans w')
  then have call: "on_version v (ss_list gandi_form) w = (ans, w')" by (simp add: ex_gandi_handlers gandi_simulated_def)
  then show ?case using 6(1) record_api.lists_frame [OF gandi_base, of "gwStores w (if v = 0 then gwActive w else v)" ans]
    by (elim on_versionE) (simp add: gandi_ok_def gandi_vrecs_def fun_eq_iff)
next
  case (7 w v rs w')
  then have call: "on_version v (ss_list gandi_form) w = (Inr rs, w')" by (simp add: ex_gandi_handlers gandi_simulated_def)
  then show ?case using 7(1) record_api.lists_all [OF gandi_base, of "gwStores w (if v = 0 then gwActive w else v)" rs]
    by (elim on_versionE) (simp add: gandi_ok_def gandi_vrecs_def)
next
  case (8 w v m t d ttl e w')
  then have call: "on_version v (ss_create (\<lambda>n. n) m t d ttl) w = (e, w')" by (simp add: ex_gandi_handlers gandi_simulated_def)
  then show ?case using 8(1,2) record_api.creates_frame [OF gandi_base, of "gwStores w (if v = 0 then gwActive w else v)" m t d ttl e]
    by (elim on_versionE) (simp add: gandi_ok_def gandi_vrecs_def)
next
  case (9 w v m t d ttl w')
  then have call: "on_version v (ss_create (\<lambda>n. n) m t d ttl) w = (None, w')" by (simp add: ex_gandi_handlers gandi_simulated_def)
  then show ?case using 9(1,2) record_api.creates_ok [OF gandi_base, of "gwStores w (if v = 0 then gwActive w else v)" m t d ttl]
    by (elim on_versionE) (simp add: gandi_ok_def gandi_vrecs_def)
next
  case (10 w v r e w')
  then have call: "on_version v (ss_delete (length (grId r))) w = (e, w')" by (simp add: ex_gandi_handlers gandi_simulated_def)
  then show ?case using 10(1-3) record_api.deletes_frame [OF gandi_base, of "gwStores w (if v = 0 then gwActive w else v)" r e]
    by (elim on_versionE) (simp add: gandi_ok_def gandi_vrecs_def)
next
  case (11 w v r w')
  then have call: "on_version v (ss_delete (length (grId r))) w = (None, w')" by (simp add: ex_gandi_handlers gandi_simulated_def)
  then show ?case using 11(1-3) record_api.deletes_ok [OF gandi_base, of "gwStores w (if v = 0 then gwActive w else v)" r]
    by (elim on_versionE) (simp add: gandi_ok_def gandi_vrecs_def)
qed

definition ex_gandi_run ::
    "(string gandi_error sync_error + metadata_dns_record list) \<times> (string, gandi_world) GandiProvider \<times> gandi_world" where
  "ex_gandi_run =
     UpdateProviderDnsRecords (gandi_provider (\<lambda>_ _. gandi_simulated) ex_gandi_env) ''u1'' ex_cfg ex_desired
       (ex_gandi, ex_gandi_world)"

text \<open>The second call on a version fails.\<close>

definition ex_gandi_faulty :: gandi_world where
  "ex_gandi_faulty = ex_gandi_world\<lparr>gwStores := (\<lambda>_. (ex_store (relative_name ''ex.com''))\<lparr>ssFaults := [False, True]\<rparr>)\<rparr>"

definition ex_gandi_add :: "string gandi_error option \<times> gandi_world" where
  "ex_gandi_add = gandi_AddRecord ex_gandi (ex_rec ''new.s.e.ex.com.'' [''10.0.0.3'', ''10.0.0.4''] ''A'') ex_gandi_faulty"

lemma ex_gandi_init:
  "gandi_Init (\<lambda>_ _. gandi_simulated) ex_gandi_env ''ex.com'' gandi_initial w = (None, ex_gandi, w)"
  by (simp add: ex_gandi_def gandi_Init_def ex_gandi_env_def gandi_simulated_def Let_def UnFqdn_def)

lemma ex_gandi_domain: "gandi_zoneDomain ex_gandi = ''ex.com''"
  by (simp add: ex_gandi_def gandi_Init_def ex_gandi_env_def gandi_simulated_def Let_def UnFqdn_def)

subsection \<open>Properties\<close>

text \<open>
  C14. Every operation of the Gandi provider is atomic: after \<open>Init\<close>, adding, updating or removing a
  record set either leaves the served zone exactly as it was or makes exactly the whole change, at
  whatever call it fails; success means the change is made, and after an error that is not one of the
  activation the zone is the old one.
\<close>
theorem gandi_atomic:
  assumes "gandi_Init newClient env root g0 w0 = (None, g, w1)" and "bare_name (UnFqdn root)"
    and "gandi_api g ok active vrecs valid" and "ok w"
  shows "(relative_storable (gandi_zoneDomain g) valid r \<and> gandi_served g active vrecs w (rkey r) = None \<longrightarrow>
      all_or_nothing (fst (gandi_AddRecord g r w)) (gandi_served g active vrecs w)
        ((gandi_served g active vrecs w)(rkey r \<mapsto> set (d_records r)))
        (gandi_served g active vrecs (snd (gandi_AddRecord g r w))))
    \<and> (relative_storable (gandi_zoneDomain g) valid r \<longrightarrow>
      all_or_nothing (fst (gandi_UpdateRecord g r w)) (gandi_served g active vrecs w)
        ((gandi_served g active vrecs w)(rkey r \<mapsto> set (d_records r)))
        (gandi_served g active vrecs (snd (gandi_UpdateRecord g r w))))
    \<and> (not_root (gandi_zoneDomain g) (rkey r) \<and> gandi_served g active vrecs w (rkey r) \<noteq> None \<longrightarrow>
      all_or_nothing (fst (gandi_RemoveRecord g r w)) (gandi_served g active vrecs w)
        ((gandi_served g active vrecs w)(rkey r := None))
        (gandi_served g active vrecs (snd (gandi_RemoveRecord g r w))))"
proof -
  note ready = gandi_Init_ready [OF assms(1,2)]
  show ?thesis
    unfolding gandi_served_def
    using gandi_api.add_effect [OF assms(3) ready assms(4) _ _ prod.collapse [symmetric]]
      gandi_api.update_effect [OF assms(3) ready assms(4) _ prod.collapse [symmetric]]
      gandi_api.remove_effect [OF assms(3) ready assms(4) _ _ prod.collapse [symmetric]] by blast
qed

theorem gandi_atomic_witness:
  "fst ex_gandi_add = Some (GandiFailed Adding (GandiAddCall ''unavailable''))
   \<and> gandi_view ex_gandi (gandi_vrecs (snd ex_gandi_add) 2) (''new.s.e.ex.com.'', ''A'') = Some {''10.0.0.3''}
   \<and> gandi_served ex_gandi gwActive gandi_vrecs (snd ex_gandi_add) = gandi_served ex_gandi gwActive gandi_vrecs ex_gandi_faulty"
proof -
  let ?r = "ex_rec ''new.s.e.ex.com.'' [''10.0.0.3'', ''10.0.0.4''] ''A''"
  have failed: "fst ex_gandi_add = Some (GandiFailed Adding (GandiAddCall ''unavailable''))"
    "gandi_view ex_gandi (gandi_vrecs (snd ex_gandi_add) 2) (''new.s.e.ex.com.'', ''A'') = Some {''10.0.0.3''}" by code_simp+
  have "ss_ok (\<lambda>_. True) ((ex_store (relative_name ''ex.com''))\<lparr>ssFaults := [False, True]\<rparr>)" by code_simp
  then have ok: "gandi_ok ex_gandi_faulty" by (simp add: gandi_ok_def ex_gandi_faulty_def ex_gandi_world_def)
  have new: "gandi_served ex_gandi gwActive gandi_vrecs ex_gandi_faulty (rkey ?r) = None" by code_simp
  have store: "relative_storable ''ex.com'' (\<lambda>_ _ _. True) ?r" by code_simp
  have bare: "bare_name (UnFqdn ''ex.com'')" by code_simp
  have "all_or_nothing (fst ex_gandi_add) (gandi_served ex_gandi gwActive gandi_vrecs ex_gandi_faulty)
      ((gandi_served ex_gandi gwActive gandi_vrecs ex_gandi_faulty)(rkey ?r \<mapsto> set (d_records ?r)))
      (gandi_served ex_gandi gwActive gandi_vrecs (snd ex_gandi_add))"
    using gandi_atomic [OF ex_gandi_init [of ex_gandi_world] bare gandi_sim.gandi_api_axioms ok, of ?r] new store
    by (simp only: ex_gandi_domain ex_gandi_add_def simp_thms)
  then show ?thesis using failed by (simp add: all_or_nothing_def)
qed

text \<open>
  C15. A synchronization with Gandi that reports success leaves the zone as desired: every desired
  name has exactly the desired values, owned names that are no longer desired are gone, everything
  else is as before. Names at the root of the zone are outside what the provider can manage.
\<close>
theorem sync_gandi:
  assumes "gandi_Init newClient env root g0 w0 = (None, g, w1)" and "bare_name (UnFqdn root)"
    and "gandi_api g ok active vrecs valid" and "ok w"
    and "manageable (not_root (gandi_zoneDomain g)) (StateFqdn u (RootDomainName cfg)) (gandi_served g active vrecs w)"
    and "desired_ok (relative_storable (gandi_zoneDomain g) valid) (StateFqdn u (RootDomainName cfg)) desired"
    and "UpdateProviderDnsRecords (gandi_provider newClient env) u cfg desired (g, w) = (Inr updated, g', w')"
  shows "g' = g \<and> ok w' \<and> synchronized (StateFqdn u (RootDomainName cfg)) desired
    (gandi_served g active vrecs w) (gandi_served g active vrecs w')"
  using dns_provider.sync_synchronized [OF gandi_api.contract [OF assms(3) gandi_Init_ready [OF assms(1,2)]],
      of "(g, w)", OF _ _ assms(6,7)] assms(4,5)
  by (simp add: gandi_served_def)

theorem sync_gandi_witness:
  "ex_after (gandi_served ex_gandi gwActive gandi_vrecs (snd (snd ex_gandi_run)))"
proof -
  have "isl (fst ex_gandi_run) = False" by code_simp
  then obtain updated g' w' where run: "ex_gandi_run = (Inr updated, g', w')" by (rule run_Inr)
  let ?z = "gandi_served ex_gandi gwActive gandi_vrecs ex_gandi_world"
  have z: "manageable (not_root ''ex.com'') ex_state_name ?z" "?z (''mail.ex.com.'', ''A'') = Some {''10.9.9.9''}"
    "''old.s.e.ex.com.'' \<in> owned ex_state_name ?z" "''mail.ex.com.'' \<notin> owned ex_state_name ?z" by code_simp+
  have "ss_ok (\<lambda>_. True) (ex_store (relative_name ''ex.com''))" by code_simp
  then have ok: "gandi_ok ex_gandi_world" by (simp add: gandi_ok_def ex_gandi_world_def)
  have des: "desired_ok (relative_storable ''ex.com'' (\<lambda>_ _ _. True)) ex_state_name ex_desired"
    by (rule ex_desired_okI) code_simp
  have bare: "bare_name (UnFqdn ''ex.com'')" by code_simp
  have "synchronized ex_state_name ex_desired ?z (gandi_served ex_gandi gwActive gandi_vrecs w')"
    using sync_gandi [OF ex_gandi_init [of ex_gandi_world] bare gandi_sim.gandi_api_axioms ok, of "''u1''" ex_cfg ex_desired
        updated g' w'] z(1) des run
    by (simp add: ex_gandi_run_def ex_gandi_domain ex_state_name_eq)
  from ex_synchronized [OF this z(3,4,2)] show ?thesis by (simp only: run snd_conv)
qed

end
