(* ===== verification/Infoblox.thy ===== *)
theory Infoblox
  imports Example_Store Filepath
begin

text \<open>
  The Infoblox provider (src/providers/infoblox/infoblox.go). The API client is a parameter: it sends
  a request with its body, which is given as the object that the code marshals, and its header; an
  answer is what \<open>Parse\<close> makes of it, an error or the fields that are there. Errors are texts, because
  the code searches them for "already exists".

  The pages of a listing are decoded into one variable. \<open>json.Unmarshal\<close> decodes into the elements
  that a slice of pointers already has, so the records of an earlier page are the same objects as
  those of a later one. This is modelled with an explicit store: \<open>heap\<close> holds the objects that the
  positions of \<open>result.Result\<close> point to, and \<open>records\<close> is a list of positions. (That a position beyond
  those of all earlier pages is a new object is what Go does as long as no page is longer than the
  first, as with a service that fills its pages.) The loop over the pages takes a number of pages and
  reports \<open>SendUnfinished\<close> when they run out.

  The lemmas are about the paths of secrets and about listings of several pages; that the provider
  keeps its contract is in \<open>Infoblox_Correct\<close>.
\<close>

record ib_record =
  ibRef :: string
  ibFqdn :: string
  ibName :: string
  ibZone :: string
  ibTTL :: int
  ibDisable :: bool
  ibIPv4addr :: string
  ibText :: string
  ibType :: string
  ibRec :: string

text \<open>A JSON object of an answer: the fields it has.\<close>

record ib_json =
  jRef :: "string option"
  jFqdn :: "string option"
  jName :: "string option"
  jZone :: "string option"
  jTTL :: "int option"
  jDisable :: "bool option"
  jIPv4addr :: "string option"
  jText :: "string option"
  jType :: "string option"
  jRec :: "string option"

record ib_page =
  pgNextPageId :: "string option"
  pgResult :: "ib_json list option"

record ib_body =
  bdText :: "string option"
  bdIPv4addr :: "string option"
  bdName :: string
  bdTTL :: int
  bdComment :: string

type_synonym ib_head = "(string \<times> string) list"

record 'w ib_client =
  ibSend :: "string \<Rightarrow> string \<Rightarrow> ib_body option \<Rightarrow> ib_head \<Rightarrow> 'w \<Rightarrow> (string + (string + ib_page)) \<times> 'w"
  ibRecordHostAll :: "int \<Rightarrow> 'w \<Rightarrow> string option \<times> 'w"

record 'w InfobloxProvider =
  ib_client :: "'w ib_client"
  ib_zoneName :: string

datatype send_error = SendNoURL | SendFailed string | SendUnfinished

datatype 'e secret_error =
  SecretInvalid | SecretOutside | SecretOpen 'e | SecretInspect 'e | SecretNotRegular | SecretRead 'e | SecretEmpty | SecretTooLong

datatype 'e infoblox_error =
  IbNotSet string | IbNoPassword | IbSecret "'e secret_error" | IbNotBoolean string | IbValidate send_error | IbNoZone string
| IbHealth string | IbApiCall send_error | IbDecode send_error

definition versionURL :: string where "versionURL = ''/wapi/v1.5/''"
definition authURL :: string where "authURL = versionURL @ ''zone_auth''"
definition recordURL :: string where "recordURL = versionURL @ ''record''"
definition recordTxtURL :: string where "recordTxtURL = versionURL @ ''record:txt''"
definition recordAURL :: string where "recordAURL = versionURL @ ''record:a''"
definition maxResults :: string where "maxResults = ''1000''"
definition firstPage :: string where
  "firstPage = ''_return_as_object=1&_max_results='' @ maxResults @ ''&_paging=1''"
definition secretRoot :: string where "secretRoot = ''/run/secrets''"
definition maxSecretLen :: nat where "maxSecretLen = 64 * 2 ^ 10"
definition recordAQuery :: string where "recordAQuery = ''_return_fields=ttl,name,zone,disable,ipv4addr''"
definition recordTxtQuery :: string where "recordTxtQuery = ''_return_fields=ttl,name,zone,disable,text''"
definition head :: ib_head where "head = [(''Content-Type'', ''application/json'')]"

subsection \<open>Secrets\<close>

text \<open>An open file: what \<open>Stat\<close> answers, the bytes it delivers and the error that ends them.\<close>

record 'e secret_file =
  sfStat :: "'e + bool"
  sfContent :: string
  sfError :: "'e option"

definition read_secret :: "'e secret_file \<Rightarrow> 'e secret_error + string" where
  "read_secret f =
     (case sfStat f of
        Inl e \<Rightarrow> Inl (SecretInspect e)
      | Inr regular \<Rightarrow>
          if \<not> regular then Inl SecretNotRegular
          else
            case (if maxSecretLen + 1 \<le> length (sfContent f) then Inr (take (maxSecretLen + 1) (sfContent f))
                  else case sfError f of Some e \<Rightarrow> Inl e | None \<Rightarrow> Inr (sfContent f)) of
              Inl e \<Rightarrow> Inl (SecretRead e)
            | Inr payload \<Rightarrow>
                if payload = [] then Inl SecretEmpty
                else if maxSecretLen < length payload then Inl SecretTooLong
                else Inr payload)"

definition readSecretFileFromRoot ::
    "(string \<Rightarrow> string \<Rightarrow> 'e + 'e secret_file) \<Rightarrow> string \<Rightarrow> string \<Rightarrow> 'e secret_error + string" where
  "readSecretFileFromRoot OpenInRoot rootPath secretPath =
     (let secretPath = TrimSpace secretPath in
      if secretPath = [] \<or> CHR 0x00 \<in> set secretPath then Inl SecretInvalid
      else
        let rootPath = Clean rootPath; relativePath = Clean secretPath in
        case (if IsAbs relativePath then Rel rootPath relativePath else Some relativePath) of
          None \<Rightarrow> Inl SecretOutside
        | Some relativePath \<Rightarrow>
            if relativePath = ''.'' \<or> \<not> IsLocal relativePath then Inl SecretOutside
            else (case OpenInRoot rootPath relativePath of
                    Inl e \<Rightarrow> Inl (SecretOpen e)
                  | Inr file \<Rightarrow> read_secret file))"

definition readSecretFile :: "(string \<Rightarrow> string \<Rightarrow> 'e + 'e secret_file) \<Rightarrow> string \<Rightarrow> 'e secret_error + string" where
  "readSecretFile OpenInRoot secretPath = readSecretFileFromRoot OpenInRoot secretRoot secretPath"

subsection \<open>Requests\<close>

definition zero_record :: ib_record where
  "zero_record = \<lparr>ibRef = [], ibFqdn = [], ibName = [], ibZone = [], ibTTL = 0, ibDisable = False, ibIPv4addr = [],
     ibText = [], ibType = [], ibRec = []\<rparr>"

definition decode_fields :: "ib_json \<Rightarrow> ib_record \<Rightarrow> ib_record" where
  "decode_fields j r =
     \<lparr>ibRef = (case jRef j of None \<Rightarrow> ibRef r | Some x \<Rightarrow> x), ibFqdn = (case jFqdn j of None \<Rightarrow> ibFqdn r | Some x \<Rightarrow> x),
      ibName = (case jName j of None \<Rightarrow> ibName r | Some x \<Rightarrow> x), ibZone = (case jZone j of None \<Rightarrow> ibZone r | Some x \<Rightarrow> x),
      ibTTL = (case jTTL j of None \<Rightarrow> ibTTL r | Some x \<Rightarrow> x), ibDisable = (case jDisable j of None \<Rightarrow> ibDisable r | Some x \<Rightarrow> x),
      ibIPv4addr = (case jIPv4addr j of None \<Rightarrow> ibIPv4addr r | Some x \<Rightarrow> x), ibText = (case jText j of None \<Rightarrow> ibText r | Some x \<Rightarrow> x),
      ibType = (case jType j of None \<Rightarrow> ibType r | Some x \<Rightarrow> x), ibRec = (case jRec j of None \<Rightarrow> ibRec r | Some x \<Rightarrow> x)\<rparr>"

text \<open>Decoding an array into the objects of the positions that exist, and new ones behind them.\<close>

fun decode_into :: "ib_json list \<Rightarrow> ib_record list \<Rightarrow> ib_record list" where
  "decode_into [] heap = heap"
| "decode_into (j # js) [] = decode_fields j zero_record # decode_into js []"
| "decode_into (j # js) (r # heap) = decode_fields j r # decode_into js heap"

text \<open>The variable \<open>result\<close>: its page identifier, the length of its slice, and the objects.\<close>

record ResultPagination =
  rpPage_id :: string
  rpLength :: nat
  rpHeap :: "ib_record list"

definition Parse :: "ib_page \<Rightarrow> ResultPagination \<Rightarrow> ResultPagination" where
  "Parse pg result =
     \<lparr>rpPage_id = (case pgNextPageId pg of None \<Rightarrow> rpPage_id result | Some x \<Rightarrow> x),
      rpLength = (case pgResult pg of None \<Rightarrow> rpLength result | Some js \<Rightarrow> length js),
      rpHeap = (case pgResult pg of None \<Rightarrow> rpHeap result | Some js \<Rightarrow> decode_into js (rpHeap result))\<rparr>"

fun next_pages ::
    "nat \<Rightarrow> 'w InfobloxProvider \<Rightarrow> string \<Rightarrow> string \<Rightarrow> ib_body option \<Rightarrow> ib_head \<Rightarrow> ResultPagination \<Rightarrow> nat list \<Rightarrow> 'w
       \<Rightarrow> (send_error + ib_record list) \<times> 'w" where
  "next_pages fuel d meth url body hdr result records w =
     (if rpPage_id result = [] then (Inr (map ((!) (rpHeap result)) records), w)
      else case fuel of
             0 \<Rightarrow> (Inl SendUnfinished, w)
           | Suc fuel' \<Rightarrow>
               (case ibSend (ib_client d) meth (url @ ''&_page_id='' @ rpPage_id result) body hdr w of
                  (Inl e, w') \<Rightarrow> (Inl (SendFailed e), w')
                | (Inr (Inl e), w') \<Rightarrow> (Inl (SendFailed e), w')
                | (Inr (Inr pg), w') \<Rightarrow>
                    (let result = Parse pg (result\<lparr>rpPage_id := []\<rparr>)
                     in next_pages fuel' d meth url body hdr result (records @ [0..<rpLength result]) w')))"

declare next_pages.simps [simp del]

definition infoblox_SendRequest ::
    "nat \<Rightarrow> 'w InfobloxProvider \<Rightarrow> string \<Rightarrow> string \<Rightarrow> ib_body option \<Rightarrow> ib_head \<Rightarrow> 'w
       \<Rightarrow> (send_error + ib_record list) \<times> 'w" where
  "infoblox_SendRequest fuel d meth urlStr body hdr w =
     (if urlStr = [] then (Inl SendNoURL, w)
      else if meth = ''GET'' then
        let url = (if CHR ''?'' \<in> set urlStr then urlStr @ ''&'' @ firstPage else urlStr @ ''?'' @ firstPage)
        in case ibSend (ib_client d) meth url body hdr w of
             (Inl e, w') \<Rightarrow> (Inl (SendFailed e), w')
           | (Inr (Inl e), w') \<Rightarrow> (Inl (SendFailed e), w')
           | (Inr (Inr pg), w') \<Rightarrow>
               (let result = Parse pg \<lparr>rpPage_id = [], rpLength = 0, rpHeap = []\<rparr>
                in next_pages fuel d meth url body hdr result [0..<rpLength result] w')
      else case ibSend (ib_client d) meth urlStr body hdr w of
             (Inl e, w') \<Rightarrow> (Inl (SendFailed e), w')
           | (Inr _, w') \<Rightarrow> (Inr [], w'))"

subsection \<open>Operations\<close>

definition validateZoneName :: "nat \<Rightarrow> 'w InfobloxProvider \<Rightarrow> string \<Rightarrow> 'w \<Rightarrow> 'e infoblox_error option \<times> 'w" where
  "validateZoneName fuel d zoneName w =
     (case infoblox_SendRequest fuel d ''GET'' authURL None [] w of
        (Inl e, w') \<Rightarrow> (Some (IbValidate e), w')
      | (Inr zoneAuths, w') \<Rightarrow>
          if list_ex (\<lambda>v. ibFqdn v = zoneName) zoneAuths then (None, w') else (Some (IbNoZone zoneName), w'))"

definition env_bool :: "env \<Rightarrow> string \<Rightarrow> bool option" where
  "env_bool env name = (if env name = [] then Some False else ParseBool (env name))"

definition infoblox_Init ::
    "(string \<Rightarrow> string \<Rightarrow> string \<Rightarrow> bool \<Rightarrow> bool \<Rightarrow> 'w ib_client) \<Rightarrow> (string \<Rightarrow> string \<Rightarrow> 'e + 'e secret_file) \<Rightarrow> env \<Rightarrow> nat \<Rightarrow> string
       \<Rightarrow> 'w InfobloxProvider \<Rightarrow> 'w \<Rightarrow> 'e infoblox_error option \<times> 'w InfobloxProvider \<times> 'w" where
  "infoblox_Init newClient OpenInRoot env fuel rootDomainName d w =
     (let url = env ''INFOBLOX_URL''; userName = env ''INFOBLOX_USER_NAME''; secretFile = env ''INFOBLOX_SECRET'' in
      if url = [] then (Some (IbNotSet ''INFOBLOX_URL''), d, w)
      else if userName = [] then (Some (IbNotSet ''INFOBLOX_USER_NAME''), d, w)
      else case (if env ''INFOBLOX_PASSWORD'' \<noteq> [] then Inr (env ''INFOBLOX_PASSWORD'')
                 else if secretFile = [] then Inl IbNoPassword
                 else map_sum IbSecret id (readSecretFile OpenInRoot secretFile)) of
             Inl e \<Rightarrow> (Some e, d, w)
           | Inr password \<Rightarrow>
               (case env_bool env ''SSL_VERIFY'' of
                  None \<Rightarrow> (Some (IbNotBoolean ''SSL_VERIFY''), d, w)
                | Some sslVerify \<Rightarrow>
                    (case env_bool env ''USE_COOKIES'' of
                       None \<Rightarrow> (Some (IbNotBoolean ''USE_COOKIES''), d, w)
                     | Some useCookies \<Rightarrow>
                         (let d1 = d\<lparr>ib_client := newClient url userName password sslVerify useCookies,
                                     ib_zoneName := UnFqdn rootDomainName\<rparr>
                          in case validateZoneName fuel d1 (ib_zoneName d1) w of (err, w') \<Rightarrow> (err, d1, w')))))"

definition infoblox_HealthCheck :: "'w InfobloxProvider \<Rightarrow> 'w \<Rightarrow> 'e infoblox_error option \<times> 'w" where
  "infoblox_HealthCheck d w = wrap_err IbHealth (ibRecordHostAll (ib_client d) 1 w)"

text \<open>The URL and the body for one value; an unsupported type gives empty ones.\<close>

definition infoblox_prepareRecord :: "string \<Rightarrow> string \<Rightarrow> string \<Rightarrow> int \<Rightarrow> string \<times> ib_body option" where
  "infoblox_prepareRecord rec tp fqdn ttl =
     (if tp = ''TXT''
      then (recordTxtURL, Some \<lparr>bdText = Some rec, bdIPv4addr = None, bdName = UnFqdn fqdn, bdTTL = ttl, bdComment = tp\<rparr>)
      else if tp = ''A''
      then (recordAURL, Some \<lparr>bdText = None, bdIPv4addr = Some rec, bdName = UnFqdn fqdn, bdTTL = ttl, bdComment = tp\<rparr>)
      else ([], None))"

definition already_exists :: "send_error \<Rightarrow> bool" where
  "already_exists err = (case err of SendFailed text \<Rightarrow> Index text ''already exists'' \<noteq> None | _ \<Rightarrow> False)"

text \<open>The loop of \<open>AddRecord\<close>: when a value already exists it returns at once, without an error.\<close>

fun infoblox_add_loop ::
    "nat \<Rightarrow> 'w InfobloxProvider \<Rightarrow> dns_record \<Rightarrow> string list \<Rightarrow> 'w \<Rightarrow> 'e infoblox_error option \<times> 'w" where
  "infoblox_add_loop fuel d record [] w = (None, w)"
| "infoblox_add_loop fuel d record (rec # recs) w =
     (case infoblox_prepareRecord rec (d_type record) (d_fqdn record) (d_ttl record) of
        (url, body) \<Rightarrow>
          (case infoblox_SendRequest fuel d ''POST'' url body head w of
             (Inl e, w') \<Rightarrow> if already_exists e then (None, w') else (Some (IbApiCall e), w')
           | (Inr _, w') \<Rightarrow> infoblox_add_loop fuel d record recs w'))"

definition infoblox_AddRecord :: "nat \<Rightarrow> 'w InfobloxProvider \<Rightarrow> dns_record \<Rightarrow> 'w \<Rightarrow> 'e infoblox_error option \<times> 'w" where
  "infoblox_AddRecord fuel d record = infoblox_add_loop fuel d record (d_records record)"

definition find_url :: "'w InfobloxProvider \<Rightarrow> dns_record \<Rightarrow> string" where
  "find_url d record =
     recordURL @ '':'' @ ToLower (d_type record) @ ''?name='' @ UnFqdn (d_fqdn record) @ ''&zone='' @ ib_zoneName d"

definition infoblox_findRecords ::
    "nat \<Rightarrow> 'w InfobloxProvider \<Rightarrow> dns_record \<Rightarrow> 'w \<Rightarrow> ('e infoblox_error + ib_record list) \<times> 'w" where
  "infoblox_findRecords fuel d record w =
     wrap_res IbDecode id (infoblox_SendRequest fuel d ''GET'' (find_url d record) None head w)"

definition infoblox_RemoveRecord :: "nat \<Rightarrow> 'w InfobloxProvider \<Rightarrow> dns_record \<Rightarrow> 'w \<Rightarrow> 'e infoblox_error option \<times> 'w" where
  "infoblox_RemoveRecord fuel d =
     find_and_delete (infoblox_findRecords fuel d)
       (\<lambda>rec w. case infoblox_SendRequest fuel d ''DELETE'' (versionURL @ ibRef rec) None head w of
          (Inl e, w') \<Rightarrow> (Some (IbApiCall e), w') | (Inr _, w') \<Rightarrow> (None, w'))"

definition infoblox_UpdateRecord :: "nat \<Rightarrow> 'w InfobloxProvider \<Rightarrow> dns_record \<Rightarrow> 'w \<Rightarrow> 'e infoblox_error option \<times> 'w" where
  "infoblox_UpdateRecord fuel d = remove_then_add (infoblox_RemoveRecord fuel d) (infoblox_AddRecord fuel d)"

definition setRecordType :: "string \<Rightarrow> ib_record list \<Rightarrow> ib_record list" where
  "setRecordType ty records =
     map (\<lambda>v. if ty = ''A'' then v\<lparr>ibType := ty, ibRec := ibIPv4addr v\<rparr>
       else if ty = ''TXT'' then v\<lparr>ibType := ty, ibRec := ibText v\<rparr> else v\<lparr>ibType := ty\<rparr>) records"

definition infoblox_reads :: "string \<Rightarrow> ib_record \<Rightarrow> listed" where
  "infoblox_reads zoneName rec =
     (if ibName rec = [] then zoneName @ ''.'' else ibName rec @ ''.'', ibType rec, ibRec rec, ibTTL rec)"

definition infoblox_GetRecords :: "nat \<Rightarrow> 'w InfobloxProvider \<Rightarrow> 'w \<Rightarrow> ('e infoblox_error + dns_record list) \<times> 'w" where
  "infoblox_GetRecords fuel d w =
     (case infoblox_SendRequest fuel d ''GET'' (recordAURL @ ''?'' @ recordAQuery @ ''&zone='' @ ib_zoneName d) None head w of
        (Inl e, w1) \<Rightarrow> (Inl (IbDecode e), w1)
      | (Inr recordAs, w1) \<Rightarrow>
          (case infoblox_SendRequest fuel d ''GET'' (recordTxtURL @ ''?'' @ recordTxtQuery @ ''&zone='' @ ib_zoneName d) None head w1 of
             (Inl e, w2) \<Rightarrow> (Inl (IbDecode e), w2)
           | (Inr recordTxts, w2) \<Rightarrow>
               (Inr (group_records (map (infoblox_reads (ib_zoneName d))
                  (filter (\<lambda>rec. \<not> ibDisable rec) (setRecordType ''A'' recordAs @ setRecordType ''TXT'' recordTxts)))), w2)))"

definition infoblox_provider ::
    "(string \<Rightarrow> string \<Rightarrow> string \<Rightarrow> bool \<Rightarrow> bool \<Rightarrow> 'w ib_client) \<Rightarrow> (string \<Rightarrow> string \<Rightarrow> 'e + 'e secret_file) \<Rightarrow> env \<Rightarrow> nat
       \<Rightarrow> ('e infoblox_error, 'w InfobloxProvider \<times> 'w) provider" where
  "infoblox_provider newClient OpenInRoot env fuel =
     \<lparr>pInit = (\<lambda>root. init_on (infoblox_Init newClient OpenInRoot env fuel root)), pGetName = ''Infoblox'',
      pHealthCheck = call_on infoblox_HealthCheck,
      pAddRecord = (\<lambda>r. call_on (\<lambda>d. infoblox_AddRecord fuel d r)),
      pRemoveRecord = (\<lambda>r. call_on (\<lambda>d. infoblox_RemoveRecord fuel d r)),
      pUpdateRecord = (\<lambda>r. call_on (\<lambda>d. infoblox_UpdateRecord fuel d r)),
      pGetRecords = call_on (infoblox_GetRecords fuel)\<rparr>"

subsection \<open>Lemmas: secrets\<close>

lemma read_secret_Inr:
  "read_secret f = Inr payload \<longleftrightarrow>
     sfStat f = Inr True \<and> sfError f = None \<and> sfContent f = payload \<and> payload \<noteq> [] \<and> length payload \<le> maxSecretLen"
  by (auto simp: read_secret_def split: sum.splits if_splits option.splits)

text \<open>The paths that are opened: those that lead, by names only, from the root of the secrets down.\<close>

definition secret_parts :: "string \<Rightarrow> string list \<Rightarrow> bool" where
  "secret_parts path parts =
     (parts \<noteq> [] \<and> list_all plain_part parts \<and> parts_of path = (if IsAbs path then [''run'', ''secrets''] @ parts else parts))"

definition relative_secret :: "string \<Rightarrow> string option" where
  "relative_secret path = (if IsAbs (Clean path) then Rel (Clean secretRoot) (Clean path) else Some (Clean path))"

lemma secretRoot_parts: "IsAbs (Clean secretRoot)" "parts_of (Clean secretRoot) = [''run'', ''secrets'']"
  by code_simp+

lemma plain_clean_form: "list_all plain_part parts \<Longrightarrow> clean_form rooted parts"
  unfolding clean_form_def by (intro exI [of _ 0] exI [of _ parts]) simp

lemma Join_plain_dot:
  assumes "list_all plain_part parts" and "parts \<noteq> []"
  shows "Join parts [slash] \<noteq> ''.''"
proof
  assume "Join parts [slash] = ''.''"
  moreover have "parts_of ''.'' = []" by code_simp
  ultimately show False using Join_parts(4) [OF plain_clean_form [OF assms(1)] assms(2)] assms(2) by simp
qed

lemma relative_secret_local:
  "(\<exists>rel. relative_secret path = Some rel \<and> \<not> (rel = ''.'' \<or> \<not> IsLocal rel) \<and> Q rel) \<longleftrightarrow>
     (\<exists>parts. secret_parts path parts \<and> Q (Join parts [slash]))"
proof (cases "IsAbs path")
  case abs: True
  note C = Clean_rooted [OF abs]
  show ?thesis
  proof (cases "parts_of path = [''run'', ''secrets'']")
    case True
    then have "Clean (Clean path) = Clean (Clean secretRoot)"
      using C(2,3) secretRoot_parts by (simp add: Clean_def [of "Clean path"] Clean_def [of "Clean secretRoot"])
    then have "relative_secret path = Some ''.''" using C(2) by (simp add: relative_secret_def Rel_def Let_def)
    with True abs show ?thesis by (simp add: secret_parts_def)
  next
    case False
    then obtain k rest where rel: "Rel (Clean secretRoot) (Clean path) = Some (Join (replicate k ''..'' @ rest) [slash])"
      and rest: "list_all plain_part rest" "\<And>below. parts_of path = [''run'', ''secrets''] @ below \<longleftrightarrow> k = 0 \<and> below = rest"
        "replicate k ''..'' @ rest \<noteq> []"
      using Rel_rooted [OF secretRoot_parts(1) C(2)] secretRoot_parts(2) C(3) by auto
    have form: "clean_form False (replicate k ''..'' @ rest)" using rest(1) by (auto simp: clean_form_def)
    have "list_all plain_part (replicate k ''..'' @ rest) \<longleftrightarrow> k = 0"
      using rest(1) by (cases k) (auto simp: plain_part_def)
    with IsLocal_clean [OF form rest(3)] have isl: "IsLocal (Join (replicate k ''..'' @ rest) [slash]) \<longleftrightarrow> k = 0" by simp
    have sp: "secret_parts path parts \<longleftrightarrow> k = 0 \<and> parts = rest" for parts
      unfolding secret_parts_def if_P [OF abs] rest(2) using rest(1,3) by auto
    have secret: "relative_secret path = Some (Join (replicate k ''..'' @ rest) [slash])"
      using rel C(2) by (simp add: relative_secret_def)
    show ?thesis unfolding secret sp using isl rest(1,3) Join_plain_dot [of rest] by auto
  qed
next
  case rel: False
  have abs: "\<not> IsAbs (Clean path)" using Clean_relative [OF rel] by simp
  show ?thesis
  proof (cases "parts_of path = []")
    case True
    then show ?thesis using rel abs by (auto simp: relative_secret_def secret_parts_def Clean_def)
  next
    case False
    have form: "clean_form False (parts_of path)" using parts_form [of path] rel by simp
    show ?thesis using rel abs False IsLocal_clean [OF form False] Join_plain_dot [of "parts_of path"]
      by (auto simp: relative_secret_def secret_parts_def Clean_def)
  qed
qed

text \<open>
  C22. A secret is read exactly from the regular files below /run/secrets: the path, cleaned, leads
  there by names only, as a relative path or an absolute one; nothing else is opened, no step up
  escapes, and what is returned is the whole content, of at least one and at most 65536 bytes.
\<close>
theorem readSecretFile_contained:
  "readSecretFile OpenInRoot secretPath = Inr payload \<longleftrightarrow>
     TrimSpace secretPath \<noteq> [] \<and> CHR 0x00 \<notin> set (TrimSpace secretPath)
     \<and> (\<exists>parts file. secret_parts (TrimSpace secretPath) parts
          \<and> OpenInRoot ''/run/secrets'' (Join parts ''/'') = Inr file
          \<and> sfStat file = Inr True \<and> sfError file = None \<and> sfContent file = payload
          \<and> 1 \<le> length payload \<and> length payload \<le> 65536)"
proof -
  let ?q = "TrimSpace secretPath"
  let ?Q = "\<lambda>rel. \<exists>file. OpenInRoot ''/run/secrets'' rel = Inr file \<and> read_secret file = Inr payload"
  have root: "Clean secretRoot = ''/run/secrets''" by code_simp
  have "readSecretFile OpenInRoot secretPath = Inr payload \<longleftrightarrow>
      ?q \<noteq> [] \<and> CHR 0x00 \<notin> set ?q \<and> (\<exists>rel. relative_secret ?q = Some rel \<and> \<not> (rel = ''.'' \<or> \<not> IsLocal rel) \<and> ?Q rel)"
    unfolding readSecretFile_def readSecretFileFromRoot_def Let_def relative_secret_def [symmetric] unfolding root
    by (auto split: option.splits sum.splits)
  also have "\<dots> \<longleftrightarrow> ?q \<noteq> [] \<and> CHR 0x00 \<notin> set ?q \<and> (\<exists>parts. secret_parts ?q parts \<and> ?Q (Join parts [slash]))"
    unfolding relative_secret_local ..
  finally show ?thesis
    by (auto simp: read_secret_Inr maxSecretLen_def slash_def Suc_le_eq)
qed

subsection \<open>Lemmas: pages\<close>

text \<open>A service that has prepared a list of pages, each with the identifier of the one that follows
  (empty for the last); its world is the list of the URLs that were asked for.\<close>

definition page_client :: "(string \<times> ib_json list) list \<Rightarrow> string list ib_client" where
  "page_client pages =
     \<lparr>ibSend = (\<lambda>meth url body hdr w.
        (if length w < length pages
         then Inr (Inr \<lparr>pgNextPageId = Some (fst (pages ! length w)), pgResult = Some (snd (pages ! length w))\<rparr>)
         else Inl ''no such page'', w @ [url])),
      ibRecordHostAll = (\<lambda>_ w. (None, w))\<rparr>"

fun chained :: "string \<Rightarrow> (string \<times> ib_json list) list \<Rightarrow> bool" where
  "chained i [] = (i = [])"
| "chained i (p # pages) = (i \<noteq> [] \<and> chained (fst p) pages)"

fun page_ids :: "string \<Rightarrow> (string \<times> ib_json list) list \<Rightarrow> string list" where
  "page_ids i [] = []"
| "page_ids i (p # pages) = i # page_ids (fst p) pages"

text \<open>The URL of the first page.\<close>

definition get_url :: "string \<Rightarrow> string" where
  "get_url urlStr = urlStr @ (if CHR ''?'' \<in> set urlStr then ''&'' else ''?'') @ firstPage"

lemma length_decode_into: "length (decode_into js heap) = max (length js) (length heap)"
  by (induction js heap rule: decode_into.induct) auto

lemma length_decode_all: "length heap \<le> length (fold decode_into pages heap)"
proof (induction pages arbitrary: heap)
  case (Cons page pages)
  from Cons [of "decode_into page heap"] show ?case by (simp add: length_decode_into)
qed simp

lemma length_decode_page: "page \<in> set pages \<Longrightarrow> length page \<le> length (fold decode_into pages heap)"
proof (induction pages arbitrary: heap)
  case (Cons p pages)
  then show ?case using length_decode_all [of "decode_into p heap" pages] by (auto simp: length_decode_into)
qed simp

lemma map_nth_take: "n \<le> length xs \<Longrightarrow> map ((!) xs) [0..<n] = take n xs"
  by (simp add: list_eq_iff_nth_eq)

lemma decode_new: "decode_into js [] = map (\<lambda>j. decode_fields j zero_record) js"
  by (induction js) auto

text \<open>The fields of one object are among those of another.\<close>

definition covers :: "ib_json \<Rightarrow> ib_json \<Rightarrow> bool" where
  "covers j' j =
     ((jRef j' = None \<longrightarrow> jRef j = None) \<and> (jFqdn j' = None \<longrightarrow> jFqdn j = None) \<and> (jName j' = None \<longrightarrow> jName j = None)
      \<and> (jZone j' = None \<longrightarrow> jZone j = None) \<and> (jTTL j' = None \<longrightarrow> jTTL j = None) \<and> (jDisable j' = None \<longrightarrow> jDisable j = None)
      \<and> (jIPv4addr j' = None \<longrightarrow> jIPv4addr j = None) \<and> (jText j' = None \<longrightarrow> jText j = None)
      \<and> (jType j' = None \<longrightarrow> jType j = None) \<and> (jRec j' = None \<longrightarrow> jRec j = None))"

lemma decode_over: "covers j' j \<Longrightarrow> decode_fields j' (decode_fields j r) = decode_fields j' r"
  by (auto simp: covers_def decode_fields_def split: option.splits)

lemma decode_over_page: "list_all2 covers js' js \<Longrightarrow> decode_into js' (decode_into js []) = decode_into js' []"
  by (induction js' js rule: list_all2_induct) (auto simp: decode_over)

lemma next_pages_run:
  assumes "drop (length w) pages = rest" and "chained (rpPage_id result) rest" and "length rest \<le> fuel"
  shows "next_pages fuel (d\<lparr>ib_client := page_client pages\<rparr>) meth url body hdr result records w =
    (Inr (map ((!) (fold decode_into (map snd rest) (rpHeap result)))
        (records @ concat (map (\<lambda>p. [0..<length (snd p)]) rest))),
     w @ map (\<lambda>i. url @ ''&_page_id='' @ i) (page_ids (rpPage_id result) rest))"
  using assms
proof (induction rest arbitrary: fuel result records w)
  case Nil
  then show ?case by (simp add: next_pages.simps [of fuel])
next
  case (Cons p rest)
  then obtain n where fuel: "fuel = Suc n" by (cases fuel) auto
  have here: "length w < length pages" "pages ! length w = p"
    using Cons.prems(1) by (metis drop_eq_Nil leI list.distinct(1), metis nth_via_drop)
  have there: "drop (length (w @ [u])) pages = rest" for u
    using Cons.prems(1) by (simp add: drop_Suc) (metis drop_tl list.sel(3))
  from Cons.prems(2,3) Cons.IH [OF there] show ?case
    unfolding fuel next_pages.simps [of "Suc n"]
    by (simp add: page_client_def here Parse_def Let_def)
qed


definition ex_json :: "string \<Rightarrow> string \<Rightarrow> ib_json" where
  "ex_json ref n = \<lparr>jRef = Some ref, jFqdn = None, jName = Some n, jZone = Some ''ex.com'', jTTL = Some 300, jDisable = Some False,
     jIPv4addr = Some ''10.0.0.1'', jText = None, jType = None, jRec = None\<rparr>"

definition ex_paged :: "string list InfobloxProvider" where
  "ex_paged = \<lparr>ib_client = page_client [(''p2'', [ex_json ''r1'' ''a.ex.com'']), ([], [ex_json ''r2'' ''b.ex.com''])],
     ib_zoneName = ''ex.com''\<rparr>"


end
