(* ===== verification/Infoblox_Correct.thy ===== *)
theory Infoblox_Correct
  imports Infoblox
begin

text \<open>
  The Infoblox provider keeps the contract of a provider: the locale \<open>infoblox_api\<close> states what the
  service documents, its lemmas lead from there over \<open>record_service\<close> to \<open>remove_add\<close>, and a simulated
  service interprets it. The loop of \<open>AddRecord\<close> is compared with the loop that stops at the first error.
\<close>

subsection \<open>The contract\<close>

text \<open>Names that the URLs of the requests can carry as they are.\<close>

definition query_name :: "string \<Rightarrow> bool" where
  "query_name n = (bare_name n \<and> list_all (\<lambda>c. c \<notin> set ''&#%+ '') n)"

definition ib_storable :: "(string \<Rightarrow> string \<Rightarrow> string \<Rightarrow> bool) \<Rightarrow> dns_record \<Rightarrow> bool" where
  "ib_storable valid d =
     (full_name (d_fqdn d) \<and> query_name (UnFqdn (d_fqdn d)) \<and> d_type d \<in> {''A'', ''TXT''} \<and> d_records d \<noteq> []
      \<and> distinct (d_records d) \<and> list_all (valid (UnFqdn (d_fqdn d)) (d_type d)) (d_records d))"

definition list_url :: "string \<Rightarrow> string \<Rightarrow> string" where
  "list_url zone t =
     (if t = ''A'' then recordAURL @ ''?'' @ recordAQuery else recordTxtURL @ ''?'' @ recordTxtQuery) @ ''&zone='' @ zone"

definition name_url :: "string \<Rightarrow> string \<Rightarrow> string \<Rightarrow> string" where
  "name_url zone t n = recordURL @ '':'' @ ToLower t @ ''?name='' @ n @ ''&zone='' @ zone"

definition ib_zone ::
    "('r \<Rightarrow> string) \<Rightarrow> ('r \<Rightarrow> string) \<Rightarrow> ('r \<Rightarrow> string) \<Rightarrow> 'r set \<Rightarrow> (string \<times> string) \<rightharpoonup> string set" where
  "ib_zone rname rtype rdata S = store_view (\<lambda>r. (Fqdn (rname r), rtype r)) rdata S"

text \<open>What the code reads of the object of a record of type \<open>t\<close>.\<close>

definition listed_as :: "string \<Rightarrow> ib_json \<Rightarrow> string \<Rightarrow> string \<Rightarrow> string \<Rightarrow> bool" where
  "listed_as t j ref n v =
     (jRef j = Some ref \<and> jName j = Some n \<and> (if t = ''A'' then jIPv4addr j else jText j) = Some v \<and> jDisable j \<noteq> Some True)"

text \<open>The request that creates a record of type \<open>t\<close> with name and value: an object for the collection of
  the type, with the value in the field of the type.\<close>

definition creates :: "string \<Rightarrow> string \<Rightarrow> string \<Rightarrow> string \<Rightarrow> ib_body \<Rightarrow> bool" where
  "creates t n v url body =
     (bdName body = n \<and>
      (if t = ''A'' then url = ''/wapi/v1.5/record:a'' \<and> bdIPv4addr body = Some v \<and> bdText body = None
       else t = ''TXT'' \<and> url = ''/wapi/v1.5/record:txt'' \<and> bdText body = Some v \<and> bdIPv4addr body = None))"

lemma prepared_creates:
  "t \<in> {''A'', ''TXT''} \<Longrightarrow> \<exists>url body. infoblox_prepareRecord v t f ttl = (url, Some body) \<and> creates t (UnFqdn f) v url body"
  by (auto simp: infoblox_prepareRecord_def creates_def recordAURL_def recordTxtURL_def versionURL_def)

lemma creates_url: "creates t n v url body \<Longrightarrow> url \<noteq> []"
  by (auto simp: creates_def split: if_splits)

text \<open>One round of the loops of \<open>AddRecord\<close> and \<open>RemoveRecord\<close>.\<close>

definition ib_create ::
    "nat \<Rightarrow> 'w InfobloxProvider \<Rightarrow> dns_record \<Rightarrow> string \<Rightarrow> 'w \<Rightarrow> 'e infoblox_error option \<times> 'w" where
  "ib_create fuel d r v w =
     (case infoblox_prepareRecord v (d_type r) (d_fqdn r) (d_ttl r) of
        (url, body) \<Rightarrow>
          (case infoblox_SendRequest fuel d ''POST'' url body head w of
             (Inl e, w') \<Rightarrow> (Some (IbApiCall e), w') | (Inr _, w') \<Rightarrow> (None, w')))"

definition ib_delete :: "nat \<Rightarrow> 'w InfobloxProvider \<Rightarrow> string \<Rightarrow> 'w \<Rightarrow> 'e infoblox_error option \<times> 'w" where
  "ib_delete fuel d ref w =
     (case infoblox_SendRequest fuel d ''DELETE'' (versionURL @ ref) None head w of
        (Inl e, w') \<Rightarrow> (Some (IbApiCall e), w') | (Inr _, w') \<Rightarrow> (None, w'))"

text \<open>The loop of \<open>AddRecord\<close> is the loop that stops at the first error, but "already exists" is no
  error in the end.\<close>

definition forgive :: "'e infoblox_error option \<Rightarrow> 'e infoblox_error option" where
  "forgive e = (case e of Some (IbApiCall err) \<Rightarrow> if already_exists err then None else e | _ \<Rightarrow> e)"

lemma add_loop_step:
  "infoblox_add_loop fuel d r (v # vs) w =
     (case ib_create fuel d r v w of (Some e, w') \<Rightarrow> (forgive (Some e), w') | (None, w') \<Rightarrow> infoblox_add_loop fuel d r vs w')"
  by (auto simp: ib_create_def forgive_def split: prod.splits sum.splits)

lemma add_loop_for_each:
  "(infoblox_add_loop fuel d r vs w :: 'e infoblox_error option \<times> 'w) =
     (case for_each (ib_create fuel d r) vs w of (e, w') \<Rightarrow> (forgive e, w'))"
proof (induction vs arbitrary: w)
  case (Cons v vs)
  obtain e w1 where call: "(ib_create fuel d r v w :: 'e infoblox_error option \<times> 'w) = (e, w1)" by fastforce
  show ?case unfolding add_loop_step for_each.simps call by (cases e) (simp_all add: Cons)
qed (simp add: forgive_def)

lemma for_each_map: "(\<And>x. x \<in> set xs \<Longrightarrow> f x = g (h x)) \<Longrightarrow> for_each f xs w = for_each g (map h xs) w"
  by (induction xs arbitrary: w) (auto split: prod.splits option.splits)

text \<open>Reading a listing: what the code makes of the objects of records.\<close>

definition reads_as :: "string \<Rightarrow> ib_record \<Rightarrow> string \<Rightarrow> string \<Rightarrow> string \<Rightarrow> bool" where
  "reads_as zone x n t v = (\<not> ibDisable x \<and> infoblox_reads zone x = (Fqdn n, t, v, ibTTL x))"

lemma listed_reads:
  assumes "listed_as t j ref n v" and "bare_name n" and "t \<in> {''A'', ''TXT''}"
  shows "list_all (\<lambda>x. reads_as zone x n t v) (setRecordType t [decode_fields j zero_record])"
  using assms
  by (auto simp: setRecordType_def reads_as_def listed_as_def infoblox_reads_def decode_fields_def zero_record_def Fqdn_def
      bare_name_def split: option.splits)

lemma listing_reads:
  assumes "list_all2 (\<lambda>r j. listed_as t j (rref r) (rname r) (rdata r)) rs js" and "t \<in> {''A'', ''TXT''}"
    and "\<And>r. r \<in> set rs \<Longrightarrow> bare_name (rname r) \<and> rtype r = t"
  shows "list_all2 (\<lambda>r x. reads_as zone x (rname r) (rtype r) (rdata r)) rs
    (setRecordType t (map (\<lambda>j. decode_fields j zero_record) js))"
  using assms
proof (induction rs js rule: list_all2_induct)
  case Nil
  then show ?case by (simp add: setRecordType_def)
next
  case (Cons r rs j js)
  obtain x where x: "setRecordType t [decode_fields j zero_record] = [x]" by (simp add: setRecordType_def)
  then have all: "setRecordType t (map (\<lambda>j. decode_fields j zero_record) (j # js)) =
      x # setRecordType t (map (\<lambda>j. decode_fields j zero_record) js)" by (simp add: setRecordType_def)
  then have "reads_as zone x (rname r) (rtype r) (rdata r)"
    using listed_reads [OF Cons(1) _ Cons.prems(1), where zone = zone] Cons.prems(2) [of r] x by simp
  with Cons show ?case unfolding all by simp
qed

lemma map_over_zip: "length xs = length ys \<Longrightarrow> map (\<lambda>p. f (snd p)) (zip xs ys) = map f ys"
  by (induction xs ys rule: list_induct2) auto

lemma listing_enabled:
  "list_all2 (\<lambda>r x. reads_as zone x (f r) (g r) (h r)) rs xs \<Longrightarrow> filter (\<lambda>rec. \<not> ibDisable rec) xs = xs"
  by (induction rs xs rule: list_all2_induct) (auto simp: reads_as_def)

text \<open>
  What the service documents, for a zone without disabled records whose listings fit in one page: a
  listing has the records of a type once, with the fields that are asked for; a search has the records
  of a name and type, with their references; a creation adds one record, and is refused with "already
  exists" only where there is such a record; a deletion takes away the record of the reference.
\<close>

locale infoblox_api =
  fixes cl :: "'w ib_client"
    and zone :: string
    and ok :: "'w \<Rightarrow> bool"
    and recs :: "'w \<Rightarrow> 'r set"
    and rref :: "'r \<Rightarrow> string"
    and rname :: "'r \<Rightarrow> string"
    and rtype :: "'r \<Rightarrow> string"
    and rdata :: "'r \<Rightarrow> string"
    and valid :: "string \<Rightarrow> string \<Rightarrow> string \<Rightarrow> bool"
  assumes names: "ok w \<Longrightarrow> r \<in> recs w \<Longrightarrow> query_name (rname r) \<and> rtype r \<in> {''A'', ''TXT''}"
    and refs: "ok w \<Longrightarrow> inj_on rref (recs w)"
    and get_frame: "ok w \<Longrightarrow> ibSend cl ''GET'' url None head w = (ans, w') \<Longrightarrow> ok w' \<and> recs w' = recs w"
    and list_page: "ok w \<Longrightarrow> t \<in> {''A'', ''TXT''} \<Longrightarrow>
          ibSend cl ''GET'' (get_url (list_url zone t)) None head w = (Inr (Inr pg), w') \<Longrightarrow>
          \<exists>rs js. pgNextPageId pg \<in> {None, Some []} \<and> pgResult pg = Some js \<and> set rs = {r \<in> recs w. rtype r = t}
            \<and> list_all2 (\<lambda>r j. listed_as t j (rref r) (rname r) (rdata r)) rs js"
    and find_page: "ok w \<Longrightarrow> t \<in> {''A'', ''TXT''} \<Longrightarrow> query_name n \<Longrightarrow>
          ibSend cl ''GET'' (get_url (name_url zone t n)) None head w = (Inr (Inr pg), w') \<Longrightarrow>
          \<exists>rs js. pgNextPageId pg \<in> {None, Some []} \<and> pgResult pg = Some js \<and> distinct rs
            \<and> set rs = {r \<in> recs w. rtype r = t \<and> rname r = n} \<and> map jRef js = map (\<lambda>r. Some (rref r)) rs"
    and post_frame: "ok w \<Longrightarrow> creates t n v url body \<Longrightarrow> query_name n \<Longrightarrow> valid n t v \<Longrightarrow>
          ibSend cl ''POST'' url (Some body) head w = (ans, w') \<Longrightarrow>
          ok w' \<and> (recs w' = recs w
            \<or> (\<exists>r. rname r = n \<and> rtype r = t \<and> rdata r = v \<and> recs w' = insert r (recs w)))"
    and post_ok: "ok w \<Longrightarrow> creates t n v url body \<Longrightarrow> query_name n \<Longrightarrow> valid n t v \<Longrightarrow>
          ibSend cl ''POST'' url (Some body) head w = (Inr ans', w') \<Longrightarrow>
          \<exists>r \<in> recs w'. rname r = n \<and> rtype r = t \<and> rdata r = v"
    and post_exists: "ok w \<Longrightarrow> creates t n v url body \<Longrightarrow> query_name n \<Longrightarrow> valid n t v \<Longrightarrow>
          ibSend cl ''POST'' url (Some body) head w = (Inl err, w') \<Longrightarrow>
          Index err ''already exists'' \<noteq> None \<Longrightarrow> \<exists>r \<in> recs w. rname r = n \<and> rtype r = t \<and> rdata r = v"
    and delete_frame: "ok w \<Longrightarrow> r \<in> recs w \<Longrightarrow> ibSend cl ''DELETE'' (versionURL @ rref r) None head w = (ans, w') \<Longrightarrow>
          ok w' \<and> (recs w' = recs w \<or> recs w' = recs w - {r})"
    and delete_ok: "ok w \<Longrightarrow> r \<in> recs w \<Longrightarrow> ibSend cl ''DELETE'' (versionURL @ rref r) None head w = (Inr ans', w') \<Longrightarrow>
          r \<notin> recs w'"
begin

text \<open>Reading changes nothing, with any number of pages.\<close>

lemma pages_frame:
  "ib_client d = cl \<Longrightarrow> ok w \<Longrightarrow> next_pages fuel d ''GET'' url None head result records w = (res, w') \<Longrightarrow>
     ok w' \<and> recs w' = recs w"
proof (induction fuel arbitrary: result records w)
  case 0
  then show ?case by (simp add: next_pages.simps [of 0] split: if_splits)
next
  case (Suc n)
  obtain ans w1 where call: "ibSend cl ''GET'' (url @ ''&_page_id='' @ rpPage_id result) None head w = (ans, w1)" by fastforce
  note frame = get_frame [OF Suc.prems(2) call]
  note run = Suc.prems(3) [unfolded next_pages.simps [of "Suc n"] Suc.prems(1) nat.case call Let_def prod.case]
  have rest: "ok w' \<and> recs w' = recs w1"
    if "next_pages n d ''GET'' url None head result' records' w1 = (res, w')" for result' records'
    using Suc.IH [OF Suc.prems(1) _ that] frame by blast
  show ?case
  proof (cases "rpPage_id result = []")
    case False
    consider (page) pg where "ans = Inr (Inr pg)" | (failed) err where "ans = Inl err \<or> ans = Inr (Inl err)"
      by (metis sum.exhaust)
    then show ?thesis
    proof cases
      case page
      with run False rest frame show ?thesis by auto
    next
      case failed
      with run False have "w' = w1" by (elim disjE) simp_all
      with frame show ?thesis by simp
    qed
  qed (use run Suc.prems(2) in simp)
qed

lemma send_frame:
  assumes "ib_client d = cl" and "ok w" and "infoblox_SendRequest fuel d ''GET'' urlStr None head w = (res, w')"
  shows "ok w' \<and> recs w' = recs w"
proof (cases "urlStr = []")
  case False
  let ?url = "if CHR ''?'' \<in> set urlStr then urlStr @ ''&'' @ firstPage else urlStr @ ''?'' @ firstPage"
  obtain ans w1 where call: "ibSend cl ''GET'' ?url None head w = (ans, w1)" by fastforce
  note frame = get_frame [OF assms(2) call]
  show ?thesis
    using assms(3) False frame pages_frame [OF assms(1), of w1]
    unfolding infoblox_SendRequest_def Let_def assms(1) call by (auto split: sum.splits)
qed (use assms in \<open>simp add: infoblox_SendRequest_def\<close>)

text \<open>A listing in one page.\<close>

lemma get_one_page:
  assumes "ib_client d = cl" and "ok w" and "urlStr \<noteq> []" and "CHR ''?'' \<in> set urlStr"
    and "infoblox_SendRequest fuel d ''GET'' urlStr None head w = (res, w')"
    and page: "\<And>pg w1. ibSend cl ''GET'' (get_url urlStr) None head w = (Inr (Inr pg), w1) \<Longrightarrow>
      pgNextPageId pg \<in> {None, Some []} \<and> (\<exists>js. pgResult pg = Some js)"
  shows "ok w' \<and> recs w' = recs w
    \<and> (\<forall>found. res = Inr found \<longrightarrow> (\<exists>pg js. ibSend cl ''GET'' (get_url urlStr) None head w = (Inr (Inr pg), w')
         \<and> pgResult pg = Some js \<and> found = map (\<lambda>j. decode_fields j zero_record) js))"
proof -
  obtain ans w1 where call: "ibSend cl ''GET'' (get_url urlStr) None head w = (ans, w1)" by fastforce
  note frame = get_frame [OF assms(2) call]
  have url: "get_url urlStr = urlStr @ ''&'' @ firstPage" using assms(4) by (simp add: get_url_def)
  show ?thesis
  proof (cases "\<exists>pg. ans = Inr (Inr pg)")
    case True
    then obtain pg where pg: "ans = Inr (Inr pg)" by blast
    with page [of pg w1] call obtain js where js: "pgNextPageId pg \<in> {None, Some []}" "pgResult pg = Some js" by auto
    have "(res, w') = (Inr (map ((!) (decode_into js [])) [0..<length js]), w1)"
      using assms(1,3-5) call js pg unfolding url
      by (auto simp: infoblox_SendRequest_def Let_def Parse_def next_pages.simps [of fuel])
    moreover have "map ((!) (decode_into js [])) [0..<length js] = map (\<lambda>j. decode_fields j zero_record) js"
      using map_nth_take [of "length js" "decode_into js []"] by (simp add: decode_new)
    ultimately show ?thesis using frame call pg js(2) by auto
  next
    case False
    then obtain err where "ans = Inl err \<or> ans = Inr (Inl err)" by (metis sum.exhaust)
    then have "(res, w') = (Inl (SendFailed err), w1)"
      using assms(1,3-5) call unfolding url by (auto simp: infoblox_SendRequest_def Let_def)
    with frame show ?thesis by simp
  qed
qed

lemma listing:
  assumes "ib_client d = cl" and "ok w" and "t \<in> {''A'', ''TXT''}"
    and "infoblox_SendRequest fuel d ''GET'' (list_url zone t) None head w = (res, w')"
  shows "ok w' \<and> recs w' = recs w \<and> (\<forall>found. res = Inr found \<longrightarrow>
    (\<exists>rs. set rs = {r \<in> recs w. rtype r = t}
       \<and> list_all2 (\<lambda>r x. reads_as zone x (rname r) (rtype r) (rdata r)) rs (setRecordType t found)))"
proof -
  have url: "list_url zone t \<noteq> []" "CHR ''?'' \<in> set (list_url zone t)" by (simp_all add: list_url_def recordTxtURL_def versionURL_def)
  have page: "pgNextPageId pg \<in> {None, Some []} \<and> (\<exists>js. pgResult pg = Some js)"
    if "ibSend cl ''GET'' (get_url (list_url zone t)) None head w = (Inr (Inr pg), w1)" for pg w1
    using list_page [OF assms(2,3) that] by blast
  have one: "ok w' \<and> recs w' = recs w
    \<and> (\<forall>found. res = Inr found \<longrightarrow> (\<exists>pg js. ibSend cl ''GET'' (get_url (list_url zone t)) None head w = (Inr (Inr pg), w')
         \<and> pgResult pg = Some js \<and> found = map (\<lambda>j. decode_fields j zero_record) js))"
    by (rule get_one_page [OF assms(1,2) url assms(4) page])
  have "\<exists>rs. set rs = {r \<in> recs w. rtype r = t}
      \<and> list_all2 (\<lambda>r x. reads_as zone x (rname r) (rtype r) (rdata r)) rs (setRecordType t found)" if "res = Inr found" for found
  proof -
    from one that obtain pg js where pg: "ibSend cl ''GET'' (get_url (list_url zone t)) None head w = (Inr (Inr pg), w')"
      "pgResult pg = Some js" "found = map (\<lambda>j. decode_fields j zero_record) js" by blast
    from list_page [OF assms(2,3) pg(1)] pg(2) obtain rs where rs: "set rs = {r \<in> recs w. rtype r = t}"
      "list_all2 (\<lambda>r j. listed_as t j (rref r) (rname r) (rdata r)) rs js" by auto
    have "bare_name (rname r) \<and> rtype r = t" if "r \<in> set rs" for r
      using that rs(1) names [OF assms(2), of r] by (auto simp: query_name_def)
    from listing_reads [OF rs(2) assms(3) this] rs(1) pg(3) show ?thesis by blast
  qed
  with one show ?thesis by blast
qed

lemma get_records:
  fixes d :: "'w InfobloxProvider" and res :: "'e infoblox_error + dns_record list"
  assumes "ib_client d = cl" and "ib_zoneName d = zone" and "ok w" and "infoblox_GetRecords fuel d w = (res, w')"
  shows "ok w' \<and> recs w' = recs w \<and> (\<forall>rs. res = Inr rs \<longrightarrow>
    distinct (map rkey rs) \<and> rview rs = store_view (\<lambda>r. (Fqdn (rname r), rtype r)) rdata (recs w))"
proof -
  let ?P = "\<lambda>r x. reads_as zone x (rname r) (rtype r) (rdata r)"
  let ?key = "\<lambda>r. (Fqdn (rname r), rtype r)"
  have urls: "recordAURL @ ''?'' @ recordAQuery @ ''&zone='' @ ib_zoneName d = list_url zone ''A''"
    "recordTxtURL @ ''?'' @ recordTxtQuery @ ''&zone='' @ ib_zoneName d = list_url zone ''TXT''"
    using assms(2) by (simp_all add: list_url_def)
  note run = assms(4) [unfolded infoblox_GetRecords_def urls]
  obtain resA w1 where A: "infoblox_SendRequest fuel d ''GET'' (list_url zone ''A'') None head w = (resA, w1)" by fastforce
  note listA = listing [OF assms(1,3) _ A, simplified]
  obtain resT w2 where T: "infoblox_SendRequest fuel d ''GET'' (list_url zone ''TXT'') None head w1 = (resT, w2)" by fastforce
  note listT = listing [OF assms(1) listA [THEN conjunct1] _ T, simplified]
  show ?thesis
  proof (cases "\<exists>As Ts. resA = Inr As \<and> resT = Inr Ts")
    case False
    then show ?thesis using run A T listA listT by (auto split: sum.splits)
  next
    case True
    then obtain As Ts where found: "resA = Inr As" "resT = Inr Ts" by blast
    let ?all = "setRecordType ''A'' As @ setRecordType ''TXT'' Ts"
    obtain rsA where rsA: "set rsA = {r \<in> recs w. rtype r = ''A''}" "list_all2 ?P rsA (setRecordType ''A'' As)"
      using listA found(1) by blast
    obtain rsT where rsT: "set rsT = {r \<in> recs w. rtype r = ''TXT''}" "list_all2 ?P rsT (setRecordType ''TXT'' Ts)"
      using listA listT found(2) by auto
    let ?rs = "rsA @ rsT"
    have reads: "list_all2 ?P ?rs ?all" using rsA(2) rsT(2) by (rule list_all2_appendI)
    have all: "map (\<lambda>p. infoblox_reads zone (snd p)) (zip ?rs ?all) = map (infoblox_reads zone) ?all"
      by (rule map_over_zip [OF list_all2_lengthD [OF reads]])
    have "(\<lambda>(f, t, v, ttl). ((f, t), v)) (infoblox_reads zone (snd p)) = (?key (fst p), rdata (fst p))" if "p \<in> set (zip ?rs ?all)" for p
      using reads that by (auto simp: list_all2_iff reads_as_def)
    from group_records_contract [of "zip ?rs ?all" "\<lambda>p. infoblox_reads zone (snd p)" "\<lambda>p. ?key (fst p)" "\<lambda>p. rdata (fst p)", OF this]
    have "distinct (map rkey (group_records (map (infoblox_reads zone) ?all)))
      \<and> rview (group_records (map (infoblox_reads zone) ?all)) = store_view ?key rdata (fst ` set (zip ?rs ?all))"
      unfolding all by (simp add: group_records_def store_view_image)
    moreover have "fst ` set (zip ?rs ?all) = recs w"
    proof -
      have "fst ` set (zip ?rs ?all) = set ?rs" using list_all2_lengthD [OF reads] by (metis list.set_map map_fst_zip)
      with rsA(1) rsT(1) names [OF assms(3)] show ?thesis by auto
    qed
    moreover have "res = Inr (group_records (map (infoblox_reads zone) ?all))" "w' = w2"
      using run A T found listing_enabled [OF rsA(2)] listing_enabled [OF rsT(2)] assms(2) by auto
    ultimately show ?thesis using listA listT by simp
  qed
qed

lemma create_call:
  fixes d :: "'w InfobloxProvider" and e :: "'e infoblox_error option"
  assumes "ib_client d = cl" and "ok w" and "ib_storable valid r" and "v \<in> set (d_records r)"
    and "ib_create fuel d r v w = (e, w')"
  shows "ok w' \<and> (recs w' = recs w
      \<or> (\<exists>x. (Fqdn (rname x), rtype x) = rkey r \<and> rdata x = v \<and> recs w' = insert x (recs w)))
    \<and> (e = None \<or> e \<noteq> forgive e \<longrightarrow> (\<exists>x \<in> recs (if e = None then w' else w). (Fqdn (rname x), rtype x) = rkey r \<and> rdata x = v))
    \<and> e \<in> {None} \<union> range (\<lambda>err. Some (IbApiCall err))"
proof -
  have r: "query_name (UnFqdn (d_fqdn r))" "valid (UnFqdn (d_fqdn r)) (d_type r) v" "Fqdn (UnFqdn (d_fqdn r)) = d_fqdn r"
    using assms(3,4) by (auto simp: ib_storable_def list_all_iff full_name_Fqdn)
  obtain url body where prep: "creates (d_type r) (UnFqdn (d_fqdn r)) v url body"
      "infoblox_prepareRecord v (d_type r) (d_fqdn r) (d_ttl r) = (url, Some body)"
    using prepared_creates [of "d_type r"] assms(3) by (metis ib_storable_def)
  obtain ans w1 where call: "ibSend cl ''POST'' url (Some body) head w = (ans, w1)" by fastforce
  have key: "(Fqdn (rname x), rtype x) = rkey r" if "rname x = UnFqdn (d_fqdn r)" "rtype x = d_type r" for x
    using that r(3) by (simp add: rkey_def)
  have run: "(e, w') = ((case ans of Inl err \<Rightarrow> Some (IbApiCall (SendFailed err)) | Inr _ \<Rightarrow> None), w1)"
    using assms(1,5) prep creates_url [OF prep(1)] call by (auto simp: ib_create_def infoblox_SendRequest_def split: sum.splits)
  note frame = post_frame [OF assms(2) prep(1) r(1,2) call]
  have "ok w' \<and> (recs w' = recs w
      \<or> (\<exists>x. (Fqdn (rname x), rtype x) = rkey r \<and> rdata x = v \<and> recs w' = insert x (recs w)))"
    using frame run key by (metis prod.inject)
  moreover have "\<exists>x \<in> recs w'. (Fqdn (rname x), rtype x) = rkey r \<and> rdata x = v" if "e = None"
    using run that post_ok [OF assms(2) prep(1) r(1,2), of _ w1] call key by (auto split: sum.splits) metis
  moreover have "\<exists>x \<in> recs w. (Fqdn (rname x), rtype x) = rkey r \<and> rdata x = v" if "e \<noteq> forgive e"
    using run that post_exists [OF assms(2) prep(1) r(1,2), of _ w1] call key
    by (auto simp: forgive_def already_exists_def split: sum.splits if_splits) metis
  moreover have "e \<in> {None} \<union> range (\<lambda>err. Some (IbApiCall err))" using run by (auto split: sum.splits)
  ultimately show ?thesis by (auto simp: forgive_def)
qed

lemma find_call:
  assumes "ib_client d = cl" and "ib_zoneName d = zone" and "ok w"
    and "d_type r \<in> {''A'', ''TXT''}" and "query_name (UnFqdn (d_fqdn r))" and "infoblox_findRecords fuel d r w = (res, w')"
  shows "ok w' \<and> recs w' = recs w \<and> (\<forall>found. res = Inr found \<longrightarrow>
    (\<exists>rs. distinct rs \<and> set rs = {x \<in> recs w. rtype x = d_type r \<and> rname x = UnFqdn (d_fqdn r)}
       \<and> map ibRef found = map rref rs))"
proof -
  let ?url = "name_url zone (d_type r) (UnFqdn (d_fqdn r))"
  have url: "?url \<noteq> []" "CHR ''?'' \<in> set ?url" by (simp_all add: name_url_def recordURL_def versionURL_def)
  have send: "infoblox_SendRequest fuel d ''GET'' ?url None head w = (fst (infoblox_SendRequest fuel d ''GET'' ?url None head w), w')"
    and res: "res = map_sum IbDecode id (fst (infoblox_SendRequest fuel d ''GET'' ?url None head w))"
    using assms(2,6) by (auto simp: infoblox_findRecords_def find_url_def name_url_def wrap_res_def prod_eq_iff)
  have page: "pgNextPageId pg \<in> {None, Some []} \<and> (\<exists>js. pgResult pg = Some js)"
    if "ibSend cl ''GET'' (get_url ?url) None head w = (Inr (Inr pg), w1)" for pg w1
    using find_page [OF assms(3,4,5) that] by blast
  have one: "ok w' \<and> recs w' = recs w
    \<and> (\<forall>found. fst (infoblox_SendRequest fuel d ''GET'' ?url None head w) = Inr found \<longrightarrow>
         (\<exists>pg js. ibSend cl ''GET'' (get_url ?url) None head w = (Inr (Inr pg), w')
            \<and> pgResult pg = Some js \<and> found = map (\<lambda>j. decode_fields j zero_record) js))"
    by (rule get_one_page [OF assms(1,3) url send page])
  have "\<exists>rs. distinct rs \<and> set rs = {x \<in> recs w. rtype x = d_type r \<and> rname x = UnFqdn (d_fqdn r)}
      \<and> map ibRef found = map rref rs" if "res = Inr found" for found
  proof -
    from that res have "fst (infoblox_SendRequest fuel d ''GET'' ?url None head w) = Inr found"
      by (auto simp: map_sum_def split: sum.splits)
    with one obtain pg js where pg: "ibSend cl ''GET'' (get_url ?url) None head w = (Inr (Inr pg), w')"
      "pgResult pg = Some js" "found = map (\<lambda>j. decode_fields j zero_record) js" by blast
    from find_page [OF assms(3,4,5) pg(1)] pg(2) obtain rs where rs: "distinct rs"
      "set rs = {x \<in> recs w. rtype x = d_type r \<and> rname x = UnFqdn (d_fqdn r)}" "map jRef js = map (\<lambda>x. Some (rref x)) rs" by auto
    have "map (\<lambda>j. ibRef (decode_fields j zero_record)) js = map rref rs" using rs(3)
      by (auto simp: list_eq_iff_nth_eq decode_fields_def)
    with rs(1,2) pg(3) show ?thesis by (auto simp: comp_def)
  qed
  with one show ?thesis by blast
qed

lemma delete_call:
  fixes d :: "'w InfobloxProvider" and e :: "'e infoblox_error option"
  assumes "ib_client d = cl" and "ok w" and "x \<in> recs w" and "ib_delete fuel d (rref x) w = (e, w')"
  shows "ok w' \<and> (recs w' = recs w \<or> recs w' = recs w - {x}) \<and> (e = None \<longrightarrow> x \<notin> recs w')"
proof -
  obtain ans w1 where call: "ibSend cl ''DELETE'' (versionURL @ rref x) None head w = (ans, w1)" by fastforce
  have run: "(e, w') = ((case ans of Inl err \<Rightarrow> Some (IbApiCall (SendFailed err)) | Inr _ \<Rightarrow> None), w1)"
    using assms(1,4) call by (auto simp: ib_delete_def infoblox_SendRequest_def versionURL_def split: sum.splits)
  then show ?thesis using delete_frame [OF assms(2,3) call] delete_ok [OF assms(2,3), of _ w1] call
    by (auto split: sum.splits)
qed

text \<open>The single records that a search finds.\<close>

definition ib_found :: "nat \<Rightarrow> 'w InfobloxProvider \<Rightarrow> dns_record \<Rightarrow> 'w \<Rightarrow> ('e infoblox_error + 'r list) \<times> 'w" where
  "ib_found fuel d r w =
     wrap_res id (map (\<lambda>x. inv_into (recs w) rref (ibRef x))) (infoblox_findRecords fuel d r w)"

lemma found_call:
  fixes d :: "'w InfobloxProvider" and res :: "'e infoblox_error + ib_record list"
  assumes "ib_client d = cl" and "ib_zoneName d = zone" and "ok w"
    and "ib_storable valid r \<or> rkey r \<in> (\<lambda>x. (Fqdn (rname x), rtype x)) ` recs w"
    and "infoblox_findRecords fuel d r w = (res, w')"
  shows "ok w' \<and> recs w' = recs w \<and> (\<forall>found. res = Inr found \<longrightarrow>
    (\<exists>rs. map (\<lambda>x. inv_into (recs w) rref (ibRef x)) found = rs \<and> map ibRef found = map rref rs
       \<and> distinct rs \<and> set rs = {x \<in> recs w. (Fqdn (rname x), rtype x) = rkey r}))"
proof -
  have bare: "bare_name (rname x)" if "x \<in> recs w" for x using names [OF assms(3) that] by (simp add: query_name_def)
  have r: "d_type r \<in> {''A'', ''TXT''}" "query_name (UnFqdn (d_fqdn r))"
    using assms(4) names [OF assms(3)] bare bare_name_UnFqdn by (fastforce simp: ib_storable_def rkey_def)+
  have full: "full_name (d_fqdn r) \<or> (\<exists>m. bare_name m \<and> Fqdn m = d_fqdn r)"
    using assms(4) bare by (auto simp: ib_storable_def rkey_def) metis
  have same: "{x \<in> recs w. rtype x = d_type r \<and> rname x = UnFqdn (d_fqdn r)} = {x \<in> recs w. (Fqdn (rname x), rtype x) = rkey r}"
    using bare_matches [OF bare full] by (auto simp: rkey_def)
  note find = find_call [OF assms(1-3) r assms(5), unfolded same]
  have inv: "map (\<lambda>x. inv_into (recs w) rref (ibRef x)) found = rs"
    if "map ibRef found = map rref rs" "set rs \<subseteq> recs w" for found rs
  proof -
    have "map (\<lambda>x. inv_into (recs w) rref (ibRef x)) found = map (inv_into (recs w) rref) (map rref rs)"
      unfolding that(1) [symmetric] by simp
    also have "\<dots> = rs" unfolding map_map using that(2) inv_into_f_f [OF refs [OF assms(3)]] by (intro map_idI) auto
    finally show ?thesis .
  qed
  have "\<exists>rs. map (\<lambda>x. inv_into (recs w) rref (ibRef x)) found = rs \<and> map ibRef found = map rref rs
       \<and> distinct rs \<and> set rs = {x \<in> recs w. (Fqdn (rname x), rtype x) = rkey r}" if "res = Inr found" for found
  proof -
    from find that obtain rs where "distinct rs" "set rs = {x \<in> recs w. (Fqdn (rname x), rtype x) = rkey r}"
      "map ibRef found = map rref rs" by blast
    with inv [of found rs] show ?thesis by simp
  qed
  with find show ?thesis by simp
qed

lemma service:
  fixes d :: "'w InfobloxProvider"
  assumes "ib_client d = cl" and "ib_zoneName d = zone"
  shows "record_service ok recs (\<lambda>r. (Fqdn (rname r), rtype r)) rdata
    (infoblox_GetRecords fuel d :: 'w \<Rightarrow> ('e infoblox_error + dns_record list) \<times> 'w)
    (ib_found fuel d) (ib_create fuel d) (\<lambda>x. ib_delete fuel d (rref x)) (ib_storable valid) (\<lambda>_. True)"
proof (unfold_locales, goal_cases)
  case (1 w res w')
  then show ?case using get_records [OF assms] by blast
next
  case (2 w rs w')
  then show ?case using get_records [OF assms] by blast
next
  case (3 w r ans w')
  then obtain res where "infoblox_SendRequest fuel d ''GET'' (find_url d r) None head w = (res, w')"
    by (auto simp: ib_found_def infoblox_findRecords_def wrap_res_def prod_eq_iff)
  then show ?case using send_frame [OF assms(1) 3(1)] by blast
next
  case (4 w r found w')
  then obtain xs where xs: "(infoblox_findRecords fuel d r w :: ('e infoblox_error + ib_record list) \<times> 'w) = (Inr xs, w')"
    "found = map (\<lambda>x. inv_into (recs w) rref (ibRef x)) xs"
    by (auto simp: ib_found_def wrap_res_def prod_eq_iff map_sum_def split: sum.splits)
  then show ?case using found_call [OF assms 4(1) _ xs(1)] 4(2) by auto
next
  case (5 w r v e w')
  then show ?case using create_call [OF assms(1) 5(1-4)] by blast
next
  case (6 w r v w')
  then show ?case using create_call [OF assms(1) 6(1-4)] by simp
next
  case (7 w x e w')
  then show ?case using delete_call [OF assms(1) 7(1-3)] by blast
next
  case (8 w x w')
  then show ?case using delete_call [OF assms(1) 8(1-3)] by blast
next
  case (9 r)
  then show ?case by (simp add: ib_storable_def)
qed

text \<open>Nothing that is not there is refused as existing, so the loop of \<open>AddRecord\<close> does not stop early.\<close>

lemma nothing_exists:
  fixes d :: "'w InfobloxProvider" and e :: "'e infoblox_error option"
  assumes "ib_client d = cl" and "ok w" and "ib_storable valid r" and "distinct vs" and "set vs \<subseteq> set (d_records r)"
    and "\<forall>x \<in> recs w. (Fqdn (rname x), rtype x) = rkey r \<longrightarrow> rdata x \<notin> set vs"
    and "for_each (ib_create fuel d r) vs w = (e, w')"
  shows "forgive e = e"
  using assms(2,4-7)
proof (induction vs arbitrary: w)
  case Nil
  then show ?case by (simp add: forgive_def)
next
  case (Cons v vs)
  obtain e1 w1 where call: "(ib_create fuel d r v w :: 'e infoblox_error option \<times> 'w) = (e1, w1)" by fastforce
  have v: "v \<in> set (d_records r)" using Cons.prems(3) by simp
  note made = create_call [OF assms(1) Cons.prems(1) assms(3) v call]
  show ?case
  proof (cases e1)
    case None
    with Cons.prems(5) call have "for_each (ib_create fuel d r) vs w1 = (e, w')" by simp
    moreover have "\<forall>x \<in> recs w1. (Fqdn (rname x), rtype x) = rkey r \<longrightarrow> rdata x \<notin> set vs"
      using made Cons.prems(2,4) by auto
    ultimately show ?thesis using Cons.IH [of w1] made Cons.prems(2,3) by simp
  next
    case (Some err)
    with made Cons.prems(4) have "forgive e1 = e1" by (metis list.set_intros(1) option.distinct(1))
    with Cons.prems(5) call Some show ?thesis by simp
  qed
qed

lemma remove_found:
  fixes d :: "'w InfobloxProvider"
  assumes "ib_client d = cl" and "ib_zoneName d = zone" and "ok w"
    and "ib_storable valid r \<or> rkey r \<in> (\<lambda>x. (Fqdn (rname x), rtype x)) ` recs w"
  shows "(infoblox_RemoveRecord fuel d r w :: 'e infoblox_error option \<times> 'w) =
    find_and_delete (ib_found fuel d) (\<lambda>x. ib_delete fuel d (rref x)) r w"
proof -
  obtain res w' where find: "(infoblox_findRecords fuel d r w :: ('e infoblox_error + ib_record list) \<times> 'w) = (res, w')" by fastforce
  note found = found_call [OF assms find]
  show ?thesis
  proof (cases res)
    case (Inl err)
    then show ?thesis using find by (simp add: infoblox_RemoveRecord_def find_and_delete_def ib_found_def wrap_res_def)
  next
    case (Inr xs)
    let ?rec_of = "\<lambda>x. inv_into (recs w) rref (ibRef x)"
    have "ibRef x = rref (?rec_of x)" if "x \<in> set xs" for x
    proof -
      from found Inr have "map ibRef xs = map rref (map ?rec_of xs)" by auto
      with that show ?thesis by (simp add: map_eq_conv comp_def)
    qed
    then have "for_each (\<lambda>x. ib_delete fuel d (ibRef x)) xs w' = for_each (\<lambda>x. ib_delete fuel d (rref x)) (map ?rec_of xs) w'"
      by (intro for_each_map) simp
    then show ?thesis using find Inr
      by (simp add: infoblox_RemoveRecord_def find_and_delete_def ib_found_def wrap_res_def ib_delete_def [abs_def])
  qed
qed

lemma records:
  fixes d :: "'w InfobloxProvider"
  assumes "ib_client d = cl" and "ib_zoneName d = zone"
  shows "remove_add ok (\<lambda>w. store_view (\<lambda>r. (Fqdn (rname r), rtype r)) rdata (recs w))
    (infoblox_GetRecords fuel d :: 'w \<Rightarrow> ('e infoblox_error + dns_record list) \<times> 'w)
    (infoblox_AddRecord fuel d) (infoblox_RemoveRecord fuel d) (ib_storable valid) (\<lambda>_. True)"
proof -
  let ?zone = "\<lambda>w. store_view (\<lambda>r. (Fqdn (rname r), rtype r)) rdata (recs w)"
  note ops = record_service.zone_operations [OF service [OF assms, of fuel, where 'e = 'e]]
  note add = infoblox_AddRecord_def add_loop_for_each
  have there: "ib_storable valid r \<or> rkey r \<in> (\<lambda>x. (Fqdn (rname x), rtype x)) ` recs w"
    if "ib_storable valid r \<or> True \<and> ?zone w (rkey r) \<noteq> None" for r w
    using that by (auto simp: store_view_def split: if_splits)
  show ?thesis
  proof (unfold_locales, goal_cases)
    case (1 w res w')
    then show ?case by (rule remove_add.get_frame [OF ops])
  next
    case (2 w rs w')
    then show ?case by (rule remove_add.get_view [OF ops])
  next
    case (3 w r e w')
    then show ?case using remove_add.add_frame [OF ops 3(1,2)] by (auto simp: add split: prod.splits)
  next
    case (4 w r w')
    then obtain e0 where run: "for_each (ib_create fuel d r) (d_records r) w = (e0, w')" and e0: "forgive e0 = (None :: 'e infoblox_error option)"
      by (auto simp: add split: prod.splits)
    from 4(3) have "rkey r \<notin> (\<lambda>x. (Fqdn (rname x), rtype x)) ` recs w" by (simp add: store_view_def split: if_splits)
    then have none: "\<forall>x \<in> recs w. (Fqdn (rname x), rtype x) = rkey r \<longrightarrow> rdata x \<notin> set (d_records r)"
      unfolding image_iff by force
    have "distinct (d_records r)" using 4(2) by (simp add: ib_storable_def)
    from nothing_exists [OF assms(1) 4(1,2) this subset_refl none run] have "forgive e0 = e0" .
    with remove_add.add_ok [OF ops 4(1-3)] run e0 show ?case by simp
  next
    case (5 w r e w')
    from remove_add.remove_frame [OF ops 5(1,2)] 5(3) remove_found [OF assms 5(1) there [OF 5(2)], of fuel, where 'e = 'e]
    show ?case by simp
  next
    case (6 w r w')
    from remove_add.remove_ok [OF ops 6(1,2)] 6(3) remove_found [OF assms 6(1) there [OF 6(2)], of fuel, where 'e = 'e]
    show ?case by simp
  qed
qed

end

lemmas infoblox_methods = infoblox_provider_def infoblox_UpdateRecord_def call_on_pair

subsection \<open>The simulated service\<close>

definition ib_json_of :: "single_record \<Rightarrow> ib_json" where
  "ib_json_of s =
     \<lparr>jRef = Some (id_text (srId s)), jFqdn = None, jName = Some (srName s), jZone = Some ''ex.com'', jTTL = Some (srTTL s),
      jDisable = Some False, jIPv4addr = (if srType s = ''A'' then Some (srData s) else None),
      jText = (if srType s = ''A'' then None else Some (srData s)), jType = None, jRec = None\<rparr>"

text \<open>A listing answers with the records of its type, a search with those of the type and name.\<close>

definition ib_answers :: "string \<Rightarrow> single_record \<Rightarrow> bool" where
  "ib_answers url s =
     (url = get_url (list_url ''ex.com'' (srType s)) \<or> url = get_url (name_url ''ex.com'' (srType s) (srName s)))"

definition ib_page_of :: "single_record list \<Rightarrow> ib_page" where
  "ib_page_of ss = \<lparr>pgNextPageId = None, pgResult = Some (map ib_json_of ss)\<rparr>"

definition ib_answer :: "string option \<times> store \<Rightarrow> (string + (string + ib_page)) \<times> store" where
  "ib_answer r = (case fst r of Some e \<Rightarrow> Inl e | None \<Rightarrow> Inr (Inr (ib_page_of [])), snd r)"

definition ib_post :: "string \<Rightarrow> ib_body \<Rightarrow> store \<Rightarrow> (string + (string + ib_page)) \<times> store" where
  "ib_post url body w =
     (let t = (if url = recordAURL then ''A'' else ''TXT'');
          v = (case (if url = recordAURL then bdIPv4addr body else bdText body) of None \<Rightarrow> [] | Some v \<Rightarrow> v)
      in if list_ex (\<lambda>s. srName s = bdName body \<and> srType s = t \<and> srData s = v) (ssRecords w)
         then (Inl ''The record already exists.'', w)
         else ib_answer (ss_create (\<lambda>n. n) (bdName body) t v (bdTTL body) w))"

definition ib_simulated :: "store ib_client" where
  "ib_simulated =
     \<lparr>ibSend = (\<lambda>meth url body hdr w.
        if meth = ''GET'' then
          (if ss_faulty w then (Inl ''unavailable'', ss_tick w)
           else (Inr (Inr (ib_page_of (filter (ib_answers url) (ssRecords w)))), ss_tick w))
        else if meth = ''POST'' then
          (case body of None \<Rightarrow> (Inl ''no body'', w) | Some b \<Rightarrow> ib_post url b w)
        else ib_answer (ss_delete (length url - length versionURL) w)),
      ibRecordHostAll = (\<lambda>_ w. (None, w))\<rparr>"

definition ib_ok :: "store \<Rightarrow> bool" where
  "ib_ok w = (ss_ok query_name w \<and> list_all (\<lambda>s. srType s \<in> {''A'', ''TXT''}) (ssRecords w))"

lemma ib_answers_list:
  "t \<in> {''A'', ''TXT''} \<Longrightarrow> srType s \<in> {''A'', ''TXT''} \<Longrightarrow>
     ib_answers (get_url (list_url ''ex.com'' t)) s \<longleftrightarrow> srType s = t"
  by (auto simp: ib_answers_def get_url_def list_url_def name_url_def recordAURL_def recordTxtURL_def recordURL_def versionURL_def
      recordAQuery_def recordTxtQuery_def ToLower_def)

lemma ib_answers_name:
  "t \<in> {''A'', ''TXT''} \<Longrightarrow> srType s \<in> {''A'', ''TXT''} \<Longrightarrow>
     ib_answers (get_url (name_url ''ex.com'' t n)) s \<longleftrightarrow> srType s = t \<and> srName s = n"
  by (auto simp: ib_answers_def get_url_def list_url_def name_url_def recordAURL_def recordTxtURL_def recordURL_def versionURL_def
      recordAQuery_def recordTxtQuery_def ToLower_def)

lemma ib_base: "record_api (ss_ok query_name) (ss_recs (\<lambda>s. s)) srName srType srData
    (ss_list (\<lambda>s. s)) (ss_create (\<lambda>n. n)) (\<lambda>s. ss_delete (srId s)) (\<lambda>n. n) query_name (\<lambda>n _ _. query_name n)"
  by (rule ss_record_api) simp_all

lemma ib_simulated_post:
  "creates t n v url body \<Longrightarrow> ibSend ib_simulated ''POST'' url (Some body) hdr w =
     (if list_ex (\<lambda>s. srName s = n \<and> srType s = t \<and> srData s = v) (ssRecords w)
      then (Inl ''The record already exists.'', w) else ib_answer (ss_create (\<lambda>n. n) n t v (bdTTL body) w)) \<and> t \<in> {''A'', ''TXT''}"
  by (auto simp: creates_def ib_simulated_def ib_post_def recordAURL_def versionURL_def split: if_splits)

lemma ss_create_error: "ss_create g n t v ttl w = (Some e, w') \<Longrightarrow> e = ''unavailable'' \<and> ssRecords w' = ssRecords w"
  by (auto simp: ss_create_def split: if_splits)

interpretation ib_sim: infoblox_api ib_simulated "''ex.com''" ib_ok "ss_recs (\<lambda>s. s)" "\<lambda>s. id_text (srId s)" srName srType srData
  "\<lambda>n _ _. query_name n"
proof (unfold_locales, goal_cases)
  case (1 w r)
  then show ?case by (auto simp: ib_ok_def ss_ok_def ss_recs_def list_all_iff)
next
  case (2 w)
  have "id_text i = id_text j \<longleftrightarrow> i = j" for i j by (metis length_id_text)
  with 2 show ?case by (auto simp: ib_ok_def ss_ok_def ss_recs_def distinct_map inj_on_def)
next
  case (3 w url ans w')
  then show ?case by (auto simp: ib_simulated_def ib_ok_def ss_ok_def ss_recs_def split: if_splits)
next
  case (4 w t pg w')
  let ?rs = "filter (ib_answers (get_url (list_url ''ex.com'' t))) (ssRecords w)"
  have types: "srType s \<in> {''A'', ''TXT''}" if "s \<in> set (ssRecords w)" for s
    using 4(1) that by (auto simp: ib_ok_def list_all_iff)
  then have "set ?rs = {r \<in> ss_recs (\<lambda>s. s) w. srType r = t}"
    using ib_answers_list [OF 4(2)] by (auto simp: ss_recs_def)
  moreover have "list_all2 (\<lambda>r j. listed_as t j (id_text (srId r)) (srName r) (srData r)) ?rs (map ib_json_of ?rs)"
    unfolding list_all2_map2 using types ib_answers_list [OF 4(2)]
    by (intro list.rel_refl_strong) (auto simp: listed_as_def ib_json_of_def)
  moreover have "pg = ib_page_of ?rs" using 4(3) by (auto simp: ib_simulated_def split: if_splits)
  ultimately show ?case unfolding ib_page_of_def by (intro exI [of _ ?rs] exI [of _ "map ib_json_of ?rs"]) simp
next
  case (5 w t n pg w')
  let ?rs = "filter (ib_answers (get_url (name_url ''ex.com'' t n))) (ssRecords w)"
  have types: "srType s \<in> {''A'', ''TXT''}" if "s \<in> set (ssRecords w)" for s
    using 5(1) that by (auto simp: ib_ok_def list_all_iff)
  then have "set ?rs = {r \<in> ss_recs (\<lambda>s. s) w. srType r = t \<and> srName r = n}"
    using ib_answers_name [OF 5(2)] by (auto simp: ss_recs_def)
  moreover have "distinct ?rs" using 5(1) by (auto simp: ib_ok_def ss_ok_def distinct_map)
  moreover have "map jRef (map ib_json_of ?rs) = map (\<lambda>r. Some (id_text (srId r))) ?rs" by (simp add: ib_json_of_def)
  moreover have "pg = ib_page_of ?rs" using 5(4) by (auto simp: ib_simulated_def split: if_splits)
  ultimately show ?case unfolding ib_page_of_def by (intro exI [of _ ?rs] exI [of _ "map ib_json_of ?rs"]) simp
next
  case (6 w t n v url body ans w')
  note post = ib_simulated_post [OF 6(2), of head w]
  show ?case
  proof (cases "list_ex (\<lambda>s. srName s = n \<and> srType s = t \<and> srData s = v) (ssRecords w)")
    case False
    with post 6(5) obtain e where run: "ss_create (\<lambda>n. n) n t v (bdTTL body) w = (e, w')"
      by (auto simp: ib_answer_def prod_eq_iff)
    from record_api.creates_frame [OF ib_base _ _ run] 6(1,3)
    have "ss_ok query_name w' \<and> (ss_recs (\<lambda>s. s) w' = ss_recs (\<lambda>s. s) w
        \<or> (\<exists>r. srName r = n \<and> srType r = t \<and> srData r = v \<and> ss_recs (\<lambda>s. s) w' = insert r (ss_recs (\<lambda>s. s) w)))"
      by (simp add: ib_ok_def)
    moreover from this 6(1) post have "list_all (\<lambda>s. srType s \<in> {''A'', ''TXT''}) (ssRecords w')"
      by (auto simp: ib_ok_def ss_recs_def list_all_iff)
    ultimately show ?thesis by (simp add: ib_ok_def)
  qed (use post 6 in simp)
next
  case (7 w t n v url body ans' w')
  then have run: "ss_create (\<lambda>n. n) n t v (bdTTL body) w = (None, w')"
    using ib_simulated_post [OF 7(2), of head w] by (auto simp: ib_answer_def prod_eq_iff split: if_splits option.splits)
  from record_api.creates_ok [OF ib_base _ _ run] 7(1,3) show ?case by (simp add: ib_ok_def)
next
  case (8 w t n v url body err w')
  have "list_ex (\<lambda>s. srName s = n \<and> srType s = t \<and> srData s = v) (ssRecords w)" (is ?there)
  proof (rule ccontr)
    assume "\<not> ?there"
    then have "ss_create (\<lambda>n. n) n t v (bdTTL body) w = (Some err, w')"
      using 8(5) ib_simulated_post [OF 8(2), of head w] by (auto simp: ib_answer_def prod_eq_iff split: option.splits)
    then have "err = ''unavailable''" by (rule ss_create_error [THEN conjunct1])
    moreover have "Index ''unavailable'' ''already exists'' = None" by code_simp
    ultimately show False using 8(6) by simp
  qed
  then show ?case by (auto simp: list_ex_iff ss_recs_def)
next
  case (9 w r ans w')
  then obtain e where run: "ss_delete (srId r) w = (e, w')" by (auto simp: ib_simulated_def ib_answer_def prod_eq_iff)
  from record_api.deletes_frame [OF ib_base _ 9(2) run] 9(1)
  have "ss_ok query_name w' \<and> (ss_recs (\<lambda>s. s) w' = ss_recs (\<lambda>s. s) w \<or> ss_recs (\<lambda>s. s) w' = ss_recs (\<lambda>s. s) w - {r})"
    by (simp add: ib_ok_def)
  moreover from this 9(1) have "list_all (\<lambda>s. srType s \<in> {''A'', ''TXT''}) (ssRecords w')"
    by (auto simp: ib_ok_def ss_recs_def list_all_iff)
  ultimately show ?case by (simp add: ib_ok_def)
next
  case (10 w r ans' w')
  then have "ss_delete (srId r) w = (None, w')" by (auto simp: ib_simulated_def ib_answer_def prod_eq_iff split: option.splits)
  with record_api.deletes_ok [OF ib_base _ 10(2)] 10(1) show ?case by (simp add: ib_ok_def)
qed

definition ex_infoblox :: "store InfobloxProvider \<times> store" where
  "ex_infoblox = (\<lparr>ib_client = ib_simulated, ib_zoneName = ''ex.com''\<rparr>, ex_store UnFqdn)"

definition ex_infoblox_run ::
    "(string infoblox_error sync_error + metadata_dns_record list) \<times> store InfobloxProvider \<times> store" where
  "ex_infoblox_run =
     UpdateProviderDnsRecords (infoblox_provider (\<lambda>_ _ _ _ _. ib_simulated) (\<lambda>_ _. Inl ''none'') (\<lambda>_. []) 1) ''u1'' ex_cfg
       ex_desired ex_infoblox"

subsection \<open>Properties\<close>



end
