(* ===== verification/OVH.thy ===== *)
theory OVH
  imports Example_Store
begin

text \<open>
  The OVH provider (src/providers/ovh/ovh.go). The API is addressed by paths. A listing asks for the
  identifiers of the records and then for one record after the other; after a change the zone is
  refreshed, and an error of the refresh is ignored. The client's \<open>Get\<close> decodes into the type of
  its argument, so there is one function for each type the provider asks for.
\<close>

record ov_record =
  ovTarget :: string
  ovTTL :: int
  ovZone :: string
  ovFieldType :: string
  ovID :: int
  ovSubDomain :: string

record ov_body =
  obFieldType :: string
  obSubDomain :: string
  obTTL :: int
  obTarget :: string

record ('e, 'w) ov_client =
  ovGetZones :: "string \<Rightarrow> 'w \<Rightarrow> ('e + string list) \<times> 'w"
  ovGetIDs :: "string \<Rightarrow> 'w \<Rightarrow> ('e + int list) \<times> 'w"
  ovGetRecord :: "string \<Rightarrow> 'w \<Rightarrow> ('e + ov_record) \<times> 'w"
  ovGetAny :: "string \<Rightarrow> 'w \<Rightarrow> 'e option \<times> 'w"
  ovPost :: "string \<Rightarrow> ov_body option \<Rightarrow> 'w \<Rightarrow> 'e option \<times> 'w"
  ovDelete :: "string \<Rightarrow> 'w \<Rightarrow> 'e option \<times> 'w"

record ('e, 'w) OVHProvider =
  ov_client :: "('e, 'w) ov_client"
  ov_root :: string

datatype 'e ovh_error =
  OvNotSet string | OvNewClient 'e | OvListZones 'e | OvNoZone string
| OvGet string 'e | OvPost string ov_body 'e | OvDelete string 'e | OvHealth 'e

subsection \<open>Operations\<close>

definition ovh_records_url :: "string \<Rightarrow> string" where
  "ovh_records_url root = concat [''/domain/zone/'', root, ''/record'']"

definition ovh_record_url :: "string \<Rightarrow> int \<Rightarrow> string" where
  "ovh_record_url root recID = concat [''/domain/zone/'', root, ''/record/'', FormatInt recID]"

definition ovh_Init ::
    "(string \<Rightarrow> string \<Rightarrow> string \<Rightarrow> string \<Rightarrow> 'e + ('e, 'w) ov_client) \<Rightarrow> env \<Rightarrow> string \<Rightarrow> ('e, 'w) OVHProvider
       \<Rightarrow> 'w \<Rightarrow> 'e ovh_error option \<times> ('e, 'w) OVHProvider \<times> 'w" where
  "ovh_Init api_NewClient env rootDomainName d w =
     (let endpoint = env ''OVH_ENDPOINT''; applicationKey = env ''OVH_APPLICATION_KEY'';
          applicationSecret = env ''OVH_APPLICATION_SECRET''; consumerKey = env ''OVH_CONSUMER_KEY'' in
      if endpoint = [] then (Some (OvNotSet ''OVH_ENDPOINT''), d, w)
      else if applicationKey = [] then (Some (OvNotSet ''OVH_APPLICATION_KEY''), d, w)
      else if applicationSecret = [] then (Some (OvNotSet ''OVH_APPLICATION_SECRET''), d, w)
      else if consumerKey = [] then (Some (OvNotSet ''OVH_CONSUMER_KEY''), d, w)
      else let d1 = d\<lparr>ov_root := UnFqdn rootDomainName\<rparr> in
        case api_NewClient endpoint applicationKey applicationSecret consumerKey of
          Inl e \<Rightarrow> (Some (OvNewClient e), d1, w)
        | Inr cl \<Rightarrow>
            (let d2 = d1\<lparr>ov_client := cl\<rparr> in
             case ovGetZones cl ''/domain/zone'' w of
               (Inl e, w1) \<Rightarrow> (Some (OvListZones e), d2, w1)
             | (Inr zones, w1) \<Rightarrow>
                 (if ov_root d2 \<in> set zones then None else Some (OvNoZone (ov_root d2)), d2, w1)))"

definition ovh_HealthCheck :: "('e, 'w) OVHProvider \<Rightarrow> 'w \<Rightarrow> 'e ovh_error option \<times> 'w" where
  "ovh_HealthCheck d w = wrap_err OvHealth (ovGetAny (ov_client d) ''/me'' w)"

definition ovh_parseName :: "('e, 'w) OVHProvider \<Rightarrow> dns_record \<Rightarrow> string" where
  "ovh_parseName d r = TrimSuffix (d_fqdn r) (''.'' @ ov_root d @ ''.'')"

text \<open>It never fails.\<close>

definition ovh_prepareRecord ::
    "('e, 'w) OVHProvider \<Rightarrow> string \<Rightarrow> string \<Rightarrow> string \<Rightarrow> int \<Rightarrow> string \<times> ov_body" where
  "ovh_prepareRecord d rec tp fqdn ttl =
     (ovh_records_url (ov_root d),
      \<lparr>obFieldType = tp, obSubDomain = TrimSuffix fqdn (''.'' @ ov_root d @ ''.''), obTTL = ttl, obTarget = rec\<rparr>)"

definition ovh_refreshZone :: "('e, 'w) OVHProvider \<Rightarrow> 'w \<Rightarrow> 'e option \<times> 'w" where
  "ovh_refreshZone d w = ovPost (ov_client d) (concat [''/domain/zone/'', ov_root d, ''/refresh'']) None w"

definition ovh_AddRecord :: "('e, 'w) OVHProvider \<Rightarrow> dns_record \<Rightarrow> 'w \<Rightarrow> 'e ovh_error option \<times> 'w" where
  "ovh_AddRecord d r =
     then_do
       (for_each (\<lambda>rec w.
          case ovh_prepareRecord d rec (d_type r) (d_fqdn r) (d_ttl r) of
            (url, body) \<Rightarrow> wrap_err (OvPost url body) (ovPost (ov_client d) url (Some body) w)) (d_records r))
       (\<lambda>w. snd (ovh_refreshZone d w))"

text \<open>The loop over the identifiers, which stops at the first error; \<open>keep\<close> are the records it
  collects.\<close>

fun ovh_fetch ::
    "('e, 'w) OVHProvider \<Rightarrow> (ov_record \<Rightarrow> bool) \<Rightarrow> int list \<Rightarrow> ov_record list \<Rightarrow> 'w
       \<Rightarrow> ('e ovh_error + ov_record list) \<times> 'w" where
  "ovh_fetch d keep [] acc w = (Inr acc, w)"
| "ovh_fetch d keep (recID # recIDs) acc w =
     (case ovGetRecord (ov_client d) (ovh_record_url (ov_root d) recID) w of
        (Inl e, w') \<Rightarrow> (Inl (OvGet (ovh_record_url (ov_root d) recID) e), w')
      | (Inr rec, w') \<Rightarrow> ovh_fetch d keep recIDs (if keep rec then acc @ [rec] else acc) w')"

definition ovh_list ::
    "('e, 'w) OVHProvider \<Rightarrow> (ov_record \<Rightarrow> bool) \<Rightarrow> 'w \<Rightarrow> ('e ovh_error + ov_record list) \<times> 'w" where
  "ovh_list d keep w =
     (case ovGetIDs (ov_client d) (ovh_records_url (ov_root d)) w of
        (Inl e, w') \<Rightarrow> (Inl (OvGet (ovh_records_url (ov_root d)) e), w')
      | (Inr recIDs, w') \<Rightarrow> ovh_fetch d keep recIDs [] w')"

definition ovh_FindRecords ::
    "('e, 'w) OVHProvider \<Rightarrow> dns_record \<Rightarrow> 'w \<Rightarrow> ('e ovh_error + ov_record list) \<times> 'w" where
  "ovh_FindRecords d r = ovh_list d (\<lambda>rec. ovSubDomain rec = ovh_parseName d r \<and> ovFieldType rec = d_type r)"

definition ovh_RemoveRecord :: "('e, 'w) OVHProvider \<Rightarrow> dns_record \<Rightarrow> 'w \<Rightarrow> 'e ovh_error option \<times> 'w" where
  "ovh_RemoveRecord d r =
     then_do
       (find_and_delete (ovh_FindRecords d) (\<lambda>rec w.
          wrap_err (OvDelete (ovh_record_url (ov_root d) (ovID rec)))
            (ovDelete (ov_client d) (ovh_record_url (ov_root d) (ovID rec)) w)) r)
       (\<lambda>w. snd (ovh_refreshZone d w))"

definition ovh_UpdateRecord :: "('e, 'w) OVHProvider \<Rightarrow> dns_record \<Rightarrow> 'w \<Rightarrow> 'e ovh_error option \<times> 'w" where
  "ovh_UpdateRecord d = remove_then_add (ovh_RemoveRecord d) (ovh_AddRecord d)"

definition ovh_GetRecords :: "('e, 'w) OVHProvider \<Rightarrow> 'w \<Rightarrow> ('e ovh_error + dns_record list) \<times> 'w" where
  "ovh_GetRecords d w =
     wrap_res (\<lambda>e. e)
       (\<lambda>records. group_records (map (\<lambda>rec.
          (if ovSubDomain rec = [] then ovZone rec @ ''.'' else ovSubDomain rec @ ''.'' @ ovZone rec @ ''.'',
           ovFieldType rec, ovTarget rec, ovTTL rec)) records))
       (ovh_list d (\<lambda>_. True) w)"

definition ovh_provider ::
    "(string \<Rightarrow> string \<Rightarrow> string \<Rightarrow> string \<Rightarrow> 'e + ('e, 'w) ov_client) \<Rightarrow> env
       \<Rightarrow> ('e ovh_error, ('e, 'w) OVHProvider \<times> 'w) provider" where
  "ovh_provider api_NewClient env =
     \<lparr>pInit = (\<lambda>root. init_on (ovh_Init api_NewClient env root)), pGetName = ''OVH'',
      pHealthCheck = call_on ovh_HealthCheck,
      pAddRecord = (\<lambda>r. call_on (\<lambda>d. ovh_AddRecord d r)),
      pRemoveRecord = (\<lambda>r. call_on (\<lambda>d. ovh_RemoveRecord d r)),
      pUpdateRecord = (\<lambda>r. call_on (\<lambda>d. ovh_UpdateRecord d r)),
      pGetRecords = call_on ovh_GetRecords\<rparr>"

definition ovh_zone :: "string \<Rightarrow> ('w \<Rightarrow> ov_record set) \<Rightarrow> 'w \<Rightarrow> (string \<times> string) \<rightharpoonup> string set" where
  "ovh_zone root recs w = store_view (\<lambda>r. (absolute_name root (ovSubDomain r), ovFieldType r)) ovTarget (recs w)"

subsection \<open>What the service documents\<close>

locale ovh_api =
  fixes d :: "('e, 'w) OVHProvider"
    and ok :: "'w \<Rightarrow> bool"
    and recs :: "'w \<Rightarrow> ov_record set"
    and valid :: "string \<Rightarrow> string \<Rightarrow> string \<Rightarrow> bool"
  assumes ident: "ok w \<Longrightarrow> inj_on ovID (recs w)"
    and zones: "ok w \<Longrightarrow> r \<in> recs w \<Longrightarrow> ovZone r = ov_root d"
    and ids_frame: "ok w \<Longrightarrow> ovGetIDs (ov_client d) (ovh_records_url (ov_root d)) w = (res, w') \<Longrightarrow>
          ok w' \<and> recs w' = recs w"
    and ids_all: "ok w \<Longrightarrow> ovGetIDs (ov_client d) (ovh_records_url (ov_root d)) w = (Inr ids, w') \<Longrightarrow>
          distinct ids \<and> set ids = ovID ` recs w"
    and read_frame: "ok w \<Longrightarrow> ovGetRecord (ov_client d) (ovh_record_url (ov_root d) i) w = (ans, w') \<Longrightarrow>
          ok w' \<and> recs w' = recs w"
    and read_ok: "ok w \<Longrightarrow> r \<in> recs w \<Longrightarrow>
          ovGetRecord (ov_client d) (ovh_record_url (ov_root d) (ovID r)) w = (Inr x, w') \<Longrightarrow> x = r"
    and post_frame: "ok w \<Longrightarrow> valid n t v \<Longrightarrow> ovPost (ov_client d) (ovh_records_url (ov_root d))
            (Some \<lparr>obFieldType = t, obSubDomain = n, obTTL = ttl, obTarget = v\<rparr>) w = (e, w') \<Longrightarrow>
          ok w' \<and> (recs w' = recs w \<or> (\<exists>r. ovSubDomain r = n \<and> ovFieldType r = t \<and> ovTarget r = v
            \<and> recs w' = insert r (recs w)))"
    and post_ok: "ok w \<Longrightarrow> valid n t v \<Longrightarrow> ovPost (ov_client d) (ovh_records_url (ov_root d))
            (Some \<lparr>obFieldType = t, obSubDomain = n, obTTL = ttl, obTarget = v\<rparr>) w = (None, w') \<Longrightarrow>
          \<exists>r \<in> recs w'. ovSubDomain r = n \<and> ovFieldType r = t \<and> ovTarget r = v"
    and refresh_frame: "ok w \<Longrightarrow> ovPost (ov_client d) (concat [''/domain/zone/'', ov_root d, ''/refresh'']) None w = (e, w') \<Longrightarrow>
          ok w' \<and> recs w' = recs w"
    and delete_frame: "ok w \<Longrightarrow> r \<in> recs w \<Longrightarrow>
          ovDelete (ov_client d) (ovh_record_url (ov_root d) (ovID r)) w = (e, w') \<Longrightarrow>
          ok w' \<and> (recs w' = recs w \<or> recs w' = recs w - {r})"
    and delete_ok: "ok w \<Longrightarrow> r \<in> recs w \<Longrightarrow>
          ovDelete (ov_client d) (ovh_record_url (ov_root d) (ovID r)) w = (None, w') \<Longrightarrow> r \<notin> recs w'"
begin

lemma fetch_frame: "ok w \<Longrightarrow> ovh_fetch d keep ids acc w = (res, w') \<Longrightarrow> ok w' \<and> recs w' = recs w"
proof (induction ids arbitrary: acc w)
  case (Cons i ids)
  obtain ans w1 where "ovGetRecord (ov_client d) (ovh_record_url (ov_root d) i) w = (ans, w1)" by fastforce
  with Cons read_frame [OF Cons.prems(1) this] show ?case by (cases ans) auto
qed simp

lemma fetch_all:
  assumes "ok w" and "set rs \<subseteq> recs w" and "ovh_fetch d (\<lambda>_. True) (map ovID rs) acc w = (Inr found, w')"
  shows "found = acc @ rs"
  using assms
proof (induction rs arbitrary: acc w)
  case (Cons r rs)
  obtain ans w1 where get: "ovGetRecord (ov_client d) (ovh_record_url (ov_root d) (ovID r)) w = (ans, w1)" by fastforce
  with Cons.prems(3) obtain x where ans: "ans = Inr x" by (cases ans) auto
  have "x = r" using read_ok [OF Cons.prems(1)] get ans Cons.prems(2) by simp
  with get ans Cons.prems(3) have "ovh_fetch d (\<lambda>_. True) (map ovID rs) (acc @ [r]) w1 = (Inr found, w')" by simp
  with Cons.IH [OF _ _ this] read_frame [OF Cons.prems(1) get] Cons.prems(2) show ?case by simp
qed simp

lemma list_frame: "ok w \<Longrightarrow> ovh_list d keep w = (res, w') \<Longrightarrow> ok w' \<and> recs w' = recs w"
proof -
  assume w: "ok w" and run: "ovh_list d keep w = (res, w')"
  obtain ans w1 where ids: "ovGetIDs (ov_client d) (ovh_records_url (ov_root d)) w = (ans, w1)" by fastforce
  with run ids_frame [OF w ids] fetch_frame show ?thesis by (cases ans) (auto simp: ovh_list_def)
qed

lemma list_all:
  assumes "ok w" and "ovh_list d (\<lambda>_. True) w = (Inr found, w')"
  shows "distinct found \<and> set found = recs w"
proof -
  obtain ans w1 where get: "ovGetIDs (ov_client d) (ovh_records_url (ov_root d)) w = (ans, w1)" by fastforce
  with assms(2) obtain ids where ans: "ans = Inr ids" by (cases ans) (auto simp: ovh_list_def)
  note frame = ids_frame [OF assms(1) get] and all = ids_all [OF assms(1) get [unfolded ans]]
  let ?rs = "map (the_inv_into (recs w) ovID) ids"
  have inj: "inj_on ovID (recs w)" by (rule ident [OF assms(1)])
  have same: "map ovID ?rs = ids" using all by (auto simp: f_the_inv_into_f [OF inj] intro!: map_idI)
  have "set ?rs = recs w" using all inj by (auto simp: the_inv_into_f_f)
  moreover have "distinct ?rs" using same all by (metis distinct_map)
  moreover have "found = ?rs"
    using fetch_all [of w1 ?rs "[]" found w'] frame \<open>set ?rs = recs w\<close> assms(2) get ans same
    by (simp add: ovh_list_def)
  ultimately show ?thesis by simp
qed

lemma fetch_keep:
  "ovh_fetch d keep ids (filter keep acc) w = wrap_res (\<lambda>e. e) (filter keep) (ovh_fetch d (\<lambda>_. True) ids acc w)"
proof (induction ids arbitrary: acc w)
  case (Cons i ids)
  have "ovh_fetch d keep ids (if keep x then filter keep acc @ [x] else filter keep acc) w'
      = wrap_res (\<lambda>e. e) (filter keep) (ovh_fetch d (\<lambda>_. True) ids (acc @ [x]) w')" for x w'
    using Cons [of "acc @ [x]" w'] by (cases "keep x") simp_all
  then show ?case by (auto simp: wrap_res_def [of _ _ "(_, _)"] split: prod.splits sum.splits)
qed (simp add: wrap_res_def)

lemma list_keep: "ovh_list d keep w = wrap_res (\<lambda>e. e) (filter keep) (ovh_list d (\<lambda>_. True) w)"
  using fetch_keep [of keep _ "[]"] by (auto simp: ovh_list_def wrap_res_def split: prod.splits sum.splits)

lemma single_record_api:
  "record_api ok recs ovSubDomain ovFieldType ovTarget (ovh_list d (\<lambda>_. True))
     (\<lambda>n t v ttl w. wrap_err (OvPost (ovh_records_url (ov_root d))
          \<lparr>obFieldType = t, obSubDomain = n, obTTL = ttl, obTarget = v\<rparr>)
        (ovPost (ov_client d) (ovh_records_url (ov_root d))
          (Some \<lparr>obFieldType = t, obSubDomain = n, obTTL = ttl, obTarget = v\<rparr>) w))
     (\<lambda>r w. wrap_err (OvDelete (ovh_record_url (ov_root d) (ovID r)))
        (ovDelete (ov_client d) (ovh_record_url (ov_root d) (ovID r)) w))
     (\<lambda>n. n) (\<lambda>_. True) valid"
proof (unfold_locales, goal_cases)
  case (2 w res w')
  then show ?case by (rule list_frame)
next
  case (3 w rs w')
  then show ?case by (rule list_all)
next
  case (4 w n t v ttl e w')
  then show ?case using post_frame [OF 4(1,2), of ttl _ w'] by (auto simp: wrap_err_def prod_eq_iff)
next
  case (5 w n t v ttl w')
  then show ?case using post_ok [OF 5(1,2), of ttl w'] by (auto simp: wrap_err_def prod_eq_iff)
next
  case (6 w r e w')
  then show ?case using delete_frame [OF 6(1,2), of _ w'] by (auto simp: wrap_err_def prod_eq_iff)
next
  case (7 w r w')
  then show ?case using delete_ok [OF 7(1,2), of w'] by (auto simp: wrap_err_def prod_eq_iff)
qed simp

lemma refresh: "ok w \<Longrightarrow> ok (snd (ovh_refreshZone d w)) \<and> recs (snd (ovh_refreshZone d w)) = recs w"
  using refresh_frame [of w "fst (ovh_refreshZone d w)" "snd (ovh_refreshZone d w)"] by (simp add: ovh_refreshZone_def)

lemma records:
  "remove_add ok (ovh_zone (ov_root d) recs) (ovh_GetRecords d) (ovh_AddRecord d) (ovh_RemoveRecord d) (relative_storable (ov_root d) valid) (not_root (ov_root d))"
proof -
  let ?reads = "\<lambda>rec. (if ovSubDomain rec = [] then ovZone rec @ ''.'' else ovSubDomain rec @ ''.'' @ ovZone rec @ ''.'',
    ovFieldType rec, ovTarget rec, ovTTL rec)"
  have "record_service ok recs (\<lambda>r. (absolute_name (ov_root d) (ovSubDomain r), ovFieldType r)) ovTarget
    (\<lambda>w. wrap_res (\<lambda>e. e) (\<lambda>rs. emit_records (get_ttl (group_ttls (map ?reads rs))) (group_map (map ?reads rs)))
       (ovh_list d (\<lambda>_. True) w))
    (\<lambda>r w. wrap_res (\<lambda>e. e) (filter (\<lambda>x. ovSubDomain x = relative_name (ov_root d) (d_fqdn r) \<and> ovFieldType x = d_type r))
       (ovh_list d (\<lambda>_. True) w))
    (\<lambda>r v w. wrap_err (\<lambda>e. e) (wrap_err (OvPost (ovh_records_url (ov_root d))
          \<lparr>obFieldType = d_type r, obSubDomain = relative_name (ov_root d) (d_fqdn r), obTTL = d_ttl r, obTarget = v\<rparr>)
        (ovPost (ov_client d) (ovh_records_url (ov_root d))
          (Some \<lparr>obFieldType = d_type r, obSubDomain = relative_name (ov_root d) (d_fqdn r), obTTL = d_ttl r, obTarget = v\<rparr>) w)))
    (\<lambda>r w. wrap_err (\<lambda>e. e) (wrap_err (OvDelete (ovh_record_url (ov_root d) (ovID r)))
        (ovDelete (ov_client d) (ovh_record_url (ov_root d) (ovID r)) w)))
    (relative_storable (ov_root d) valid) (not_root (ov_root d))"
    by (rule record_api.single_records [OF single_record_api])
      (auto simp: relative_storable_def list_all_iff absolute_relative not_root_def rkey_def zones
        absolute_name_def [of _ "ovSubDomain _"] intro!: relative_matches)
  from remove_add.then_do_operations [OF record_service.zone_operations [OF this], of "\<lambda>w. snd (ovh_refreshZone d w)"] refresh
  show ?thesis
    by (simp add: ovh_zone_def [abs_def] ovh_GetRecords_def [abs_def] ovh_AddRecord_def [abs_def] ovh_prepareRecord_def relative_name_def
        ovh_RemoveRecord_def [abs_def] ovh_FindRecords_def [abs_def] ovh_parseName_def list_keep [symmetric]
        group_records_def)
qed

end

lemmas ovh_methods = ovh_provider_def ovh_UpdateRecord_def call_on_pair

subsection \<open>The simulated service\<close>

definition ov_form :: "single_record \<Rightarrow> ov_record" where
  "ov_form s = \<lparr>ovTarget = srData s, ovTTL = srTTL s, ovZone = ''ex.com'', ovFieldType = srType s,
     ovID = int (srId s), ovSubDomain = srName s\<rparr>"

definition ov_at :: "string \<Rightarrow> store \<Rightarrow> single_record option" where
  "ov_at url w = find (\<lambda>s. ovh_record_url ''ex.com'' (int (srId s)) = url) (ssRecords w)"

definition ov_simulated :: "(string, store) ov_client" where
  "ov_simulated =
     \<lparr>ovGetZones = (\<lambda>_ w. (Inr [''ex.com''], w)),
      ovGetIDs = (\<lambda>_ w. wrap_res (\<lambda>e. e) (map ovID) (ss_list ov_form w)),
      ovGetRecord = (\<lambda>url w.
        if ss_faulty w then (Inl ''unavailable'', ss_tick w)
        else (case ov_at url w of None \<Rightarrow> Inl ''not found'' | Some s \<Rightarrow> Inr (ov_form s), ss_tick w)),
      ovGetAny = (\<lambda>_ w. (None, w)),
      ovPost = (\<lambda>_ body w. case body of
          None \<Rightarrow> (None, w)
        | Some b \<Rightarrow> ss_create (\<lambda>n. n) (obSubDomain b) (obFieldType b) (obTarget b) (obTTL b) w),
      ovDelete = (\<lambda>url w. case ov_at url w of None \<Rightarrow> (Some ''not found'', w) | Some s \<Rightarrow> ss_delete (srId s) w)\<rparr>"

definition ex_ovh :: "(string, store) OVHProvider \<times> store" where
  "ex_ovh = (\<lparr>ov_client = ov_simulated, ov_root = ''ex.com''\<rparr>, ex_store (relative_name ''ex.com''))"

lemma ov_form_ID [simp]: "ovID (ov_form s) = int (srId s)"
  by (simp add: ov_form_def)

lemma ov_base: "record_api (ss_ok (\<lambda>_. True)) (ss_recs ov_form) ovSubDomain ovFieldType ovTarget
    (ss_list ov_form) (ss_create (\<lambda>n. n)) (\<lambda>r. ss_delete (nat (ovID r))) (\<lambda>n. n) (\<lambda>_. True) (\<lambda>_ _ _. True)"
  by (rule ss_record_api) (simp_all add: ov_form_def)

lemma ov_at_record:
  assumes "ss_ok (\<lambda>_. True) w" and "r \<in> ss_recs ov_form w"
  shows "\<exists>s. ov_at (ovh_record_url ''ex.com'' (ovID r)) w = Some s \<and> r = ov_form s"
proof -
  from assms(2) obtain s where s: "s \<in> set (ssRecords w)" "r = ov_form s" by (auto simp: ss_recs_def)
  have "find (\<lambda>x. ovh_record_url ''ex.com'' (int (srId x)) = ovh_record_url ''ex.com'' (int (srId s))) S = Some s"
    if "distinct (map srId S)" "s \<in> set S" for S
    using that by (induction S) (auto simp: ovh_record_url_def FormatInt_inject)
  with assms(1) s show ?thesis by (auto simp: ov_at_def ss_ok_def ov_form_def)
qed

interpretation ov_sim: ovh_api "fst ex_ovh" "ss_ok (\<lambda>_. True)" "ss_recs ov_form" "\<lambda>_ _ _. True"
proof (unfold_locales, goal_cases)
  case (1 w)
  then show ?case by (auto simp: ss_ok_def ss_recs_def ov_form_def inj_on_def distinct_map)
next
  case (2 w r)
  then show ?case by (auto simp: ss_recs_def ov_form_def ex_ovh_def)
next
  case (3 w res w')
  then show ?case using record_api.lists_frame [OF ov_base 3(1)]
    by (auto simp: ex_ovh_def ov_simulated_def wrap_res_def prod_eq_iff)
next
  case (4 w ids w')
  then show ?case
    by (auto simp: ex_ovh_def ov_simulated_def wrap_res_def ss_list_def ss_ok_def ss_recs_def
        distinct_map comp_def inj_on_def image_image split: if_splits)
next
  case (5 w i ans w')
  then show ?case by (auto simp: ex_ovh_def ov_simulated_def ss_ok_def ss_recs_def split: if_splits)
next
  case (6 w r x w')
  then show ?case using ov_at_record [OF 6(1,2)]
    by (auto simp: ex_ovh_def ov_simulated_def split: if_splits)
next
  case (7 w n t v ttl e w')
  then show ?case using record_api.creates_frame [OF ov_base 7(1), of n t v ttl e w']
    by (simp add: ex_ovh_def ov_simulated_def)
next
  case (8 w n t v ttl w')
  then show ?case using record_api.creates_ok [OF ov_base 8(1), of n t v ttl w']
    by (simp add: ex_ovh_def ov_simulated_def)
next
  case (9 w e w')
  then show ?case by (simp add: ex_ovh_def ov_simulated_def)
next
  case (10 w r e w')
  then show ?case using ov_at_record [OF 10(1,2)] record_api.deletes_frame [OF ov_base 10(1,2), of e w']
    by (auto simp: ex_ovh_def ov_simulated_def)
next
  case (11 w r w')
  then show ?case using ov_at_record [OF 11(1,2)] record_api.deletes_ok [OF ov_base 11(1,2), of w']
    by (auto simp: ex_ovh_def ov_simulated_def)
qed

definition ex_ovh_run ::
    "(string ovh_error sync_error + metadata_dns_record list) \<times> (string, store) OVHProvider \<times> store" where
  "ex_ovh_run =
     UpdateProviderDnsRecords (ovh_provider (\<lambda>_ _ _ _. Inr ov_simulated) (\<lambda>_. [])) ''u1'' ex_cfg ex_desired ex_ovh"

subsection \<open>Properties\<close>



end
