(* ===== verification/PointHQ.thy ===== *)
theory PointHQ
  imports Example_Store
begin

text \<open>
  The PointHQ provider (src/providers/pointhq/pointhq.go). The service takes names relative to the
  zone and hands out full names, so \<open>AddRecord\<close> uses \<open>parseName\<close> and \<open>FindRecords\<close> compares full
  names.
\<close>

record pd_record =
  pdId :: int
  pdName :: string
  pdData :: string
  pdTtl :: int
  pdZoneId :: int
  pdRecordType :: string

record pd_zone =
  pzId :: int
  pzName :: string

record ('e, 'w) pd_client =
  pdZones :: "'w \<Rightarrow> ('e + pd_zone list) \<times> 'w"
  pdRecords :: "pd_zone \<Rightarrow> 'w \<Rightarrow> ('e + pd_record list) \<times> 'w"
  pdCreateRecord :: "pd_record \<Rightarrow> 'w \<Rightarrow> 'e option \<times> 'w"
  pdDelete :: "pd_record \<Rightarrow> 'w \<Rightarrow> 'e option \<times> 'w"

record ('e, 'w) PointHQProvider =
  pd_client :: "('e, 'w) pd_client"
  pd_root :: string
  pd_zone :: pd_zone

datatype 'e pointhq_error = PdNoEmail | PdNoToken | PdListZones 'e | PdNoZone string | PdApiCall 'e | PdHealth 'e

subsection \<open>Operations\<close>

definition pointhq_Init ::
    "(string \<Rightarrow> string \<Rightarrow> ('e, 'w) pd_client) \<Rightarrow> env \<Rightarrow> string \<Rightarrow> ('e, 'w) PointHQProvider \<Rightarrow> 'w
       \<Rightarrow> 'e pointhq_error option \<times> ('e, 'w) PointHQProvider \<times> 'w" where
  "pointhq_Init newClient env rootDomainName d w =
     (let email = env ''POINTHQ_EMAIL''; apiToken = env ''POINTHQ_TOKEN'' in
      if email = [] then (Some PdNoEmail, d, w)
      else if apiToken = [] then (Some PdNoToken, d, w)
      else let d1 = d\<lparr>pd_root := UnFqdn rootDomainName, pd_client := newClient email apiToken\<rparr> in
        case pdZones (pd_client d1) w of
          (Inl e, w1) \<Rightarrow> (Some (PdListZones e), d1, w1)
        | (Inr zones, w1) \<Rightarrow>
            (case find (\<lambda>zone. pzName zone = pd_root d1) zones of
               Some zone \<Rightarrow> (None, d1\<lparr>pd_zone := zone\<rparr>, w1)
             | None \<Rightarrow> (Some (PdNoZone (pd_root d1)), d1, w1)))"

definition pointhq_HealthCheck :: "('e, 'w) PointHQProvider \<Rightarrow> 'w \<Rightarrow> 'e pointhq_error option \<times> 'w" where
  "pointhq_HealthCheck d w =
     (case pdZones (pd_client d) w of (Inl e, w') \<Rightarrow> (Some (PdHealth e), w') | (Inr _, w') \<Rightarrow> (None, w'))"

definition pointhq_parseName :: "('e, 'w) PointHQProvider \<Rightarrow> dns_record \<Rightarrow> string" where
  "pointhq_parseName d r = TrimSuffix (d_fqdn r) (''.'' @ pd_root d @ ''.'')"

definition pointhq_AddRecord ::
    "('e, 'w) PointHQProvider \<Rightarrow> dns_record \<Rightarrow> 'w \<Rightarrow> 'e pointhq_error option \<times> 'w" where
  "pointhq_AddRecord d r =
     for_each (\<lambda>rec w. wrap_err PdApiCall
       (pdCreateRecord (pd_client d)
          \<lparr>pdId = 0, pdName = pointhq_parseName d r, pdData = rec, pdTtl = d_ttl r, pdZoneId = pzId (pd_zone d),
           pdRecordType = d_type r\<rparr> w)) (d_records r)"

definition pointhq_FindRecords ::
    "('e, 'w) PointHQProvider \<Rightarrow> dns_record \<Rightarrow> 'w \<Rightarrow> ('e pointhq_error + pd_record list) \<times> 'w" where
  "pointhq_FindRecords d r w =
     wrap_res PdApiCall (filter (\<lambda>rec. pdName rec = d_fqdn r \<and> pdRecordType rec = d_type r))
       (pdRecords (pd_client d) (pd_zone d) w)"

definition pointhq_RemoveRecord ::
    "('e, 'w) PointHQProvider \<Rightarrow> dns_record \<Rightarrow> 'w \<Rightarrow> 'e pointhq_error option \<times> 'w" where
  "pointhq_RemoveRecord d =
     find_and_delete (pointhq_FindRecords d) (\<lambda>rec w. wrap_err PdApiCall (pdDelete (pd_client d) rec w))"

definition pointhq_UpdateRecord ::
    "('e, 'w) PointHQProvider \<Rightarrow> dns_record \<Rightarrow> 'w \<Rightarrow> 'e pointhq_error option \<times> 'w" where
  "pointhq_UpdateRecord d = remove_then_add (pointhq_RemoveRecord d) (pointhq_AddRecord d)"

definition pointhq_GetRecords ::
    "('e, 'w) PointHQProvider \<Rightarrow> 'w \<Rightarrow> ('e pointhq_error + dns_record list) \<times> 'w" where
  "pointhq_GetRecords d w =
     wrap_res PdApiCall
       (\<lambda>recordResp. group_records (map (\<lambda>rec.
          (if pdName rec = [] then pd_root d @ ''.'' else pdName rec,
           pdRecordType rec, pdData rec, pdTtl rec)) recordResp))
       (pdRecords (pd_client d) (pd_zone d) w)"

definition pointhq_provider ::
    "(string \<Rightarrow> string \<Rightarrow> ('e, 'w) pd_client) \<Rightarrow> env
       \<Rightarrow> ('e pointhq_error, ('e, 'w) PointHQProvider \<times> 'w) provider" where
  "pointhq_provider newClient env =
     \<lparr>pInit = (\<lambda>root. init_on (pointhq_Init newClient env root)), pGetName = ''PointHQ'',
      pHealthCheck = call_on pointhq_HealthCheck,
      pAddRecord = (\<lambda>r. call_on (\<lambda>d. pointhq_AddRecord d r)),
      pRemoveRecord = (\<lambda>r. call_on (\<lambda>d. pointhq_RemoveRecord d r)),
      pUpdateRecord = (\<lambda>r. call_on (\<lambda>d. pointhq_UpdateRecord d r)),
      pGetRecords = call_on pointhq_GetRecords\<rparr>"

subsection \<open>The contract\<close>

abbreviation pointhq_service ::
    "('e, 'w) pd_client \<Rightarrow> pd_zone \<Rightarrow> string \<Rightarrow> ('w \<Rightarrow> bool) \<Rightarrow> ('w \<Rightarrow> pd_record set)
       \<Rightarrow> (string \<Rightarrow> string \<Rightarrow> string \<Rightarrow> bool) \<Rightarrow> bool" where
  "pointhq_service client zone root ok recs valid \<equiv>
     record_api ok recs pdName pdRecordType pdData (pdRecords client zone)
       (\<lambda>n t v ttl. pdCreateRecord client
          \<lparr>pdId = 0, pdName = n, pdData = v, pdTtl = ttl, pdZoneId = pzId zone, pdRecordType = t\<rparr>)
       (pdDelete client) (absolute_name root) (\<lambda>_. True) valid"

definition pointhq_fqdn :: "string \<Rightarrow> string \<Rightarrow> string" where
  "pointhq_fqdn root n = (if n = [] then root @ ''.'' else n)"

definition pointhq_zone ::
    "string \<Rightarrow> ('w \<Rightarrow> pd_record set) \<Rightarrow> 'w \<Rightarrow> (string \<times> string) \<rightharpoonup> string set" where
  "pointhq_zone root recs w = store_view (\<lambda>r. (pointhq_fqdn root (pdName r), pdRecordType r)) pdData (recs w)"

lemma pointhq_records:
  assumes "pointhq_service (pd_client d) (pd_zone d) (pd_root d) ok recs valid"
  shows "remove_add ok (pointhq_zone (pd_root d) recs) (pointhq_GetRecords d) (pointhq_AddRecord d)
    (pointhq_RemoveRecord d) (relative_storable (pd_root d) valid) (not_root (pd_root d))"
proof -
  let ?reads = "\<lambda>rec. (pointhq_fqdn (pd_root d) (pdName rec), pdRecordType rec, pdData rec, pdTtl rec)"
  have "record_service ok recs (\<lambda>r. (pointhq_fqdn (pd_root d) (pdName r), pdRecordType r)) pdData
    (\<lambda>w. wrap_res PdApiCall (\<lambda>rs. emit_records (get_ttl (group_ttls (map ?reads rs))) (group_map (map ?reads rs)))
       (pdRecords (pd_client d) (pd_zone d) w))
    (\<lambda>r w. wrap_res PdApiCall (filter (\<lambda>x. pdName x = d_fqdn r \<and> pdRecordType x = d_type r))
       (pdRecords (pd_client d) (pd_zone d) w))
    (\<lambda>r v w. wrap_err PdApiCall (pdCreateRecord (pd_client d) \<lparr>pdId = 0, pdName = relative_name (pd_root d) (d_fqdn r),
       pdData = v, pdTtl = d_ttl r, pdZoneId = pzId (pd_zone d), pdRecordType = d_type r\<rparr> w))
    (\<lambda>r w. wrap_err PdApiCall (pdDelete (pd_client d) r w))
    (relative_storable (pd_root d) valid) (not_root (pd_root d))"
    by (rule record_api.single_records [OF assms])
      (auto simp: relative_storable_def list_all_iff absolute_relative not_root_def rkey_def pointhq_fqdn_def
        dest: below_rootD split: if_splits)
  from record_service.zone_operations [OF this] show ?thesis
    by (simp add: pointhq_zone_def [abs_def] pointhq_GetRecords_def [abs_def] pointhq_AddRecord_def [abs_def]
        pointhq_RemoveRecord_def [abs_def] pointhq_FindRecords_def [abs_def] pointhq_parseName_def
        group_records_def relative_name_def pointhq_fqdn_def)
qed

lemmas pointhq_methods = pointhq_provider_def pointhq_UpdateRecord_def call_on_pair

subsection \<open>The simulated service\<close>

definition pd_form :: "single_record \<Rightarrow> pd_record" where
  "pd_form s = \<lparr>pdId = int (srId s), pdName = srName s, pdData = srData s, pdTtl = srTTL s, pdZoneId = 1,
     pdRecordType = srType s\<rparr>"

definition pd_simulated :: "(string, store) pd_client" where
  "pd_simulated =
     \<lparr>pdZones = (\<lambda>w. (Inr [\<lparr>pzId = 1, pzName = ''ex.com''\<rparr>], w)), pdRecords = (\<lambda>_. ss_list pd_form),
      pdCreateRecord = (\<lambda>r. ss_create (absolute_name ''ex.com'') (pdName r) (pdRecordType r) (pdData r) (pdTtl r)),
      pdDelete = (\<lambda>r. ss_delete (nat (pdId r)))\<rparr>"

interpretation pd_sim: record_api "ss_ok (\<lambda>_. True)" "ss_recs pd_form" pdName pdRecordType pdData
  "pdRecords pd_simulated zone"
  "\<lambda>n t v ttl. pdCreateRecord pd_simulated
     \<lparr>pdId = 0, pdName = n, pdData = v, pdTtl = ttl, pdZoneId = pzId zone, pdRecordType = t\<rparr>"
  "pdDelete pd_simulated" "absolute_name ''ex.com''" "\<lambda>_. True" "\<lambda>_ _ _. True"
  for zone
  using ss_record_api [of "\<lambda>r. nat (pdId r)" pd_form pdName pdRecordType pdData "\<lambda>_ _ _. True" "\<lambda>_. True"
      "absolute_name ''ex.com''"]
  by (simp add: pd_form_def pd_simulated_def)

definition ex_pointhq :: "(string, store) PointHQProvider \<times> store" where
  "ex_pointhq = (\<lparr>pd_client = pd_simulated, pd_root = ''ex.com'', pd_zone = \<lparr>pzId = 1, pzName = ''ex.com''\<rparr>\<rparr>,
     ex_store (\<lambda>n. n))"

definition ex_pointhq_run ::
    "(string pointhq_error sync_error + metadata_dns_record list) \<times> (string, store) PointHQProvider \<times> store" where
  "ex_pointhq_run =
     UpdateProviderDnsRecords (pointhq_provider (\<lambda>_ _. pd_simulated) (\<lambda>_. [])) ''u1'' ex_cfg ex_desired ex_pointhq"

subsection \<open>Properties\<close>

text \<open>
  C20. A synchronization with PointHQ that reports success leaves the zone as desired, for desired
  and owned names below the root domain, although names are sent in one form and read in another.
\<close>
theorem sync_pointhq:
  assumes "pointhq_service (pd_client d) (pd_zone d) (pd_root d) ok recs valid" and "ok w"
    and "manageable (not_root (pd_root d)) (StateFqdn u (RootDomainName cfg)) (pointhq_zone (pd_root d) recs w)"
    and "desired_ok (relative_storable (pd_root d) valid) (StateFqdn u (RootDomainName cfg)) desired"
    and "UpdateProviderDnsRecords (pointhq_provider newClient env) u cfg desired (d, w) = (Inr updated, d', w')"
  shows "d' = d \<and> ok w' \<and> synchronized (StateFqdn u (RootDomainName cfg)) desired
    (pointhq_zone (pd_root d) recs w) (pointhq_zone (pd_root d) recs w')"
  by (intro remove_add.provider_sync [OF pointhq_records [OF assms(1)] _ _ _ _ assms(2-5)])
    (simp_all add: pointhq_methods)

theorem sync_pointhq_witness:
  "ex_after (pointhq_zone ''ex.com'' (ss_recs pd_form) (snd (snd ex_pointhq_run)))"
proof -
  have "isl (fst ex_pointhq_run) = False" by code_simp
  then obtain updated d' w' where run: "ex_pointhq_run = (Inr updated, d', w')" by (rule run_Inr)
  let ?z = "pointhq_zone ''ex.com'' (ss_recs pd_form) (snd ex_pointhq)"
  have z: "manageable (not_root ''ex.com'') ex_state_name ?z" "?z (''mail.ex.com.'', ''A'') = Some {''10.9.9.9''}"
    "''old.s.e.ex.com.'' \<in> owned ex_state_name ?z" "''mail.ex.com.'' \<notin> owned ex_state_name ?z" by code_simp+
  have ok: "ss_ok (\<lambda>_. True) (snd ex_pointhq)" by code_simp
  have des: "desired_ok (relative_storable ''ex.com'' (\<lambda>_ _ _. True)) ex_state_name ex_desired"
    by (rule ex_desired_okI) code_simp
  have "synchronized ex_state_name ex_desired ?z (pointhq_zone ''ex.com'' (ss_recs pd_form) w')"
    using sync_pointhq [where d = "fst ex_pointhq" and w = "snd ex_pointhq" and u = "''u1''" and cfg = ex_cfg
        and newClient = "\<lambda>_ _. pd_simulated" and env = "\<lambda>_. []" and desired = ex_desired and ok = "ss_ok (\<lambda>_. True)"
        and recs = "ss_recs pd_form" and valid = "\<lambda>_ _ _. True" and updated = updated and d' = d' and w' = w']
      pd_sim.record_api_axioms [of "\<lparr>pzId = 1, pzName = ''ex.com''\<rparr>"] z(1) ok des run
    by (simp add: ex_pointhq_run_def ex_pointhq_def ex_state_name_eq)
  from ex_synchronized [OF this z(3,4,2)] show ?thesis by (simp only: run snd_conv)
qed

end
