(* ===== verification/PowerDNS.thy ===== *)
theory PowerDNS
  imports Example_Store
begin

text \<open>
  The PowerDNS provider (src/providers/powerdns/powerdns.go). The client replaces and deletes whole
  record sets. \<open>GetRecords\<close> puts all records of a name into one, which has the type and TTL of the
  last: the listing of a name with records of several types, as the root of every zone has them, is
  not that of the zone. What is shown is for the names that have one type.
\<close>

record pd_record =
  pnName :: string
  pnType :: string
  pnContent :: string
  pnTTL :: int
  pnDisabled :: bool

record ('e, 'w) pd_client =
  pnGetRecords :: "'w \<Rightarrow> ('e + pd_record list) \<times> 'w"
  pnAddRecord :: "string \<Rightarrow> string \<Rightarrow> int \<Rightarrow> string list \<Rightarrow> 'w \<Rightarrow> 'e option \<times> 'w"
  pnDeleteRecord :: "string \<Rightarrow> string \<Rightarrow> int \<Rightarrow> string list \<Rightarrow> 'w \<Rightarrow> 'e option \<times> 'w"

record ('e, 'w) PdnsProvider =
  pn_client :: "('e, 'w) pd_client"
  pn_root :: string

datatype 'e powerdns_error = PdNoURL | PdNoKey | PdNew 'e | PdListing 'e | PdHealth 'e | PdAdd 'e | PdApiCall 'e

subsection \<open>Operations\<close>

definition powerdns_Init ::
    "(string \<Rightarrow> string \<Rightarrow> string \<Rightarrow> string \<Rightarrow> 'w \<Rightarrow> ('e + ('e, 'w) pd_client) \<times> 'w) \<Rightarrow> env \<Rightarrow> string
       \<Rightarrow> ('e, 'w) PdnsProvider \<Rightarrow> 'w \<Rightarrow> 'e powerdns_error option \<times> ('e, 'w) PdnsProvider \<times> 'w" where
  "powerdns_Init newClient env rootDomainName d w =
     (let url = env ''POWERDNS_URL''; apiKey = env ''POWERDNS_API_KEY'' in
      if url = [] then (Some PdNoURL, d, w)
      else if apiKey = [] then (Some PdNoKey, d, w)
      else let d1 = d\<lparr>pn_root := UnFqdn rootDomainName\<rparr> in
        case newClient url [] (pn_root d1) apiKey w of
          (Inl e, w1) \<Rightarrow> (Some (PdNew e), d1, w1)
        | (Inr cl, w1) \<Rightarrow>
            (case pnGetRecords cl w1 of
               (Inl e, w2) \<Rightarrow> (Some (PdListing e), d1\<lparr>pn_client := cl\<rparr>, w2)
             | (Inr _, w2) \<Rightarrow> (None, d1\<lparr>pn_client := cl\<rparr>, w2)))"

definition powerdns_HealthCheck :: "('e, 'w) PdnsProvider \<Rightarrow> 'w \<Rightarrow> 'e powerdns_error option \<times> 'w" where
  "powerdns_HealthCheck d w =
     (case pnGetRecords (pn_client d) w of (Inl e, w') \<Rightarrow> (Some (PdHealth e), w') | (Inr _, w') \<Rightarrow> (None, w'))"

definition powerdns_parseName :: "dns_record \<Rightarrow> string" where
  "powerdns_parseName r = UnFqdn (d_fqdn r)"

definition powerdns_AddRecord :: "('e, 'w) PdnsProvider \<Rightarrow> dns_record \<Rightarrow> 'w \<Rightarrow> 'e powerdns_error option \<times> 'w" where
  "powerdns_AddRecord d r w =
     wrap_err PdAdd (pnAddRecord (pn_client d) (powerdns_parseName r) (d_type r) (d_ttl r) (d_records r) w)"

definition powerdns_findRecords ::
    "('e, 'w) PdnsProvider \<Rightarrow> dns_record \<Rightarrow> 'w \<Rightarrow> ('e powerdns_error + pd_record list) \<times> 'w" where
  "powerdns_findRecords d r w =
     wrap_res PdApiCall (filter (\<lambda>rec. pnName rec = powerdns_parseName r \<and> pnType rec = d_type r))
       (pnGetRecords (pn_client d) w)"

definition powerdns_RemoveRecord :: "('e, 'w) PdnsProvider \<Rightarrow> dns_record \<Rightarrow> 'w \<Rightarrow> 'e powerdns_error option \<times> 'w" where
  "powerdns_RemoveRecord d r w =
     find_and_delete (powerdns_findRecords d)
       (\<lambda>rec w. wrap_err PdApiCall
          (pnDeleteRecord (pn_client d) (powerdns_parseName r) (d_type r) (d_ttl r) [pnContent rec] w)) r w"

definition powerdns_UpdateRecord :: "('e, 'w) PdnsProvider \<Rightarrow> dns_record \<Rightarrow> 'w \<Rightarrow> 'e powerdns_error option \<times> 'w" where
  "powerdns_UpdateRecord d = remove_then_add (powerdns_RemoveRecord d) (powerdns_AddRecord d)"

text \<open>The loop body of \<open>GetRecords\<close>: every record of the name is replaced, or a new one appended.\<close>

definition powerdns_step :: "pd_record \<Rightarrow> dns_record list \<Rightarrow> dns_record list" where
  "powerdns_step rec records =
     (if pnDisabled rec then records
      else
        let name = pnName rec @ ''.'';
            found = list_ex (\<lambda>re. d_fqdn re = name) records;
            merged = map (\<lambda>re.
              if d_fqdn re = name
              then \<lparr>d_fqdn = name, d_records = d_records re @ [pnContent rec], d_type = pnType rec, d_ttl = pnTTL rec\<rparr>
              else re) records
        in if found then merged
           else merged @ [\<lparr>d_fqdn = name, d_records = [pnContent rec], d_type = pnType rec, d_ttl = pnTTL rec\<rparr>])"

definition powerdns_GetRecords :: "('e, 'w) PdnsProvider \<Rightarrow> 'w \<Rightarrow> ('e powerdns_error + dns_record list) \<times> 'w" where
  "powerdns_GetRecords d w =
     wrap_res PdApiCall (\<lambda>pdnsRecords. fold powerdns_step pdnsRecords []) (pnGetRecords (pn_client d) w)"

definition powerdns_provider ::
    "(string \<Rightarrow> string \<Rightarrow> string \<Rightarrow> string \<Rightarrow> 'w \<Rightarrow> ('e + ('e, 'w) pd_client) \<times> 'w) \<Rightarrow> env
       \<Rightarrow> ('e powerdns_error, ('e, 'w) PdnsProvider \<times> 'w) provider" where
  "powerdns_provider newClient env =
     \<lparr>pInit = (\<lambda>root. init_on (powerdns_Init newClient env root)), pGetName = ''PowerDNS'',
      pHealthCheck = call_on powerdns_HealthCheck,
      pAddRecord = (\<lambda>r. call_on (\<lambda>d. powerdns_AddRecord d r)),
      pRemoveRecord = (\<lambda>r. call_on (\<lambda>d. powerdns_RemoveRecord d r)),
      pUpdateRecord = (\<lambda>r. call_on (\<lambda>d. powerdns_UpdateRecord d r)),
      pGetRecords = call_on powerdns_GetRecords\<rparr>"

subsection \<open>Lemmas: what the listing shows\<close>

text \<open>The enabled records of a name, in the order of the listing.\<close>

definition enabled_at :: "string \<Rightarrow> pd_record list \<Rightarrow> pd_record list" where
  "enabled_at f rs = filter (\<lambda>r. \<not> pnDisabled r \<and> pnName r @ ''.'' = f) rs"

text \<open>What the listing shows for a name and type: the values of all types, under the last type.\<close>

definition merged_view :: "pd_record list \<Rightarrow> (string \<times> string) \<rightharpoonup> string set" where
  "merged_view rs k =
     (if enabled_at (fst k) rs \<noteq> [] \<and> pnType (last (enabled_at (fst k) rs)) = snd k
      then Some (pnContent ` set (enabled_at (fst k) rs)) else None)"

lemma find_appended: "find P (xs @ ys) = (case find P xs of None \<Rightarrow> find P ys | Some x \<Rightarrow> Some x)"
  by (induction xs) auto

lemma find_fqdn: "find (\<lambda>x. d_fqdn x = f) xs = Some r \<Longrightarrow> d_fqdn r = f"
  by (induction xs) (auto split: if_splits)

lemma find_map_same: "(\<And>x. d_fqdn (g x) = d_fqdn x) \<Longrightarrow>
    find (\<lambda>x. d_fqdn x = f) (map g xs) = map_option g (find (\<lambda>x. d_fqdn x = f) xs)"
  by (induction xs) auto

lemma powerdns_step_find:
  "find (\<lambda>x. d_fqdn x = f) (powerdns_step r rs) =
     (if pnDisabled r \<or> pnName r @ ''.'' \<noteq> f then find (\<lambda>x. d_fqdn x = f) rs
      else Some \<lparr>d_fqdn = f, d_records = (case find (\<lambda>x. d_fqdn x = f) rs of None \<Rightarrow> [] | Some re \<Rightarrow> d_records re) @ [pnContent r],
        d_type = pnType r, d_ttl = pnTTL r\<rparr>)"
proof -
  let ?n = "pnName r @ ''.''"
  define g where "g = (\<lambda>re. if d_fqdn re = ?n
    then \<lparr>d_fqdn = ?n, d_records = d_records re @ [pnContent r], d_type = pnType r, d_ttl = pnTTL r\<rparr> else re)"
  have same: "d_fqdn (g x) = d_fqdn x" for x by (simp add: g_def)
  have find_map: "find (\<lambda>x. d_fqdn x = f) (map g rs) = map_option g (find (\<lambda>x. d_fqdn x = f) rs)"
    using same by (rule find_map_same)
  have found: "list_ex (\<lambda>re. d_fqdn re = ?n) rs \<longleftrightarrow> find (\<lambda>x. d_fqdn x = ?n) rs \<noteq> None"
    by (auto simp: list_ex_iff find_None_iff)
  have keep: "map_option g (find (\<lambda>x. d_fqdn x = f) rs) = find (\<lambda>x. d_fqdn x = f) rs" if "?n \<noteq> f"
    using that find_fqdn [of f rs] by (cases "find (\<lambda>x. d_fqdn x = f) rs") (auto simp: g_def)
  have hit: "g re = \<lparr>d_fqdn = f, d_records = d_records re @ [pnContent r], d_type = pnType r, d_ttl = pnTTL r\<rparr>"
    if "?n = f" "find (\<lambda>x. d_fqdn x = f) rs = Some re" for re
    using that find_fqdn [of f rs] by (auto simp: g_def)
  have step: "powerdns_step r rs = (if pnDisabled r then rs else if list_ex (\<lambda>re. d_fqdn re = ?n) rs then map g rs
      else map g rs @ [\<lparr>d_fqdn = ?n, d_records = [pnContent r], d_type = pnType r, d_ttl = pnTTL r\<rparr>])"
    by (simp add: powerdns_step_def g_def Let_def)
  show ?thesis
    unfolding step found using keep hit find_map
    by (cases "find (\<lambda>x. d_fqdn x = f) rs") (auto simp: find_appended split: option.splits)
qed

lemma powerdns_step_distinct: "distinct (map d_fqdn rs) \<Longrightarrow> distinct (map d_fqdn (powerdns_step r rs))"
proof -
  assume dist: "distinct (map d_fqdn rs)"
  let ?g = "\<lambda>re. if d_fqdn re = pnName r @ ''.'' then \<lparr>d_fqdn = pnName r @ ''.'', d_records = d_records re @ [pnContent r],
    d_type = pnType r, d_ttl = pnTTL r\<rparr> else re"
  have "map d_fqdn (map ?g rs) = map d_fqdn rs" by simp
  with dist show ?thesis by (auto simp: powerdns_step_def Let_def list_ex_iff simp del: map_map)
qed

lemma powerdns_fold:
  "distinct (map d_fqdn (fold powerdns_step rs []))
   \<and> find (\<lambda>x. d_fqdn x = f) (fold powerdns_step rs []) =
      (if enabled_at f rs = [] then None
       else Some \<lparr>d_fqdn = f, d_records = map pnContent (enabled_at f rs), d_type = pnType (last (enabled_at f rs)),
         d_ttl = pnTTL (last (enabled_at f rs))\<rparr>)"
proof (induction rs rule: rev_induct)
  case (snoc r rs)
  then show ?case
    by (auto simp: powerdns_step_find powerdns_step_distinct enabled_at_def)
qed (simp add: enabled_at_def)

lemma find_key:
  assumes "distinct (map d_fqdn rs)"
  shows "find (\<lambda>r. rkey r = (f, t)) rs =
    (case find (\<lambda>r. d_fqdn r = f) rs of None \<Rightarrow> None | Some r \<Rightarrow> if d_type r = t then Some r else None)"
  using assms
proof (induction rs)
  case (Cons r rs)
  then have "find (\<lambda>r. rkey r = (d_fqdn r', t)) rs = None" if "d_fqdn r' = d_fqdn r" for r'
    using that by (auto simp: find_None_iff rkey_def image_iff)
  then have "d_fqdn r = f \<Longrightarrow> find (\<lambda>r. rkey r = (f, t)) rs = None" by metis
  with Cons show ?case by (auto simp: rkey_def)
qed simp

lemma powerdns_group_view:
  "distinct (map rkey (fold powerdns_step rs [])) \<and> rview (fold powerdns_step rs []) = merged_view rs"
proof -
  note fold = powerdns_fold [of rs]
  have "distinct (map rkey (fold powerdns_step rs []))"
    using fold by (auto simp: rkey_def distinct_map inj_on_def)
  moreover have "rview (fold powerdns_step rs []) k = merged_view rs k" for k
    using fold [of "fst k"] by (cases k) (simp add: rview_find find_key merged_view_def)
  ultimately show ?thesis by blast
qed

subsection \<open>What the service documents\<close>

text \<open>The records of a name as they are listed, and the effect of replacing the record set of a name and
  type by the given values: the other types of the name and all other names stay as they are. Deleting
  is replacing by nothing.\<close>

definition listed_at :: "string \<Rightarrow> pd_record list \<Rightarrow> pd_record list" where
  "listed_at n rs = filter (\<lambda>r. pnName r = n) rs"

definition replaced :: "string \<Rightarrow> string \<Rightarrow> string list \<Rightarrow> pd_record list \<Rightarrow> pd_record list \<Rightarrow> bool" where
  "replaced n t cs rs rs' =
     ((\<forall>m. m \<noteq> n \<longrightarrow> listed_at m rs' = listed_at m rs)
      \<and> {r \<in> set rs'. pnName r = n \<and> pnType r \<noteq> t} = {r \<in> set rs. pnName r = n \<and> pnType r \<noteq> t}
      \<and> pnContent ` {r \<in> set rs'. pnName r = n \<and> pnType r = t} = set cs
      \<and> (\<forall>r \<in> set rs'. pnName r = n \<and> pnType r = t \<longrightarrow> \<not> pnDisabled r))"

locale powerdns_api =
  fixes cl :: "('e, 'w) pd_client"
    and ok :: "'w \<Rightarrow> bool"
    and listing :: "'w \<Rightarrow> pd_record list"
    and valid :: "string \<Rightarrow> string \<Rightarrow> string \<Rightarrow> bool"
  assumes list_frame: "ok w \<Longrightarrow> pnGetRecords cl w = (res, w') \<Longrightarrow> ok w' \<and> listing w' = listing w"
    and list_all: "ok w \<Longrightarrow> pnGetRecords cl w = (Inr rs, w') \<Longrightarrow> rs = listing w"
    and add_frame: "ok w \<Longrightarrow> list_all (valid n t) cs \<Longrightarrow> pnAddRecord cl n t ttl cs w = (e, w') \<Longrightarrow>
          ok w' \<and> (listing w' = listing w \<or> replaced n t cs (listing w) (listing w'))"
    and add_ok: "ok w \<Longrightarrow> list_all (valid n t) cs \<Longrightarrow> pnAddRecord cl n t ttl cs w = (None, w') \<Longrightarrow>
          replaced n t cs (listing w) (listing w')"
    and delete_frame: "ok w \<Longrightarrow> pnDeleteRecord cl n t ttl cs w = (e, w') \<Longrightarrow>
          ok w' \<and> (listing w' = listing w \<or> replaced n t [] (listing w) (listing w'))"
    and delete_ok: "ok w \<Longrightarrow> pnDeleteRecord cl n t ttl cs w = (None, w') \<Longrightarrow> replaced n t [] (listing w) (listing w')"

text \<open>\<open>ours\<close> are the full names that are managed, \<open>kind\<close> the one type each of them has. Of the other
  names the listing shows something merged from their records, \<open>rs0\<close>.\<close>

definition one_kind :: "(string \<Rightarrow> bool) \<Rightarrow> (string \<Rightarrow> string) \<Rightarrow> pd_record list \<Rightarrow> bool" where
  "one_kind ours kind rs =
     list_all (\<lambda>r. ours (pnName r @ ''.'') \<longrightarrow> pnType r = kind (pnName r @ ''.'') \<and> \<not> pnDisabled r) rs"

definition powerdns_zone ::
    "(string \<Rightarrow> bool) \<Rightarrow> pd_record list \<Rightarrow> pd_record list \<Rightarrow> (string \<times> string) \<rightharpoonup> string set" where
  "powerdns_zone ours rs0 rs k =
     (if ours (fst k) then store_view (\<lambda>r. (pnName r @ ''.'', pnType r)) pnContent (set rs) k else merged_view rs0 k)"

definition powerdns_storable ::
    "(string \<Rightarrow> bool) \<Rightarrow> (string \<Rightarrow> string) \<Rightarrow> (string \<Rightarrow> string \<Rightarrow> string \<Rightarrow> bool) \<Rightarrow> dns_record \<Rightarrow> bool" where
  "powerdns_storable ours kind valid d =
     (ours (d_fqdn d) \<and> d_type d = kind (d_fqdn d) \<and> HasSuffix (d_fqdn d) ''.'' \<and> d_records d \<noteq> []
      \<and> list_all (valid (UnFqdn (d_fqdn d)) (d_type d)) (d_records d))"

text \<open>The managed part of the zone has one kind, the rest is listed as in \<open>rs0\<close>.\<close>

definition kept_outside :: "(string \<Rightarrow> bool) \<Rightarrow> pd_record list \<Rightarrow> pd_record list \<Rightarrow> bool" where
  "kept_outside ours rs0 rs = (\<forall>n. \<not> ours (n @ ''.'') \<longrightarrow> listed_at n rs = listed_at n rs0)"

lemma enabled_listed: "enabled_at (n @ ''.'') rs = filter (\<lambda>r. \<not> pnDisabled r) (listed_at n rs)"
  by (auto simp: enabled_at_def listed_at_def intro: filter_cong)

lemma merged_outside:
  assumes "kept_outside ours rs0 rs" and "\<not> ours (fst k)"
  shows "merged_view rs k = merged_view rs0 k"
proof (cases "\<exists>n. fst k = n @ ''.''")
  case True
  then obtain n where "fst k = n @ ''.''" by blast
  then have "enabled_at (fst k) rs = enabled_at (fst k) rs0" using assms by (simp add: enabled_listed kept_outside_def)
  then show ?thesis by (simp add: merged_view_def)
next
  case False
  then have "enabled_at (fst k) rs = []" for rs unfolding enabled_at_def filter_empty_conv by metis
  then show ?thesis by (simp add: merged_view_def)
qed

lemma merged_ours:
  assumes "one_kind ours kind rs" and "ours (fst k)"
  shows "merged_view rs k = store_view (\<lambda>r. (pnName r @ ''.'', pnType r)) pnContent (set rs) k"
proof -
  define S where "S = {r \<in> set rs. pnName r @ ''.'' = fst k}"
  have at: "set (enabled_at (fst k) rs) = S" and kind: "\<And>r. r \<in> S \<Longrightarrow> pnType r = kind (fst k)"
    using assms by (auto simp: S_def enabled_at_def one_kind_def list_all_iff)
  have none: "enabled_at (fst k) rs = [] \<longleftrightarrow> S = {}" using at by (metis set_empty)
  have last: "pnType (last (enabled_at (fst k) rs)) = kind (fst k)" if "enabled_at (fst k) rs \<noteq> []"
    using kind at last_in_set [OF that] by blast
  have here: "{r \<in> set rs. (pnName r @ ''.'', pnType r) = k} = (if kind (fst k) = snd k then S else {})"
    using kind by (auto simp: S_def prod_eq_iff)
  have "store_view (\<lambda>r. (pnName r @ ''.'', pnType r)) pnContent (set rs) k
      = (if kind (fst k) = snd k \<and> S \<noteq> {} then Some (pnContent ` S) else None)"
    unfolding store_view_values here by (simp add: Let_def)
  moreover have "merged_view rs k = (if kind (fst k) = snd k \<and> S \<noteq> {} then Some (pnContent ` S) else None)"
    unfolding merged_view_def at using none last by (cases "enabled_at (fst k) rs = []") simp_all
  ultimately show ?thesis by simp
qed

lemma powerdns_listed_zone:
  assumes "one_kind ours kind rs" and "kept_outside ours rs0 rs"
  shows "distinct (map rkey (fold powerdns_step rs [])) \<and> rview (fold powerdns_step rs []) = powerdns_zone ours rs0 rs"
  using powerdns_group_view [of rs] merged_outside [OF assms(2)] merged_ours [OF assms(1)]
  by (auto simp: powerdns_zone_def)

lemma replaced_zone:
  assumes "replaced n t cs rs rs'" and "ours (n @ ''.'')" and "t = kind (n @ ''.'')"
    and "one_kind ours kind rs" and "kept_outside ours rs0 rs"
  shows "one_kind ours kind rs' \<and> kept_outside ours rs0 rs'
    \<and> powerdns_zone ours rs0 rs' (n @ ''.'', t) = (if cs = [] then None else Some (set cs))
    \<and> (\<forall>k. k \<noteq> (n @ ''.'', t) \<longrightarrow> powerdns_zone ours rs0 rs' k = powerdns_zone ours rs0 rs k)"
proof -
  have others: "listed_at m rs' = listed_at m rs" if "m \<noteq> n" for m using assms(1) that by (simp add: replaced_def)
  have mem: "r \<in> set rs' \<longleftrightarrow> r \<in> set rs" if "pnName r \<noteq> n" for r
  proof -
    have "r \<in> set (listed_at (pnName r) xs) \<longleftrightarrow> r \<in> set xs" for xs by (simp add: listed_at_def)
    with others [OF that] show ?thesis by metis
  qed
  have old: "pnType r = t" if "r \<in> set rs" "pnName r = n" for r
    using that assms(2,3,4) by (auto simp: one_kind_def list_all_iff)
  then have new: "pnType r = t" if "r \<in> set rs'" "pnName r = n" for r
    using that assms(1) unfolding replaced_def by blast
  have kind: "one_kind ours kind rs'"
    unfolding one_kind_def list_all_iff
  proof (intro ballI)
    fix r assume "r \<in> set rs'"
    then show "ours (pnName r @ ''.'') \<longrightarrow> pnType r = kind (pnName r @ ''.'') \<and> \<not> pnDisabled r"
      using mem [of r] new [of r] assms(1,3,4) by (cases "pnName r = n") (auto simp: one_kind_def list_all_iff replaced_def)
  qed
  have out: "kept_outside ours rs0 rs'"
    using assms(2,5) others unfolding kept_outside_def by metis
  have at: "powerdns_zone ours rs0 rs' (n @ ''.'', t) = (if cs = [] then None else Some (set cs))"
  proof -
    have "{r \<in> set rs'. (pnName r @ ''.'', pnType r) = (n @ ''.'', t)} = {r \<in> set rs'. pnName r = n \<and> pnType r = t}" by auto
    then have "pnContent ` {r \<in> set rs'. (pnName r @ ''.'', pnType r) = (n @ ''.'', t)} = set cs"
      using assms(1) by (simp add: replaced_def)
    then show ?thesis using assms(2) by (simp add: powerdns_zone_def store_view_values)
  qed
  have "powerdns_zone ours rs0 rs' k = powerdns_zone ours rs0 rs k" if "k \<noteq> (n @ ''.'', t)" for k
  proof -
    have "store_view (\<lambda>r. (pnName r @ ''.'', pnType r)) pnContent (set rs') k
        = store_view (\<lambda>r. (pnName r @ ''.'', pnType r)) pnContent (set rs) k"
      by (rule store_view_cong) (use that mem old new in \<open>metis append_same_eq\<close>)
    then show ?thesis by (simp add: powerdns_zone_def)
  qed
  with kind out at show ?thesis by blast
qed

context powerdns_api
begin

text \<open>What holds all along: the managed names have one kind, the others are listed as before.\<close>

lemma add_effect:
  assumes "pn_client d = cl" and "ok w \<and> one_kind ours kind (listing w) \<and> kept_outside ours rs0 (listing w)"
    and "powerdns_storable ours kind valid r" and "powerdns_AddRecord d r w = (e, w')"
  shows "(ok w' \<and> one_kind ours kind (listing w') \<and> kept_outside ours rs0 (listing w'))
    \<and> (\<forall>k. k \<noteq> rkey r \<longrightarrow> powerdns_zone ours rs0 (listing w') k = powerdns_zone ours rs0 (listing w) k)
    \<and> (e = None \<longrightarrow> powerdns_zone ours rs0 (listing w') (rkey r) = Some (set (d_records r)))"
proof -
  let ?n = "UnFqdn (d_fqdn r)"
  have n: "?n @ ''.'' = d_fqdn r"
    using assms(3) by (auto simp: powerdns_storable_def UnFqdn_def HasSuffix_iff suffix_def)
  obtain e' where call: "pnAddRecord cl ?n (d_type r) (d_ttl r) (d_records r) w = (e', w')" "e = map_option PdAdd e'"
    using assms(1,4) by (auto simp: powerdns_AddRecord_def powerdns_parseName_def wrap_err_def prod_eq_iff)
  have valid: "List.list_all (valid ?n (d_type r)) (d_records r)" using assms(3) unfolding powerdns_storable_def by blast
  note zone = replaced_zone [where n = ?n and t = "d_type r" and cs = "d_records r" and ours = ours and kind = kind and ?rs0.0 = rs0,
      unfolded n]
  show ?thesis
  proof (cases "replaced ?n (d_type r) (d_records r) (listing w) (listing w')")
    case True
    with zone [OF True] add_frame [OF _ valid call(1)] assms(2,3) show ?thesis
      by (auto simp: powerdns_storable_def rkey_def)
  next
    case False
    then have "e \<noteq> None" using add_ok [OF _ valid, of w "d_ttl r" w'] call assms(2) by auto
    with False add_frame [OF _ valid call(1)] assms(2) show ?thesis by auto
  qed
qed

lemma delete_loop:
  assumes "ok w \<and> one_kind ours kind (listing w) \<and> kept_outside ours rs0 (listing w)"
    and "ours (n @ ''.'')" and "t = kind (n @ ''.'')"
    and "for_each (\<lambda>rec w. wrap_err PdApiCall (pnDeleteRecord cl n t ttl [pnContent rec] w)) found w = (e, w')"
  shows "(ok w' \<and> one_kind ours kind (listing w') \<and> kept_outside ours rs0 (listing w'))
    \<and> (\<forall>k. k \<noteq> (n @ ''.'', t) \<longrightarrow> powerdns_zone ours rs0 (listing w') k = powerdns_zone ours rs0 (listing w) k)
    \<and> (e = None \<and> (found \<noteq> [] \<or> powerdns_zone ours rs0 (listing w) (n @ ''.'', t) = None) \<longrightarrow>
        powerdns_zone ours rs0 (listing w') (n @ ''.'', t) = None)"
  using assms(1,4)
proof (induction found arbitrary: w)
  case (Cons rec found)
  obtain e1 w1 where call: "pnDeleteRecord cl n t ttl [pnContent rec] w = (e1, w1)" by fastforce
  have frame: "ok w1 \<and> (listing w1 = listing w \<or> replaced n t [] (listing w) (listing w1))"
    using delete_frame [OF _ call] Cons.prems(1) by blast
  have step: "(ok w1 \<and> one_kind ours kind (listing w1) \<and> kept_outside ours rs0 (listing w1))
    \<and> (\<forall>k. k \<noteq> (n @ ''.'', t) \<longrightarrow> powerdns_zone ours rs0 (listing w1) k = powerdns_zone ours rs0 (listing w) k)
    \<and> (replaced n t [] (listing w) (listing w1) \<longrightarrow> powerdns_zone ours rs0 (listing w1) (n @ ''.'', t) = None)"
    using frame replaced_zone [where n = n and t = t and cs = "[]" and rs = "listing w" and rs' = "listing w1"
        and ours = ours and kind = kind and ?rs0.0 = rs0] assms(2,3) Cons.prems(1) by auto
  show ?case
  proof (cases e1)
    case None
    have gone: "powerdns_zone ours rs0 (listing w1) (n @ ''.'', t) = None"
      using delete_ok [of w n t ttl "[pnContent rec]" w1] call None Cons.prems(1) step by blast
    have rest: "for_each (\<lambda>rec w. wrap_err PdApiCall (pnDeleteRecord cl n t ttl [pnContent rec] w)) found w1 = (e, w')"
      using Cons.prems(2) call None by (simp add: wrap_err_def)
    from Cons.IH [OF _ rest] step gone show ?thesis by auto
  next
    case (Some x)
    with Cons.prems(2) call have "w' = w1" "e = Some (PdApiCall x)" by (auto simp: wrap_err_def)
    with step show ?thesis by auto
  qed
qed auto

lemma remove_effect:
  assumes "pn_client d = cl" and "ok w \<and> one_kind ours kind (listing w) \<and> kept_outside ours rs0 (listing w)"
    and "powerdns_storable ours kind valid r \<or> ours (fst (rkey r)) \<and> powerdns_zone ours rs0 (listing w) (rkey r) \<noteq> None"
    and "powerdns_RemoveRecord d r w = (e, w')"
  shows "(ok w' \<and> one_kind ours kind (listing w') \<and> kept_outside ours rs0 (listing w'))
    \<and> (\<forall>k. k \<noteq> rkey r \<longrightarrow> powerdns_zone ours rs0 (listing w') k = powerdns_zone ours rs0 (listing w) k)
    \<and> (e = None \<longrightarrow> powerdns_zone ours rs0 (listing w') (rkey r) = None)"
proof -
  let ?n = "UnFqdn (d_fqdn r)"
  have r: "?n @ ''.'' = d_fqdn r" "ours (d_fqdn r)" "d_type r = kind (d_fqdn r)"
    using assms(3)
  proof (atomize (full), elim disjE)
    assume "powerdns_storable ours kind valid r"
    then show "?n @ ''.'' = d_fqdn r \<and> ours (d_fqdn r) \<and> d_type r = kind (d_fqdn r)"
      by (auto simp: powerdns_storable_def UnFqdn_def HasSuffix_iff suffix_def)
  next
    assume "ours (fst (rkey r)) \<and> powerdns_zone ours rs0 (listing w) (rkey r) \<noteq> None"
    then obtain x where "x \<in> set (listing w)" "rkey r = (pnName x @ ''.'', pnType x)" "ours (d_fqdn r)"
      by (auto simp: powerdns_zone_def store_view_def rkey_def split: if_splits)
    then show "?n @ ''.'' = d_fqdn r \<and> ours (d_fqdn r) \<and> d_type r = kind (d_fqdn r)"
      using assms(2) by (auto simp: one_kind_def list_all_iff rkey_def UnFqdn_def)
  qed
  obtain ans w1 where found: "pnGetRecords cl w = (ans, w1)" by fastforce
  have w1: "ok w1" "listing w1 = listing w" using list_frame [OF _ found] assms(2) by auto
  show ?thesis
  proof (cases ans)
    case (Inl x)
    with assms(1,2,4) found w1 show ?thesis
      by (auto simp: powerdns_RemoveRecord_def find_and_delete_def powerdns_findRecords_def wrap_res_def)
  next
    case (Inr rs)
    have rs: "rs = listing w" using list_all [of w rs w1] found Inr assms(2) by simp
    let ?found = "filter (\<lambda>rec. pnName rec = ?n \<and> pnType rec = d_type r) (listing w)"
    have run: "for_each (\<lambda>rec w. wrap_err PdApiCall (pnDeleteRecord cl ?n (d_type r) (d_ttl r) [pnContent rec] w)) ?found w1 = (e, w')"
      using assms(1,4) found Inr rs
      by (simp add: powerdns_RemoveRecord_def find_and_delete_def powerdns_findRecords_def wrap_res_def powerdns_parseName_def)
    have "powerdns_zone ours rs0 (listing w) (?n @ ''.'', d_type r) = None" if "?found = []"
      using that r by (auto simp: powerdns_zone_def store_view_def filter_empty_conv)
    with delete_loop [OF _ _ _ run, of ours kind rs0] w1 assms(2) r show ?thesis by (auto simp: rkey_def)
  qed
qed

lemma records:
  assumes "pn_client d = cl"
  shows "remove_add (\<lambda>w. ok w \<and> one_kind ours kind (listing w) \<and> kept_outside ours rs0 (listing w))
    (\<lambda>w. powerdns_zone ours rs0 (listing w)) (powerdns_GetRecords d) (powerdns_AddRecord d) (powerdns_RemoveRecord d)
    (powerdns_storable ours kind valid) (\<lambda>k. ours (fst k))"
proof (unfold_locales, goal_cases)
  case (1 w res w')
  then show ?case using list_frame [of w _ w'] assms by (auto simp: powerdns_GetRecords_def wrap_res_def prod_eq_iff)
next
  case (2 w rs w')
  then obtain found where found: "pnGetRecords cl w = (Inr found, w')" "rs = fold powerdns_step found []"
    using assms by (cases "pnGetRecords cl w") (auto simp: powerdns_GetRecords_def wrap_res_def map_sum_def split: sum.splits)
  with list_all [of w found w'] 2(1) powerdns_listed_zone [of ours kind "listing w" rs0] show ?case by simp
next
  case (3 w r e w')
  from add_effect [OF assms 3] show ?case by blast
next
  case (4 w r w')
  from add_effect [OF assms 4(1,2,4)] show ?case by blast
next
  case (5 w r e w')
  from remove_effect [OF assms 5] show ?case by blast
next
  case (6 w r w')
  from remove_effect [OF assms 6] show ?case by blast
qed

end

lemmas powerdns_methods = powerdns_provider_def powerdns_UpdateRecord_def call_on_pair

subsection \<open>The simulated service\<close>

record pd_world =
  pwRecords :: "pd_record list"
  pwFaults :: "bool list"

definition pw_replace :: "string \<Rightarrow> string \<Rightarrow> int \<Rightarrow> string list \<Rightarrow> pd_world \<Rightarrow> string option \<times> pd_world" where
  "pw_replace n t ttl cs w =
     (if pwFaults w \<noteq> [] \<and> hd (pwFaults w) then (Some ''unavailable'', w\<lparr>pwFaults := tl (pwFaults w)\<rparr>)
      else (None, w\<lparr>pwFaults := tl (pwFaults w),
        pwRecords := filter (\<lambda>r. \<not> (pnName r = n \<and> pnType r = t)) (pwRecords w)
          @ map (\<lambda>c. \<lparr>pnName = n, pnType = t, pnContent = c, pnTTL = ttl, pnDisabled = False\<rparr>) cs\<rparr>))"

definition pd_simulated :: "(string, pd_world) pd_client" where
  "pd_simulated =
     \<lparr>pnGetRecords = (\<lambda>w. if pwFaults w \<noteq> [] \<and> hd (pwFaults w) then (Inl ''unavailable'', w\<lparr>pwFaults := tl (pwFaults w)\<rparr>)
        else (Inr (pwRecords w), w\<lparr>pwFaults := tl (pwFaults w)\<rparr>)),
      pnAddRecord = pw_replace,
      pnDeleteRecord = (\<lambda>n t ttl cs. pw_replace n t ttl [])\<rparr>"

lemma pw_replaced:
  assumes "pw_replace n t ttl cs w = (e, w')"
  shows "pwRecords w' = pwRecords w \<or> replaced n t cs (pwRecords w) (pwRecords w')"
    and "e = None \<Longrightarrow> replaced n t cs (pwRecords w) (pwRecords w')"
proof -
  let ?rs = "filter (\<lambda>r. \<not> (pnName r = n \<and> pnType r = t)) (pwRecords w)
    @ map (\<lambda>c. \<lparr>pnName = n, pnType = t, pnContent = c, pnTTL = ttl, pnDisabled = False\<rparr>) cs"
  have "listed_at m ?rs = listed_at m (pwRecords w)" if "m \<noteq> n" for m
  proof -
    have "filter (\<lambda>r. pnName r = m) (filter (\<lambda>r. \<not> (pnName r = n \<and> pnType r = t)) (pwRecords w))
        = filter (\<lambda>r. pnName r = m) (pwRecords w)"
      unfolding filter_filter using that by (intro filter_cong) auto
    with that show ?thesis by (simp add: listed_at_def filter_map comp_def)
  qed
  moreover have "{r \<in> set ?rs. pnName r = n \<and> pnType r = t}
      = (\<lambda>c. \<lparr>pnName = n, pnType = t, pnContent = c, pnTTL = ttl, pnDisabled = False\<rparr>) ` set cs" by auto
  then have "pnContent ` {r \<in> set ?rs. pnName r = n \<and> pnType r = t} = set cs" by (simp only: image_image) simp
  moreover have "\<forall>x \<in> set (map (\<lambda>c. \<lparr>pnName = n, pnType = t, pnContent = c, pnTTL = ttl, pnDisabled = False\<rparr>) cs).
      pnName x = n \<and> pnType x = t \<and> \<not> pnDisabled x" by simp
  then have "{r \<in> set ?rs. pnName r = n \<and> pnType r \<noteq> t} = {r \<in> set (pwRecords w). pnName r = n \<and> pnType r \<noteq> t}"
    "\<forall>r \<in> set ?rs. pnName r = n \<and> pnType r = t \<longrightarrow> \<not> pnDisabled r"
    unfolding set_append set_filter by blast+
  ultimately have "replaced n t cs (pwRecords w) ?rs" unfolding replaced_def by blast
  moreover have "e = None \<and> pwRecords w' = ?rs \<or> e \<noteq> None \<and> pwRecords w' = pwRecords w"
    using assms by (auto simp: pw_replace_def split: if_splits)
  ultimately show "pwRecords w' = pwRecords w \<or> replaced n t cs (pwRecords w) (pwRecords w')"
    and "e = None \<Longrightarrow> replaced n t cs (pwRecords w) (pwRecords w')" by auto
qed

interpretation pd_sim: powerdns_api pd_simulated "\<lambda>_. True" pwRecords "\<lambda>_ _ _. True"
proof (unfold_locales, goal_cases)
  case (1 w res w')
  then show ?case by (auto simp: pd_simulated_def split: if_splits)
next
  case (2 w rs w')
  then show ?case by (auto simp: pd_simulated_def split: if_splits)
qed (use pw_replaced in \<open>auto simp: pd_simulated_def\<close>)

text \<open>The zone of the example, with an SOA and an NS record at its root.\<close>

definition ex_pd :: "string \<Rightarrow> string \<Rightarrow> string \<Rightarrow> pd_record" where
  "ex_pd n t c = \<lparr>pnName = n, pnType = t, pnContent = c, pnTTL = 300, pnDisabled = False\<rparr>"

definition ex_powerdns :: "(string, pd_world) PdnsProvider \<times> pd_world" where
  "ex_powerdns =
     (\<lparr>pn_client = pd_simulated, pn_root = ''ex.com''\<rparr>,
      \<lparr>pwRecords = [ex_pd ''ex.com'' ''SOA'' ''ns.ex.com'', ex_pd ''ex.com'' ''NS'' ''ns.ex.com'', ex_pd ''mail.ex.com'' ''A'' ''10.9.9.9'',
         ex_pd ''old.s.e.ex.com'' ''A'' ''10.0.0.7'', ex_pd ''web.s.e.ex.com'' ''A'' ''10.0.0.8'',
         ex_pd (UnFqdn ex_state_name) ''TXT'' ''old.s.e.ex.com.'', ex_pd (UnFqdn ex_state_name) ''TXT'' ''web.s.e.ex.com.''],
       pwFaults = []\<rparr>)"

definition ex_powerdns_run ::
    "(string powerdns_error sync_error + metadata_dns_record list) \<times> (string, pd_world) PdnsProvider \<times> pd_world" where
  "ex_powerdns_run =
     UpdateProviderDnsRecords (powerdns_provider (\<lambda>_ _ _ _ w. (Inr pd_simulated, w)) (\<lambda>_. [])) ''u1'' ex_cfg ex_desired ex_powerdns"

definition ex_ours :: "string \<Rightarrow> bool" where
  "ex_ours f = (f \<noteq> ''ex.com.'')"

definition ex_kind :: "string \<Rightarrow> string" where
  "ex_kind f = (if f = ex_state_name then ''TXT'' else ''A'')"

subsection \<open>Properties\<close>

text \<open>
  C17. A synchronization with PowerDNS that reports success leaves the managed names as desired, as
  long as each of them has records of one type only; the records of all other names, which the
  listing merges whatever their types, are listed exactly as before.
\<close>
theorem sync_powerdns:
  assumes "powerdns_api (pn_client d) ok recs valid" and "ok w" and "one_kind ours kind (recs w)"
    and "manageable (\<lambda>k. ours (fst k)) (StateFqdn u (RootDomainName cfg)) (powerdns_zone ours (recs w) (recs w))"
    and "desired_ok (powerdns_storable ours kind valid) (StateFqdn u (RootDomainName cfg)) desired"
    and "UpdateProviderDnsRecords (powerdns_provider newClient env) u cfg desired (d, w) = (Inr updated, d', w')"
  shows "d' = d \<and> ok w' \<and> one_kind ours kind (recs w') \<and> kept_outside ours (recs w) (recs w')
    \<and> synchronized (StateFqdn u (RootDomainName cfg)) desired
        (powerdns_zone ours (recs w) (recs w)) (powerdns_zone ours (recs w) (recs w'))"
proof -
  have "ok w \<and> one_kind ours kind (recs w) \<and> kept_outside ours (recs w) (recs w)"
    using assms(2,3) by (simp add: kept_outside_def)
  from remove_add.provider_sync [OF powerdns_api.records [OF assms(1) refl] _ _ _ _ this assms(4,5,6)] show ?thesis
    by (simp add: powerdns_methods)
qed

theorem sync_powerdns_witness:
  "ex_after (powerdns_zone ex_ours (pwRecords (snd ex_powerdns)) (pwRecords (snd (snd ex_powerdns_run))))
   \<and> listed_at ''ex.com'' (pwRecords (snd (snd ex_powerdns_run))) = listed_at ''ex.com'' (pwRecords (snd ex_powerdns))"
proof -
  have "isl (fst ex_powerdns_run) = False" by code_simp
  then obtain updated d' w' where run: "ex_powerdns_run = (Inr updated, d', w')" by (rule run_Inr)
  let ?rs = "pwRecords (snd ex_powerdns)" and ?z = "powerdns_zone ex_ours (pwRecords (snd ex_powerdns)) (pwRecords (snd ex_powerdns))"
  have z: "manageable (\<lambda>k. ex_ours (fst k)) ex_state_name ?z" "?z (''mail.ex.com.'', ''A'') = Some {''10.9.9.9''}"
    "''old.s.e.ex.com.'' \<in> owned ex_state_name ?z" "''mail.ex.com.'' \<notin> owned ex_state_name ?z" by code_simp+
  have kind: "one_kind ex_ours ex_kind ?rs" by code_simp
  have des: "desired_ok (powerdns_storable ex_ours ex_kind (\<lambda>_ _ _. True)) ex_state_name ex_desired"
    by (rule ex_desired_okI) code_simp
  have p: "pn_client (fst ex_powerdns) = pd_simulated" by (simp add: ex_powerdns_def)
  have "kept_outside ex_ours ?rs (pwRecords w') \<and> synchronized ex_state_name ex_desired ?z (powerdns_zone ex_ours ?rs (pwRecords w'))"
    using sync_powerdns [where d = "fst ex_powerdns" and w = "snd ex_powerdns" and u = "''u1''" and cfg = ex_cfg
        and newClient = "\<lambda>_ _ _ _ w. (Inr pd_simulated, w)" and env = "\<lambda>_. []" and desired = ex_desired and ok = "\<lambda>_. True"
        and recs = pwRecords and valid = "\<lambda>_ _ _. True" and ours = ex_ours and kind = ex_kind
        and updated = updated and d' = d' and w' = w']
      pd_sim.powerdns_api_axioms z(1) kind des run
    by (simp add: ex_powerdns_run_def p ex_state_name_eq)
  moreover have "\<not> ex_ours (''ex.com'' @ ''.'')" by code_simp
  ultimately have "listed_at ''ex.com'' (pwRecords w') = listed_at ''ex.com'' ?rs"
    "synchronized ex_state_name ex_desired ?z (powerdns_zone ex_ours ?rs (pwRecords w'))" unfolding kept_outside_def by blast+
  with ex_synchronized [OF _ z(3,4,2)] show ?thesis by (simp only: run snd_conv simp_thms)
qed

end
