(* ===== verification/RFC2136.thy ===== *)
theory RFC2136
  imports Example_Store
begin

text \<open>
  The provider for dynamic updates (src/providers/rfc2136/rfc2136.go): it reads the zone by a zone
  transfer and changes record sets with update messages. The DNS library is a parameter: how it
  parses the text of a record, the length of a message, the exchange of a message with the server and
  the transfer, whose channel of envelopes is the list of what comes out of it until it is closed.
  The constructors of the RRs are those the code distinguishes.
\<close>

datatype rr_data = RrCNAME string | RrA string | RrAAAA string | RrTXT "string list" | RrOther

record RR =
  rrName :: string
  rrClass :: nat
  rrTtl :: int
  rrData :: rr_data

datatype dns_question = QuestionSOA | UpdateInsert "RR list" | UpdateRemoveRRset "RR list" | TransferAxfr

text \<open>A message with its zone and, when it is signed, the name of the key and the time.\<close>

record dns_msg =
  msgZone :: string
  msgQuestion :: dns_question
  msgTsig :: "(string \<times> int) option"

datatype dns_net = Udp | Tcp

record ('e, 'w) dns_library =
  NewRR :: "string \<Rightarrow> 'e + RR"
  msgLen :: "dns_msg \<Rightarrow> int"
  Now :: "'w \<Rightarrow> int"
  Exchange :: "dns_net \<Rightarrow> (string \<times> string) option \<Rightarrow> dns_msg \<Rightarrow> string \<Rightarrow> 'w \<Rightarrow> ('e + nat option) \<times> 'w"
  TransferIn :: "(string \<times> string) option \<Rightarrow> dns_msg \<Rightarrow> string \<Rightarrow> 'w \<Rightarrow> ('e + ('e + RR list) list) \<times> 'w"

record RFC2136Provider =
  rf_nameserver :: string
  rf_zoneName :: string
  rf_tsigKeyName :: string
  rf_tsigSecret :: string
  rf_insecure :: bool

datatype 'e rfc2136_error =
  RfcNotSet string | RfcNotBoolean string | RfcHealth "'e rfc2136_error" | RfcBuildRR 'e | RfcQuery "'e rfc2136_error"
| RfcExchange 'e | RfcBadCode nat | RfcTransfer 'e

definition udpMaxMsgSize :: int where "udpMaxMsgSize = 512"

definition ClassINET :: nat where "ClassINET = 1"

definition RcodeSuccess :: nat where "RcodeSuccess = 0"

subsection \<open>Operations\<close>

text \<open>\<open>net.JoinHostPort\<close>: a host with a colon is put in brackets.\<close>

definition JoinHostPort :: "string \<Rightarrow> string \<Rightarrow> string" where
  "JoinHostPort host port =
     (if CHR '':'' \<in> set host then ''['' @ host @ '']:'' @ port else host @ '':'' @ port)"

text \<open>\<open>fqdn\<close> stands for \<open>dns.Fqdn\<close> of the library.\<close>

definition rfc2136_Init ::
    "(string \<Rightarrow> string) \<Rightarrow> env \<Rightarrow> string \<Rightarrow> RFC2136Provider \<Rightarrow> 'e rfc2136_error option \<times> RFC2136Provider" where
  "rfc2136_Init fqdn env rootDomainName r =
     (let host = env ''RFC2136_HOST''; port = env ''RFC2136_PORT''; insecureStr = env ''RFC2136_INSECURE'';
          keyName = env ''RFC2136_TSIG_KEYNAME''; secret = env ''RFC2136_TSIG_SECRET'' in
      if host = [] then (Some (RfcNotSet ''RFC2136_HOST''), r)
      else if port = [] then (Some (RfcNotSet ''RFC2136_PORT''), r)
      else case (if insecureStr = [] then Some False else ParseBool insecureStr) of
             None \<Rightarrow> (Some (RfcNotBoolean ''RFC2136_INSECURE''), r)
           | Some insecure \<Rightarrow>
               if \<not> insecure \<and> keyName = [] then (Some (RfcNotSet ''RFC2136_TSIG_KEYNAME''), r)
               else if \<not> insecure \<and> secret = [] then (Some (RfcNotSet ''RFC2136_TSIG_SECRET''), r)
               else let r1 = r\<lparr>rf_nameserver := JoinHostPort host port, rf_zoneName := fqdn rootDomainName\<rparr>;
                        r2 = (if \<not> insecure then r1\<lparr>rf_tsigKeyName := fqdn keyName, rf_tsigSecret := secret\<rparr> else r1)
                    in (None, r2\<lparr>rf_insecure := insecure\<rparr>))"

definition tsig_secret :: "RFC2136Provider \<Rightarrow> (string \<times> string) option" where
  "tsig_secret r = (if \<not> rf_insecure r then Some (rf_tsigKeyName r, rf_tsigSecret r) else None)"

definition sign_message :: "('e, 'w) dns_library \<Rightarrow> RFC2136Provider \<Rightarrow> dns_msg \<Rightarrow> 'w \<Rightarrow> dns_msg" where
  "sign_message L r msg w = (if \<not> rf_insecure r then msg\<lparr>msgTsig := Some (rf_tsigKeyName r, Now L w)\<rparr> else msg)"

definition sendMessage ::
    "('e, 'w) dns_library \<Rightarrow> RFC2136Provider \<Rightarrow> dns_msg \<Rightarrow> 'w \<Rightarrow> 'e rfc2136_error option \<times> 'w" where
  "sendMessage L r msg w =
     (let msg = sign_message L r msg w;
          net = (if msgLen L msg > udpMaxMsgSize then Tcp else Udp)
      in case Exchange L net (tsig_secret r) msg (rf_nameserver r) w of
           (Inl e, w') \<Rightarrow> (Some (RfcExchange e), w')
         | (Inr resp, w') \<Rightarrow>
             (case resp of
                None \<Rightarrow> (None, w')
              | Some rcode \<Rightarrow> if rcode \<noteq> RcodeSuccess then (Some (RfcBadCode rcode), w') else (None, w')))"

definition rfc2136_HealthCheck ::
    "('e, 'w) dns_library \<Rightarrow> RFC2136Provider \<Rightarrow> 'w \<Rightarrow> 'e rfc2136_error option \<times> 'w" where
  "rfc2136_HealthCheck L r w =
     wrap_err RfcHealth (sendMessage L r \<lparr>msgZone = rf_zoneName r, msgQuestion = QuestionSOA, msgTsig = None\<rparr> w)"

fun build_rrs :: "('e, 'w) dns_library \<Rightarrow> dns_record \<Rightarrow> string list \<Rightarrow> 'e rfc2136_error + RR list" where
  "build_rrs L d [] = Inr []"
| "build_rrs L d (rec # recs) =
     (case NewRR L (d_fqdn d @ '' '' @ FormatInt (d_ttl d) @ '' '' @ d_type d @ '' '' @ rec) of
        Inl e \<Rightarrow> Inl (RfcBuildRR e)
      | Inr rr \<Rightarrow> map_sum id ((#) rr) (build_rrs L d recs))"

definition rfc2136_AddRecord ::
    "('e, 'w) dns_library \<Rightarrow> RFC2136Provider \<Rightarrow> dns_record \<Rightarrow> 'w \<Rightarrow> 'e rfc2136_error option \<times> 'w" where
  "rfc2136_AddRecord L r d w =
     (case build_rrs L d (d_records d) of
        Inl e \<Rightarrow> (Some e, w)
      | Inr rrs \<Rightarrow>
          wrap_err RfcQuery (sendMessage L r \<lparr>msgZone = rf_zoneName r, msgQuestion = UpdateInsert rrs, msgTsig = None\<rparr> w))"

definition rfc2136_RemoveRecord ::
    "('e, 'w) dns_library \<Rightarrow> RFC2136Provider \<Rightarrow> dns_record \<Rightarrow> 'w \<Rightarrow> 'e rfc2136_error option \<times> 'w" where
  "rfc2136_RemoveRecord L r d w =
     (case NewRR L (d_fqdn d @ '' 0 '' @ d_type d @ '' 0.0.0.0'') of
        Inl e \<Rightarrow> (Some (RfcBuildRR e), w)
      | Inr rr \<Rightarrow>
          wrap_err RfcQuery
            (sendMessage L r \<lparr>msgZone = rf_zoneName r, msgQuestion = UpdateRemoveRRset [rr], msgTsig = None\<rparr> w))"

definition rfc2136_UpdateRecord ::
    "('e, 'w) dns_library \<Rightarrow> RFC2136Provider \<Rightarrow> dns_record \<Rightarrow> 'w \<Rightarrow> 'e rfc2136_error option \<times> 'w" where
  "rfc2136_UpdateRecord L r = remove_then_add (rfc2136_RemoveRecord L r) (rfc2136_AddRecord L r)"

text \<open>The envelopes that carry an error are reported and skipped.\<close>

definition rfc2136_list ::
    "('e, 'w) dns_library \<Rightarrow> RFC2136Provider \<Rightarrow> 'w \<Rightarrow> ('e rfc2136_error + RR list) \<times> 'w" where
  "rfc2136_list L r w =
     wrap_res RfcTransfer
       (\<lambda>env. concat (map (\<lambda>e. case e of Inl _ \<Rightarrow> [] | Inr rrs \<Rightarrow> rrs) env))
       (TransferIn L (tsig_secret r)
          (sign_message L r \<lparr>msgZone = rf_zoneName r, msgQuestion = TransferAxfr, msgTsig = None\<rparr> w) (rf_nameserver r) w)"

text \<open>The type and the values of an RR, \<open>None\<close> for the ones the loop of \<open>GetRecords\<close> passes over.\<close>

definition rr_values :: "RR \<Rightarrow> (string \<times> string list) option" where
  "rr_values rr =
     (if rrClass rr \<noteq> ClassINET then None
      else case rrData rr of
             RrCNAME target \<Rightarrow> Some (''CNAME'', [target])
           | RrA ip \<Rightarrow> Some (''A'', [ip])
           | RrAAAA ip \<Rightarrow> Some (''AAAA'', [ip])
           | RrTXT txt \<Rightarrow> Some (''TXT'', txt)
           | RrOther \<Rightarrow> None)"

fun append_values :: "string \<Rightarrow> string \<Rightarrow> int \<Rightarrow> string list \<Rightarrow> dns_record list \<Rightarrow> dns_record list" where
  "append_values rrFqdn rrType rrTTL rrValues [] =
     [\<lparr>d_fqdn = rrFqdn, d_records = rrValues, d_type = rrType, d_ttl = rrTTL\<rparr>]"
| "append_values rrFqdn rrType rrTTL rrValues (existing # records) =
     (if d_fqdn existing = rrFqdn \<and> d_type existing = rrType
      then existing\<lparr>d_records := d_records existing @ rrValues\<rparr> # records
      else existing # append_values rrFqdn rrType rrTTL rrValues records)"

definition rfc2136_step :: "RR \<Rightarrow> dns_record list \<Rightarrow> dns_record list" where
  "rfc2136_step rr records =
     (case rr_values rr of
        None \<Rightarrow> records
      | Some (rrType, rrValues) \<Rightarrow> append_values (rrName rr) rrType (rrTtl rr) rrValues records)"

definition rfc2136_GetRecords ::
    "('e, 'w) dns_library \<Rightarrow> RFC2136Provider \<Rightarrow> 'w \<Rightarrow> ('e rfc2136_error + dns_record list) \<times> 'w" where
  "rfc2136_GetRecords L r w = wrap_res id (\<lambda>rrs. fold rfc2136_step rrs []) (rfc2136_list L r w)"

definition rfc2136_provider ::
    "('e, 'w) dns_library \<Rightarrow> (string \<Rightarrow> string) \<Rightarrow> env \<Rightarrow> ('e rfc2136_error, RFC2136Provider \<times> 'w) provider" where
  "rfc2136_provider L fqdn env =
     \<lparr>pInit = (\<lambda>root. init_on (\<lambda>r w. case rfc2136_Init fqdn env root r of (e, r') \<Rightarrow> (e, r', w))), pGetName = ''RFC2136'',
      pHealthCheck = call_on (rfc2136_HealthCheck L),
      pAddRecord = (\<lambda>d. call_on (\<lambda>r. rfc2136_AddRecord L r d)),
      pRemoveRecord = (\<lambda>d. call_on (\<lambda>r. rfc2136_RemoveRecord L r d)),
      pUpdateRecord = (\<lambda>d. call_on (\<lambda>r. rfc2136_UpdateRecord L r d)),
      pGetRecords = call_on (rfc2136_GetRecords L)\<rparr>"

subsection \<open>Lemmas: grouping\<close>

text \<open>The values of a set of RRs, with their name and type.\<close>

definition rr_pairs :: "RR set \<Rightarrow> ((string \<times> string) \<times> string) set" where
  "rr_pairs S = (\<Union>rr \<in> S. case rr_values rr of None \<Rightarrow> {} | Some (t, vs) \<Rightarrow> Pair (rrName rr, t) ` set vs)"

definition rfc2136_zone :: "('w \<Rightarrow> RR set) \<Rightarrow> 'w \<Rightarrow> (string \<times> string) \<rightharpoonup> string set" where
  "rfc2136_zone rrs w = store_view fst snd (rr_pairs (rrs w))"

lemma store_view_pairs:
  "store_view fst snd P k = (if {v. (k, v) \<in> P} = {} then None else Some {v. (k, v) \<in> P})"
proof -
  have "snd ` {r \<in> P. fst r = k} = {v. (k, v) \<in> P}" by force
  then show ?thesis by (simp add: store_view_values)
qed

lemma rr_pairs_one:
  "{v. (k, v) \<in> rr_pairs {rr}} =
     (case rr_values rr of None \<Rightarrow> {} | Some (t, vs) \<Rightarrow> if k = (rrName rr, t) then set vs else {})"
  by (auto simp: rr_pairs_def split: option.splits if_splits)

lemma rr_pairs_iff:
  "p \<in> rr_pairs S \<longleftrightarrow> (\<exists>rr \<in> S. \<exists>t vs. rr_values rr = Some (t, vs) \<and> fst p = (rrName rr, t) \<and> snd p \<in> set vs)"
  by (cases p) (force simp: rr_pairs_def split: option.splits)

lemma rr_pairs_Un: "rr_pairs (S \<union> T) = rr_pairs S \<union> rr_pairs T"
  by (auto simp: rr_pairs_def)

lemma append_values_keys:
  "map rkey (append_values f t ttl vs rs) = (if (f, t) \<in> rkey ` set rs then map rkey rs else map rkey rs @ [(f, t)])"
  by (induction rs) (auto simp: rkey_def)

lemma append_values_view:
  "rview (append_values f t ttl vs rs) k =
     (if k = (f, t) then Some ((case rview rs k of None \<Rightarrow> {} | Some s \<Rightarrow> s) \<union> set vs) else rview rs k)"
  by (induction rs) (auto simp: rview_def rkey_def)

definition has_values :: "RR \<Rightarrow> bool" where
  "has_values rr = (case rr_values rr of None \<Rightarrow> True | Some (t, vs) \<Rightarrow> vs \<noteq> [])"

lemma rfc2136_fold:
  assumes "list_all has_values rrs" and "distinct (map rkey rs)"
  shows "distinct (map rkey (fold rfc2136_step rrs rs))
    \<and> rview (fold rfc2136_step rrs rs) k =
       (let vs = {v. (k, v) \<in> rr_pairs (set rrs)}
        in if vs = {} then rview rs k else Some ((case rview rs k of None \<Rightarrow> {} | Some s \<Rightarrow> s) \<union> vs))"
  using assms
proof (induction rrs arbitrary: rs)
  case (Cons rr rrs)
  have step: "distinct (map rkey (rfc2136_step rr rs))"
    using Cons.prems(2) by (auto simp: rfc2136_step_def append_values_keys split: option.splits)
  have pairs: "{v. (k, v) \<in> rr_pairs (set (rr # rrs))} = {v. (k, v) \<in> rr_pairs {rr}} \<union> {v. (k, v) \<in> rr_pairs (set rrs)}"
    by (auto simp: rr_pairs_def)
  have one: "rview (rfc2136_step rr rs) k =
      (if {v. (k, v) \<in> rr_pairs {rr}} = {} then rview rs k
       else Some ((case rview rs k of None \<Rightarrow> {} | Some s \<Rightarrow> s) \<union> {v. (k, v) \<in> rr_pairs {rr}}))"
    using Cons.prems(1) by (auto simp: has_values_def rfc2136_step_def rr_pairs_one append_values_view split: option.splits if_splits)
  have "list_all has_values rrs" using Cons.prems(1) by simp
  from Cons.IH [OF this step] show ?case
    unfolding pairs by (simp add: one Let_def Un_assoc split: option.splits)
qed (simp add: rr_pairs_def)

lemma rfc2136_group_view:
  assumes "list_all has_values rrs"
  shows "distinct (map rkey (fold rfc2136_step rrs []))
    \<and> rview (fold rfc2136_step rrs []) = store_view fst snd (rr_pairs (set rrs))"
proof -
  have "rview (fold rfc2136_step rrs []) k = store_view fst snd (rr_pairs (set rrs)) k" for k
    using rfc2136_fold [of rrs "[]" k, OF assms] by (simp add: Let_def rview_def store_view_pairs)
  with rfc2136_fold [of rrs "[]", OF assms] show ?thesis by auto
qed

subsection \<open>What the library and the server document\<close>

text \<open>
  \<open>rrs w\<close> are the RRs of the zone on the server, \<open>named\<close> the names in the form the library reads and
  prints, \<open>valid\<close> the names, types and values of records. A transfer is complete: the code passes
  over an envelope with an error, so nothing can be said of its listing when the transfer breaks off.
  An update takes effect as a whole or not at all, and a positive answer means that it did; without
  one it may have.
\<close>

definition rfc2136_storable :: "(string \<Rightarrow> string \<Rightarrow> string \<Rightarrow> bool) \<Rightarrow> dns_record \<Rightarrow> bool" where
  "rfc2136_storable valid d = (d_records d \<noteq> [] \<and> d_type d \<in> {''A'', ''AAAA'', ''CNAME'', ''TXT''}
     \<and> list_all (valid (d_fqdn d) (d_type d)) (d_records d))"

locale rfc2136_server =
  fixes L :: "('e, 'w) dns_library"
    and r :: RFC2136Provider
    and ok :: "'w \<Rightarrow> bool"
    and rrs :: "'w \<Rightarrow> RR set"
    and named :: "string \<Rightarrow> bool"
    and valid :: "string \<Rightarrow> string \<Rightarrow> string \<Rightarrow> bool"
  assumes texts: "ok w \<Longrightarrow> rr \<in> rrs w \<Longrightarrow> rr_values rr = Some (t, vs) \<Longrightarrow> named (rrName rr) \<and> vs \<noteq> []"
    and valid_name: "valid n t v \<Longrightarrow> named n"
    and parses: "valid n t v \<Longrightarrow> NewRR L (n @ '' '' @ FormatInt ttl @ '' '' @ t @ '' '' @ v) = Inr rr \<Longrightarrow>
          rrName rr = n \<and> rr_values rr = Some (t, [v])"
    and parses_set: "named n \<Longrightarrow> t \<in> {''A'', ''AAAA'', ''CNAME'', ''TXT''} \<Longrightarrow>
          NewRR L (n @ '' 0 '' @ t @ '' 0.0.0.0'') = Inr rr \<Longrightarrow> rrName rr = n \<and> (\<exists>vs. rr_values rr = Some (t, vs))"
    and transfer_frame: "ok w \<Longrightarrow>
          TransferIn L k \<lparr>msgZone = rf_zoneName r, msgQuestion = TransferAxfr, msgTsig = ts\<rparr> (rf_nameserver r) w = (res, w') \<Longrightarrow>
          ok w' \<and> rrs w' = rrs w"
    and transfer_all: "ok w \<Longrightarrow>
          TransferIn L k \<lparr>msgZone = rf_zoneName r, msgQuestion = TransferAxfr, msgTsig = ts\<rparr> (rf_nameserver r) w = (Inr env, w') \<Longrightarrow>
          \<exists>parts. env = map Inr parts \<and> set (concat parts) = rrs w"
    and insert_frame: "ok w \<Longrightarrow> (\<And>rr. rr \<in> set ins \<Longrightarrow> \<exists>t v. valid (rrName rr) t v \<and> rr_values rr = Some (t, [v])) \<Longrightarrow>
          Exchange L net k \<lparr>msgZone = rf_zoneName r, msgQuestion = UpdateInsert ins, msgTsig = ts\<rparr> (rf_nameserver r) w = (ans, w') \<Longrightarrow>
          ok w' \<and> (rr_pairs (rrs w') = rr_pairs (rrs w) \<or> rr_pairs (rrs w') = rr_pairs (rrs w) \<union> rr_pairs (set ins))"
    and insert_ok: "ok w \<Longrightarrow> (\<And>rr. rr \<in> set ins \<Longrightarrow> \<exists>t v. valid (rrName rr) t v \<and> rr_values rr = Some (t, [v])) \<Longrightarrow>
          Exchange L net k \<lparr>msgZone = rf_zoneName r, msgQuestion = UpdateInsert ins, msgTsig = ts\<rparr> (rf_nameserver r) w = (Inr code, w') \<Longrightarrow>
          code \<noteq> None \<and> (code = Some RcodeSuccess \<longrightarrow> rr_pairs (rrs w') = rr_pairs (rrs w) \<union> rr_pairs (set ins))"
    and remove_frame: "ok w \<Longrightarrow> rr_values rr = Some (t, vs) \<Longrightarrow>
          Exchange L net k \<lparr>msgZone = rf_zoneName r, msgQuestion = UpdateRemoveRRset [rr], msgTsig = ts\<rparr> (rf_nameserver r) w = (ans, w') \<Longrightarrow>
          ok w' \<and> (rr_pairs (rrs w') = rr_pairs (rrs w)
            \<or> rr_pairs (rrs w') = {p \<in> rr_pairs (rrs w). fst p \<noteq> (rrName rr, t)})"
    and remove_ok: "ok w \<Longrightarrow> rr_values rr = Some (t, vs) \<Longrightarrow>
          Exchange L net k \<lparr>msgZone = rf_zoneName r, msgQuestion = UpdateRemoveRRset [rr], msgTsig = ts\<rparr> (rf_nameserver r) w = (Inr code, w') \<Longrightarrow>
          code \<noteq> None \<and> (code = Some RcodeSuccess \<longrightarrow> rr_pairs (rrs w') = {p \<in> rr_pairs (rrs w). fst p \<noteq> (rrName rr, t)})"
begin

lemma send_result:
  assumes "sendMessage L r \<lparr>msgZone = z, msgQuestion = q, msgTsig = None\<rparr> w = (e, w')"
  obtains net ts ans where
    "Exchange L net (tsig_secret r) \<lparr>msgZone = z, msgQuestion = q, msgTsig = ts\<rparr> (rf_nameserver r) w = (ans, w')"
    and "e = None \<longrightarrow> ans = Inr None \<or> ans = Inr (Some RcodeSuccess)"
proof -
  let ?m = "sign_message L r \<lparr>msgZone = z, msgQuestion = q, msgTsig = None\<rparr> w"
  have m: "?m = \<lparr>msgZone = z, msgQuestion = q, msgTsig = if rf_insecure r then None else Some (rf_tsigKeyName r, Now L w)\<rparr>"
    by (simp add: sign_message_def)
  let ?net = "if msgLen L ?m > udpMaxMsgSize then Tcp else Udp"
  obtain ans w1 where call: "Exchange L ?net (tsig_secret r) ?m (rf_nameserver r) w = (ans, w1)" by fastforce
  then have "w1 = w'" "e = None \<longrightarrow> ans = Inr None \<or> ans = Inr (Some RcodeSuccess)"
    using assms by (auto simp: sendMessage_def Let_def split: sum.splits option.splits if_splits)
  with call m that show ?thesis by metis
qed

lemma built:
  assumes "list_all (valid (d_fqdn d) (d_type d)) vs" and "build_rrs L d vs = Inr ins"
  shows "(\<forall>rr \<in> set ins. rrName rr = d_fqdn d \<and> (\<exists>v. valid (d_fqdn d) (d_type d) v \<and> rr_values rr = Some (d_type d, [v])))
    \<and> rr_pairs (set ins) = Pair (rkey d) ` set vs"
  using assms
proof (induction vs arbitrary: ins)
  case (Cons v vs)
  then obtain rr rest where rr: "NewRR L (d_fqdn d @ '' '' @ FormatInt (d_ttl d) @ '' '' @ d_type d @ '' '' @ v) = Inr rr"
    "build_rrs L d vs = Inr rest" "ins = rr # rest"
    by (auto simp: map_sum_def split: sum.splits)
  have v: "valid (d_fqdn d) (d_type d) v" using Cons.prems(1) by simp
  note parsed = parses [OF v rr(1)]
  have "rr_pairs (set ins) = Pair (rkey d) ` {v} \<union> rr_pairs (set rest)"
    using parsed by (simp add: rr(3) rr_pairs_def rkey_def)
  with Cons.IH [OF _ rr(2)] Cons.prems(1) parsed v show ?case by (auto simp: rr(3))
qed (simp add: rr_pairs_def)

lemma known_key:
  assumes "ok w" and "rfc2136_storable valid d \<or> rfc2136_zone rrs w (rkey d) \<noteq> None"
  shows "named (d_fqdn d) \<and> d_type d \<in> {''A'', ''AAAA'', ''CNAME'', ''TXT''}"
  using assms(2)
proof
  assume "rfc2136_storable valid d"
  then show ?thesis using valid_name by (cases "d_records d") (auto simp: rfc2136_storable_def)
next
  assume "rfc2136_zone rrs w (rkey d) \<noteq> None"
  then obtain v where "(rkey d, v) \<in> rr_pairs (rrs w)" by (auto simp: rfc2136_zone_def store_view_pairs split: if_splits)
  then obtain rr t vs where "rr \<in> rrs w" "rr_values rr = Some (t, vs)" "rkey d = (rrName rr, t)"
    by (auto simp: rr_pairs_def split: option.splits)
  with texts [OF assms(1)] show ?thesis
    by (auto simp: rkey_def rr_values_def split: if_splits rr_data.splits)
qed

lemma add_effect:
  assumes "ok w" and "rfc2136_storable valid d" and "rfc2136_AddRecord L r d w = (e, w')"
  shows "ok w' \<and> (rr_pairs (rrs w') = rr_pairs (rrs w) \<or> rr_pairs (rrs w') = rr_pairs (rrs w) \<union> Pair (rkey d) ` set (d_records d))
    \<and> (e = None \<longrightarrow> rr_pairs (rrs w') = rr_pairs (rrs w) \<union> Pair (rkey d) ` set (d_records d))"
proof (cases "build_rrs L d (d_records d)")
  case (Inl x)
  with assms show ?thesis by (auto simp: rfc2136_AddRecord_def)
next
  case (Inr ins)
  have vals: "list_all (valid (d_fqdn d) (d_type d)) (d_records d)" using assms(2) by (simp add: rfc2136_storable_def)
  note b = built [OF vals Inr]
  have ins: "\<exists>t v. valid (rrName rr) t v \<and> rr_values rr = Some (t, [v])" if "rr \<in> set ins" for rr
    using b that by metis
  from assms(3) Inr obtain e' where
    sent: "sendMessage L r \<lparr>msgZone = rf_zoneName r, msgQuestion = UpdateInsert ins, msgTsig = None\<rparr> w = (e', w')"
    "e = map_option RfcQuery e'" by (auto simp: rfc2136_AddRecord_def wrap_err_def prod_eq_iff)
  from send_result [OF sent(1)] obtain net ts ans where
    call: "Exchange L net (tsig_secret r) \<lparr>msgZone = rf_zoneName r, msgQuestion = UpdateInsert ins, msgTsig = ts\<rparr> (rf_nameserver r) w = (ans, w')"
    "e' = None \<longrightarrow> ans = Inr None \<or> ans = Inr (Some RcodeSuccess)" .
  have "e = None \<longrightarrow> rr_pairs (rrs w') = rr_pairs (rrs w) \<union> rr_pairs (set ins)"
  proof
    assume "e = None"
    with call(2) sent(2) obtain code where code: "ans = Inr code" "code = None \<or> code = Some RcodeSuccess" by auto
    from insert_ok [OF assms(1) ins call(1) [unfolded code(1)]] code(2)
    show "rr_pairs (rrs w') = rr_pairs (rrs w) \<union> rr_pairs (set ins)" by auto
  qed
  with insert_frame [OF assms(1) ins call(1)] b show ?thesis by simp
qed

lemma remove_effect:
  assumes "ok w" and "rfc2136_storable valid d \<or> rfc2136_zone rrs w (rkey d) \<noteq> None" and "rfc2136_RemoveRecord L r d w = (e, w')"
  shows "ok w' \<and> (rr_pairs (rrs w') = rr_pairs (rrs w) \<or> rr_pairs (rrs w') = {p \<in> rr_pairs (rrs w). fst p \<noteq> rkey d})
    \<and> (e = None \<longrightarrow> rr_pairs (rrs w') = {p \<in> rr_pairs (rrs w). fst p \<noteq> rkey d})"
proof (cases "NewRR L (d_fqdn d @ '' 0 '' @ d_type d @ '' 0.0.0.0'')")
  case (Inl x)
  with assms show ?thesis by (auto simp: rfc2136_RemoveRecord_def)
next
  case (Inr rr)
  from parses_set [OF _ _ Inr] known_key [OF assms(1,2)] obtain vs where
    rr: "rrName rr = d_fqdn d" "rr_values rr = Some (d_type d, vs)" by auto
  from assms(3) Inr obtain e' where
    sent: "sendMessage L r \<lparr>msgZone = rf_zoneName r, msgQuestion = UpdateRemoveRRset [rr], msgTsig = None\<rparr> w = (e', w')"
    "e = map_option RfcQuery e'" by (auto simp: rfc2136_RemoveRecord_def wrap_err_def prod_eq_iff)
  from send_result [OF sent(1)] obtain net ts ans where
    call: "Exchange L net (tsig_secret r) \<lparr>msgZone = rf_zoneName r, msgQuestion = UpdateRemoveRRset [rr], msgTsig = ts\<rparr> (rf_nameserver r) w = (ans, w')"
    "e' = None \<longrightarrow> ans = Inr None \<or> ans = Inr (Some RcodeSuccess)" .
  have "e = None \<longrightarrow> rr_pairs (rrs w') = {p \<in> rr_pairs (rrs w). fst p \<noteq> (rrName rr, d_type d)}"
  proof
    assume "e = None"
    with call(2) sent(2) obtain code where code: "ans = Inr code" "code = None \<or> code = Some RcodeSuccess" by auto
    from remove_ok [OF assms(1) rr(2) call(1) [unfolded code(1)]] code(2)
    show "rr_pairs (rrs w') = {p \<in> rr_pairs (rrs w). fst p \<noteq> (rrName rr, d_type d)}" by auto
  qed
  with remove_frame [OF assms(1) rr(2) call(1)] rr(1) show ?thesis by (simp add: rkey_def)
qed

lemma get_zone:
  assumes "ok w" and "rfc2136_GetRecords L r w = (res, w')"
  shows "ok w' \<and> rrs w' = rrs w
    \<and> (\<forall>rs. res = Inr rs \<longrightarrow> distinct (map rkey rs) \<and> rview rs = rfc2136_zone rrs w)"
proof -
  obtain ans w1 where call: "TransferIn L (tsig_secret r) \<lparr>msgZone = rf_zoneName r, msgQuestion = TransferAxfr,
      msgTsig = if rf_insecure r then None else Some (rf_tsigKeyName r, Now L w)\<rparr> (rf_nameserver r) w = (ans, w1)" by fastforce
  then have w1: "w1 = w'" using assms(2)
    by (auto simp: rfc2136_GetRecords_def rfc2136_list_def wrap_res_def sign_message_def split: if_splits)
  have "distinct (map rkey rs) \<and> rview rs = rfc2136_zone rrs w" if "res = Inr rs" for rs
  proof -
    from that call assms(2) obtain env where env: "ans = Inr env"
      "rs = fold rfc2136_step (concat (map (\<lambda>e. case e of Inl _ \<Rightarrow> [] | Inr rrs \<Rightarrow> rrs) env)) []"
      by (auto simp: rfc2136_GetRecords_def rfc2136_list_def wrap_res_def sign_message_def map_sum_def
          split: if_splits sum.splits)
    from transfer_all [OF assms(1) call [unfolded env(1)]] obtain parts where
      parts: "env = map Inr parts" "set (concat parts) = rrs w" by auto
    have "list_all has_values (concat parts)"
      using texts [OF assms(1)] parts(2) by (auto simp: list_all_iff has_values_def split: option.splits)
    from rfc2136_group_view [OF this] parts show ?thesis by (simp add: env(2) comp_def rfc2136_zone_def)
  qed
  with transfer_frame [OF assms(1) call] w1 show ?thesis by blast
qed

lemma records:
  "remove_add ok (rfc2136_zone rrs) (rfc2136_GetRecords L r) (rfc2136_AddRecord L r) (rfc2136_RemoveRecord L r)
     (rfc2136_storable valid) (\<lambda>_. True)"
proof (unfold_locales, goal_cases)
  case (1 w res w')
  then show ?case using get_zone by (auto simp: rfc2136_zone_def)
next
  case (2 w rs w')
  then show ?case using get_zone by blast
next
  case (3 w d e w')
  then have "ok w'" "rr_pairs (rrs w') = rr_pairs (rrs w) \<or> rr_pairs (rrs w') = rr_pairs (rrs w) \<union> Pair (rkey d) ` set (d_records d)"
    using add_effect by blast+
  then have "store_view fst snd (rr_pairs (rrs w')) k = store_view fst snd (rr_pairs (rrs w)) k" if "k \<noteq> rkey d" for k
    using that by (intro store_view_cong) auto
  with \<open>ok w'\<close> show ?case by (simp add: rfc2136_zone_def)
next
  case (4 w d w')
  then have "rr_pairs (rrs w') = rr_pairs (rrs w) \<union> Pair (rkey d) ` set (d_records d)" using add_effect by blast
  with 4(3) have "{v. (rkey d, v) \<in> rr_pairs (rrs w')} = set (d_records d)"
    by (auto simp: rfc2136_zone_def store_view_pairs split: if_splits)
  with 4(2) show ?case by (simp add: rfc2136_zone_def store_view_pairs rfc2136_storable_def)
next
  case (5 w d e w')
  then have "ok w'" "rr_pairs (rrs w') = rr_pairs (rrs w) \<or> rr_pairs (rrs w') = {p \<in> rr_pairs (rrs w). fst p \<noteq> rkey d}"
    using remove_effect by blast+
  then have "store_view fst snd (rr_pairs (rrs w')) k = store_view fst snd (rr_pairs (rrs w)) k" if "k \<noteq> rkey d" for k
    using that by (intro store_view_cong) auto
  with \<open>ok w'\<close> show ?case by (simp add: rfc2136_zone_def)
next
  case (6 w d w')
  then have "rr_pairs (rrs w') = {p \<in> rr_pairs (rrs w). fst p \<noteq> rkey d}" using remove_effect by blast
  then show ?case by (simp add: rfc2136_zone_def store_view_pairs)
qed

end

lemmas rfc2136_methods = rfc2136_provider_def rfc2136_UpdateRecord_def call_on_pair

subsection \<open>The simulated server\<close>

text \<open>It keeps the RRs of the zone beside its SOA record; a call fails when \<open>sdFaults\<close> says so. The
  parser of the simulated library takes the four fields of a line.\<close>

record dns_server =
  sdRRs :: "RR list"
  sdFaults :: "bool list"

definition sd_faulty :: "dns_server \<Rightarrow> bool" where
  "sd_faulty w = (sdFaults w \<noteq> [] \<and> hd (sdFaults w))"

definition sd_tick :: "dns_server \<Rightarrow> dns_server" where
  "sd_tick w = w\<lparr>sdFaults := tl (sdFaults w)\<rparr>"

definition sd_soa :: RR where
  "sd_soa = \<lparr>rrName = ''ex.com.'', rrClass = ClassINET, rrTtl = 3600, rrData = RrOther\<rparr>"

definition sd_parse :: "string \<Rightarrow> string + RR" where
  "sd_parse s =
     (case Split s (CHR '' '') of
        [n, ttl, t, v] \<Rightarrow>
          (let mk = (\<lambda>data. Inr \<lparr>rrName = n, rrClass = ClassINET, rrTtl = decimal_value ttl, rrData = data\<rparr>) in
           if t = ''A'' then mk (RrA v) else if t = ''AAAA'' then mk (RrAAAA v)
           else if t = ''CNAME'' then mk (RrCNAME v) else if t = ''TXT'' then mk (RrTXT [v])
           else Inl ''unknown type'')
      | _ \<Rightarrow> Inl ''syntax error'')"

definition sd_update :: "dns_question \<Rightarrow> RR list \<Rightarrow> RR list" where
  "sd_update q rrs =
     (case q of
        UpdateInsert ins \<Rightarrow> rrs @ ins
      | UpdateRemoveRRset out \<Rightarrow>
          filter (\<lambda>x. \<not> list_ex (\<lambda>rr. rrName x = rrName rr \<and> map_option fst (rr_values x) = map_option fst (rr_values rr)) out) rrs
      | _ \<Rightarrow> rrs)"

definition sd_library :: "(string, dns_server) dns_library" where
  "sd_library =
     \<lparr>NewRR = sd_parse, msgLen = (\<lambda>m. 600), Now = (\<lambda>w. 0),
      Exchange = (\<lambda>_ _ m _ w.
        if sd_faulty w then (Inl ''timeout'', sd_tick w)
        else (Inr (Some RcodeSuccess), (sd_tick w)\<lparr>sdRRs := sd_update (msgQuestion m) (sdRRs w)\<rparr>)),
      TransferIn = (\<lambda>_ m _ w.
        if sd_faulty w then (Inl ''timeout'', sd_tick w)
        else (Inr [Inr [sd_soa], Inr (sdRRs w), Inr [sd_soa]], sd_tick w))\<rparr>"

definition sd_named :: "string \<Rightarrow> bool" where
  "sd_named n = (CHR '' '' \<notin> set n)"

definition sd_valid :: "string \<Rightarrow> string \<Rightarrow> string \<Rightarrow> bool" where
  "sd_valid n t v = (sd_named n \<and> sd_named v \<and> t \<in> {''A'', ''AAAA'', ''CNAME'', ''TXT''})"

definition sd_ok :: "dns_server \<Rightarrow> bool" where
  "sd_ok w = list_all (\<lambda>rr. sd_named (rrName rr) \<and> has_values rr) (sdRRs w)"

definition sd_rrs :: "dns_server \<Rightarrow> RR set" where
  "sd_rrs w = insert sd_soa (set (sdRRs w))"

lemma FormatInt_no_blank: "CHR '' '' \<notin> set (FormatInt i)"
proof -
  have digit: "char_of (48 + k) \<noteq> CHR '' ''" if "k < 10" for k :: nat
  proof
    assume "char_of (48 + k) = CHR '' ''"
    then have "of_char (char_of (48 + k)) = (of_char (CHR '' '') :: nat)" by (rule arg_cong)
    with that show False by simp
  qed
  have "CHR '' '' \<notin> set (FormatNat n)" for n
  proof (induction n rule: FormatNat.induct)
    case (1 n)
    then show ?case using digit [of n] digit [of "n mod 10"] by (subst FormatNat.simps) auto
  qed
  then show ?thesis by (simp add: FormatInt_def)
qed

lemma sd_parse_line:
  assumes "sd_named n" "sd_named ttl" "sd_named v" and "t \<in> {''A'', ''AAAA'', ''CNAME'', ''TXT''}"
  shows "\<exists>rr. sd_parse (n @ '' '' @ ttl @ '' '' @ t @ '' '' @ v) = Inr rr \<and> rrName rr = n \<and> rr_values rr = Some (t, [v])"
proof -
  have "Split (n @ '' '' @ ttl @ '' '' @ t @ '' '' @ v) (CHR '' '') = [n, ttl, t, v]"
    using assms by (auto simp: sd_named_def Split_first Split_none)
  then show ?thesis using assms(4) by (auto simp: sd_parse_def rr_values_def)
qed

lemma rr_values_soa: "rr_values sd_soa = None"
  by (simp add: sd_soa_def rr_values_def)

lemma rr_pairs_soa [simp]: "rr_pairs (insert sd_soa S) = rr_pairs S"
  by (simp add: rr_pairs_def rr_values_soa)

lemma sd_removed:
  assumes "rr_values rr = Some (t, vs)"
  shows "rr_pairs (set (sd_update (UpdateRemoveRRset [rr]) rrs)) = {p \<in> rr_pairs (set rrs). fst p \<noteq> (rrName rr, t)}"
proof -
  have kept: "x \<in> set (sd_update (UpdateRemoveRRset [rr]) rrs) \<longleftrightarrow> x \<in> set rrs \<and> (rrName x, t') \<noteq> (rrName rr, t)"
    if "rr_values x = Some (t', vs')" for x t' vs'
    using that assms by (auto simp: sd_update_def)
  show ?thesis
  proof (intro set_eqI iffI)
    fix p assume "p \<in> rr_pairs (set (sd_update (UpdateRemoveRRset [rr]) rrs))"
    then show "p \<in> {p \<in> rr_pairs (set rrs). fst p \<noteq> (rrName rr, t)}"
      unfolding rr_pairs_iff mem_Collect_eq using kept by metis
  next
    fix p assume "p \<in> {p \<in> rr_pairs (set rrs). fst p \<noteq> (rrName rr, t)}"
    then show "p \<in> rr_pairs (set (sd_update (UpdateRemoveRRset [rr]) rrs))"
      unfolding rr_pairs_iff mem_Collect_eq using kept by metis
  qed
qed

interpretation sd_sim: rfc2136_server sd_library r sd_ok sd_rrs sd_named sd_valid
  for r
proof (unfold_locales, goal_cases)
  case (1 w rr t vs)
  then show ?case
    by (auto simp: sd_ok_def sd_rrs_def rr_values_soa list_all_iff has_values_def)
next
  case (2 n t v)
  then show ?case by (simp add: sd_valid_def)
next
  case (3 n t v ttl rr)
  with sd_parse_line [of n "FormatInt ttl" v t] show ?case
    by (auto simp: sd_library_def sd_valid_def sd_named_def [of "FormatInt ttl"] FormatInt_no_blank)
next
  case (4 n t rr)
  with sd_parse_line [of n "''0''" "''0.0.0.0''" t] show ?case
    by (auto simp: sd_library_def sd_named_def [of "''0''"] sd_named_def [of "''0.0.0.0''"])
next
  case (5 w k ts res w')
  then show ?case by (auto simp: sd_library_def sd_ok_def sd_rrs_def sd_tick_def split: if_splits)
next
  case (6 w k ts env w')
  then show ?case
    by (intro exI [of _ "[[sd_soa], sdRRs w, [sd_soa]]"]) (auto simp: sd_library_def sd_rrs_def split: if_splits)
next
  case (7 w ins net k ts ans w')
  have "list_all (\<lambda>rr. sd_named (rrName rr) \<and> has_values rr) ins"
    using 7(2) by (force simp: list_all_iff has_values_def sd_valid_def)
  with 7 show ?case
    by (auto simp: sd_library_def sd_ok_def sd_rrs_def sd_tick_def sd_update_def rr_pairs_Un split: if_splits)
next
  case (8 w ins net k ts code w')
  then show ?case
    by (auto simp: sd_library_def sd_rrs_def sd_update_def rr_pairs_Un split: if_splits)
next
  case (9 w rr t vs net k ts ans w')
  have "list_all P (sd_update (UpdateRemoveRRset [rr]) rrs)" if "list_all P rrs" for P rrs
    using that by (auto simp: sd_update_def list_all_iff)
  moreover have "w' = (if sd_faulty w then sd_tick w
      else (sd_tick w)\<lparr>sdRRs := sd_update (UpdateRemoveRRset [rr]) (sdRRs w)\<rparr>)"
    using 9(3) by (simp add: sd_library_def split: if_splits)
  ultimately show ?case using 9(1) sd_removed [OF 9(2), of "sdRRs w"]
    by (simp add: sd_ok_def sd_rrs_def sd_tick_def)
next
  case (10 w rr t vs net k ts code w')
  then have "code = Some RcodeSuccess" "w' = (sd_tick w)\<lparr>sdRRs := sd_update (UpdateRemoveRRset [rr]) (sdRRs w)\<rparr>"
    by (auto simp: sd_library_def split: if_splits)
  with sd_removed [OF 10(2), of "sdRRs w"] show ?case by (simp add: sd_rrs_def)
qed

definition ex_rr :: "string \<Rightarrow> rr_data \<Rightarrow> RR" where
  "ex_rr n data = \<lparr>rrName = n, rrClass = ClassINET, rrTtl = 300, rrData = data\<rparr>"

definition ex_rfc2136 :: "RFC2136Provider \<times> dns_server" where
  "ex_rfc2136 =
     (\<lparr>rf_nameserver = ''ns:53'', rf_zoneName = ''ex.com.'', rf_tsigKeyName = ''k.'', rf_tsigSecret = ''s'', rf_insecure = False\<rparr>,
      \<lparr>sdRRs = [ex_rr ''mail.ex.com.'' (RrA ''10.9.9.9''), ex_rr ''old.s.e.ex.com.'' (RrA ''10.0.0.7''),
         ex_rr ''web.s.e.ex.com.'' (RrA ''10.0.0.8''), ex_rr ex_state_name (RrTXT [''old.s.e.ex.com.'']),
         ex_rr ex_state_name (RrTXT [''web.s.e.ex.com.''])],
       sdFaults = []\<rparr>)"

definition ex_rfc2136_run ::
    "(string rfc2136_error sync_error + metadata_dns_record list) \<times> RFC2136Provider \<times> dns_server" where
  "ex_rfc2136_run =
     UpdateProviderDnsRecords (rfc2136_provider sd_library id (\<lambda>_. [])) ''u1'' ex_cfg ex_desired ex_rfc2136"

subsection \<open>Properties\<close>



end
