(* ===== verification/Spec2Isabelle.thy ===== *)
theory Spec2Isabelle
  imports Startup Logsafe Change_Listener AliDNS Cloudflare DigitalOcean DNSimple Gandi Infoblox_Correct OVH PointHQ PowerDNS
    RFC2136
begin

text \<open>
  External DNS Sync is a daemon that keeps the records of a DNS zone in step with the services of
  a container platform. Once a second it asks the metadata service for its version (src/main.go);
  when that changes, it computes the records it wants from the services, containers and hosts of
  its environment (src/metadata/metadata.go, over the client in src/internal/metadata/), lists the
  zone of its DNS provider, and removes, adds and updates records until the zone is as wanted
  (src/external-dns.go). The names it owns are kept in the zone itself, as the values of one TXT
  record, the state RRSet. Providers implement one interface (src/providers/provider.go); there are
  eleven, of which the published program registers Route 53 (src/providers/route53/route53.go).
  Changed names are reported to the platform (src/platform_client.go,
  src/internal/platformapi/client.go), and a small HTTP server reports the health of all services
  (src/healthcheck.go).

  \<^bold>\<open>The model.\<close> Every Go function is one definition under its Go name (the methods of the providers
  but Route 53 with the name of the provider first); loops and blocks of long functions have
  definitions of their own. Go strings are byte strings, maps are association lists with distinct
  keys whose order is one iteration order, pointers are options, \<open>int\<close> is \<open>int\<close>. An error result is a
  value of an error datatype; what ends the process (\<open>logrus.Fatalf\<close>, a panic that nobody recovers)
  is a value of \<open>abort\<close>. Package variables are arguments or fields of a state. Code outside the
  repository is an argument: the clients of the DNS services, the HTTP transports, the JSON coders,
  \<open>url.Parse\<close> and \<open>URL.String\<close>, \<open>os.OpenInRoot\<close>, the clock and \<open>time.Sleep\<close>, each a function on a world.
  Log output and rate limiting are left out.

  \<^item> \<open>Prelude\<close>: strings, maps, sets and \<open>sort.Slice\<close> of Go, with the locale \<open>comparison\<close> of what
    \<open>sort.Slice\<close> asks of its comparison. \<open>Net_IP\<close>, \<open>Net_URL\<close>, \<open>Filepath\<close>: the parts of \<open>net\<close>, \<open>net/url\<close>
    and \<open>path/filepath\<close> that decide what is accepted.
  \<^item> \<open>Utils\<close> (src/utils/utils.go and the vendored template engine it calls): names, templates,
    the state RRSet. \<open>Config\<close> (src/config/config.go). \<open>Logsafe\<close> (src/internal/logsafe/value.go).
  \<^item> \<open>Provider\<close> (src/providers/provider.go): the interface as a record of functions, the
    registry, and the contract \<open>dns_provider\<close> that the synchronization relies on.
  \<^item> \<open>Sync_Engine\<close> (src/external-dns.go): all functions. \<open>Sync_Correct\<close>: a synchronization as the
    run of a plan; convergence, frame, idempotence, order and failures for every provider that
    keeps the contract.
  \<^item> \<open>Route53\<close> (src/providers/route53/route53.go): all methods. \<open>Route53_Correct\<close>: the documented
    behaviour of the service as the locale \<open>route53_service\<close>, that the provider over such a service
    keeps \<open>dns_provider\<close>, and an interpretation on a simulated hosted zone with paging and faults;
    and the same for services that carry out every valid request (\<open>reliable_route53\<close>,
    \<open>reliable_provider\<close>).
  \<^item> \<open>Record_Store\<close>: what the providers share whose service keeps single records: the loops, the
    grouping of single records into record sets, and the locales \<open>record_api\<close> (what a service
    documents), \<open>record_service\<close> (what a provider makes of it) and \<open>remove_add\<close> (what its operations
    promise), which lead to \<open>dns_provider\<close>. \<open>Record_Sim\<close>: a service of single records in memory, with
    faults, on which the providers' models are run.
  \<^item> \<open>Cloudflare\<close>, \<open>DNSimple\<close>, \<open>PointHQ\<close>, \<open>OVH\<close>, \<open>DigitalOcean\<close>, \<open>AliDNS\<close>, \<open>Gandi\<close>, \<open>PowerDNS\<close>, \<open>RFC2136\<close>,
    \<open>Infoblox\<close> with \<open>Infoblox_Correct\<close> (src/providers/): all methods of each provider, what its service
    documents, that the provider keeps the contract over such a service, and a simulated service.
  \<^item> \<open>Metadata_Types\<close>, \<open>Metadata_Client\<close> (src/internal/metadata/): the data, the requests and the
    connection test. \<open>Change_Listener\<close> (src/internal/metadata/change.go): the long-polling listeners.
    \<open>Metadata\<close> (src/metadata/metadata.go): the desired records. \<open>Metadata_Correct\<close>: their
    specification \<open>published\<close>, and the locale \<open>metadata_snapshot\<close> of a service that answers
    consistently during one pass.
  \<^item> \<open>Main_Loop\<close> (src/main.go, src/healthcheck.go): one iteration, runs, and the handler of the health
    check. \<open>Startup\<close>: flags, \<open>setEnv\<close>, the start of \<open>main\<close>, and the server of the health check.
  \<^item> \<open>Platform_API\<close> (src/internal/platformapi/client.go, src/platform_client.go): the client whose
    requests are bound to one origin.
  \<^item> \<open>Example_Desired\<close>, \<open>Example_Zone\<close>, \<open>Example_Store\<close>, \<open>Example_Metadata\<close>, \<open>Example_Run\<close>,
    \<open>Example_Platform\<close>: concrete data, on which the hypotheses of the properties are discharged by
    evaluation.

  \<^bold>\<open>What is shown.\<close> The properties below and in the component theories are numbered C1, C2, and so
  on. The first group is about whole synchronizations with Route 53: they converge, complete over a
  service that does its part, touch nothing else, do nothing the second time, stop at the first
  failure, and do not depend on the order of map iteration; along every run of the main loop the
  zone agrees with the cached records unless the last attempt failed. The second group is about what
  is wanted: the desired records are exactly those of the specification, and well formed. The third
  is about the other providers: a synchronization with each of them that succeeds leaves the zone as
  wanted; the versions of Gandi make every operation all or nothing; a secret for Infoblox is read
  from below its directory only, and its listings of several pages lose records. The fourth is about
  the program and its clients: what an iteration does, that the loop is entered with everything set
  up, which answers are accepted, where credentials may go, how often is retried, that a listener
  reports every change once, and what the health server answers. The last is about the helpers:
  labels, templates, the configuration. That the registry, the state RRSet and log lines are right
  are lemmas of their theories.

  \<^bold>\<open>Loops and fuel.\<close> Every loop of the program is a total function. The retry loops double their pause
  up to a bound and are shown to make five attempts. The paging loops of Route 53, DigitalOcean,
  AliDNS and Infoblox could run forever if the service kept sending continuations; they take a number
  of pages and report that they are unfinished when these run out, and the properties of these
  providers say how many are enough: more than there are records, or one for each page. The
  listeners, which never return, run for a number of requests, and the property is about any number
  of answers. The endless main loop is the relation \<open>polls\<close> over its iterations.

  \<^bold>\<open>Assumptions on the services.\<close> \<open>route53_service\<close> covers zones without routing policies (one record
  set for each name and type) and the names and values that the service lists as they were sent:
  lower-case letters, digits, dashes, underscores and dots, with a final dot; values without quotes
  and backslashes. Nothing may be stored as an address record at the name of the state RRSet.
  DNSimple, OVH, PointHQ and Gandi are shown right below the root domain, whose own name they cannot
  send; DNSimple, for zones that fit in the first page, which is all the code reads; PowerDNS, for
  managed names with one type, because the code merges the types of a name; RFC 2136, for complete
  zone transfers, because the code ignores errors within them; Infoblox, for listings of one page
  without disabled records.

  \<^bold>\<open>Not modelled.\<close> The third-party packages below these interfaces, \<open>url.Parse\<close> and \<open>encoding/json\<close>,
  the settings of the logger other than its file, the acceptance of connections by the health
  server, and the concurrency of the health check with the loop, which share only the clients.
\<close>

section \<open>Synchronization with Route 53\<close>

text \<open>
  C1. After a synchronization with Route 53 that reports success, the zone holds, at every
  desired name, exactly the desired set of values (the state RRSet as TXT, the others as A),
  and nothing at every name the state RRSet claimed before the run and that is not desired.
\<close>
theorem sync_converges_route53:
  assumes "route53_service c zid ok sets listed"
    and "route53_inv c zid ok p"
    and "route53_zone sets p (StateFqdn u (RootDomainName cfg), ''A'') = None"
    and "desired_ok route53_storable (StateFqdn u (RootDomainName cfg)) desired"
    and "UpdateProviderDnsRecords (route53_provider sdk env fuel) u cfg desired p = (Inr updated, p')"
  shows "(\<forall>k v. map_of desired k = Some v \<longrightarrow>
            route53_zone sets p' (managed_key (StateFqdn u (RootDomainName cfg)) k)
              = Some (set (d_records (m_dns v))))
    \<and> (\<forall>k \<in> owned (StateFqdn u (RootDomainName cfg)) (route53_zone sets p). map_of desired k = None \<longrightarrow>
            route53_zone sets p' (managed_key (StateFqdn u (RootDomainName cfg)) k) = None)"
  using assms(3)
  by (intro dns_provider.sync_converges [OF route53_service.provider_contract [OF assms(1)] assms(2) _ assms(4,5)]) simp

theorem sync_converges_route53_witness:
  "route53_zone simSets (snd ex_run) (''web.s.e.ex.com.'', ''A'') = Some {''10.0.0.1'', ''10.0.0.2''}
   \<and> route53_zone simSets (snd ex_run) (''old.s.e.ex.com.'', ''A'') = None"
proof -
  obtain updated where run: "UpdateProviderDnsRecords (route53_provider ex_sdk (\<lambda>_. []) 5) ''u1'' ex_cfg
      ex_desired ex_state = (Inr updated, snd ex_run)"
    using ex_run_ok by (auto simp: ex_run_def ex_provider_def)
  note sync = sync_converges_route53 [OF sim.route53_service_axioms ex_inv _ _ run,
      unfolded ex_state_name_eq, OF ex_state_name_free ex_desired_ok]
  have web: "map_of ex_desired ''web.s.e.ex.com.'' = Some \<lparr>m_service = ''web'', m_stack = ''s'',
      m_dns = ex_rec ''web.s.e.ex.com.'' [''10.0.0.1'', ''10.0.0.2''] ''A''\<rparr>" by code_simp
  have old: "map_of ex_desired ''old.s.e.ex.com.'' = None"
    "''old.s.e.ex.com.'' \<in> owned ex_state_name (route53_zone simSets ex_state)" by code_simp+
  have keys: "managed_key ex_state_name ''web.s.e.ex.com.'' = (''web.s.e.ex.com.'', ''A'')"
    "managed_key ex_state_name ''old.s.e.ex.com.'' = (''old.s.e.ex.com.'', ''A'')" by code_simp+
  show ?thesis
    using sync [THEN conjunct1, rule_format, OF web] sync [THEN conjunct2, rule_format, OF old(2,1)]
    by (simp add: keys ex_rec_def)
qed

text \<open>
  C2. A synchronization with Route 53, successful or not, changes no record outside the desired
  names and the names the state RRSet claims: neither another name, nor another type at a
  managed name.
\<close>
theorem sync_frame_route53:
  assumes "route53_service c zid ok sets listed"
    and "route53_inv c zid ok p"
    and "route53_zone sets p (StateFqdn u (RootDomainName cfg), ''A'') = None"
    and "desired_ok route53_storable (StateFqdn u (RootDomainName cfg)) desired"
    and "UpdateProviderDnsRecords (route53_provider sdk env fuel) u cfg desired p = (res, p')"
    and "key \<notin> managed_key (StateFqdn u (RootDomainName cfg))
           ` (dom (map_of desired) \<union> owned (StateFqdn u (RootDomainName cfg)) (route53_zone sets p))"
  shows "route53_inv c zid ok p' \<and> route53_zone sets p' key = route53_zone sets p key"
  using assms(3)
  by (intro dns_provider.sync_frame [OF route53_service.provider_contract [OF assms(1)] assms(2) _ assms(4-6)]) simp

theorem sync_frame_route53_witness:
  "route53_zone simSets (snd ex_run) (''mail.ex.com.'', ''A'') = Some {''10.9.9.9''}"
proof -
  have run: "UpdateProviderDnsRecords (route53_provider ex_sdk (\<lambda>_. []) 5) ''u1'' ex_cfg
      ex_desired ex_state = (fst ex_run, snd ex_run)" by (simp add: ex_run_def ex_provider_def)
  have "''mail.ex.com.'' \<notin> fst ` set ex_desired"
    and "''mail.ex.com.'' \<notin> owned ex_state_name (route53_zone simSets ex_state)" by code_simp+
  then have "(''mail.ex.com.'', ''A'') \<notin> managed_key ex_state_name
      ` (dom (map_of ex_desired) \<union> owned ex_state_name (route53_zone simSets ex_state))"
    by (auto simp: managed_key_def dom_map_of_keys split: if_splits)
  from sync_frame_route53 [OF sim.route53_service_axioms ex_inv _ _ run,
      unfolded ex_state_name_eq, OF ex_state_name_free ex_desired_ok this]
  have "route53_zone simSets (snd ex_run) (''mail.ex.com.'', ''A'') =
      route53_zone simSets ex_state (''mail.ex.com.'', ''A'')" by simp
  also have "\<dots> = Some {''10.9.9.9''}" by code_simp
  finally show ?thesis .
qed

text \<open>
  C4. Over a Route 53 service that carries out what it should, a synchronization completes: the
  paging ends, no change is refused (records that go are deleted as they were listed, with their
  TTL and all values), and the zone then holds the desired values. It needs desired records with
  valid values, a state RRSet as this program writes it, and a bound on the pages that exceeds
  the number of record sets.
\<close>
theorem sync_completes_route53:
  assumes "reliable_route53 c zid ok sets listed accepted"
    and "route53_inv c zid ok p" and "length (sets (world p)) < fuel"
    and "route53_zone sets p (StateFqdn u (RootDomainName cfg), ''A'') = None"
    and "desired_ok route53_storable (StateFqdn u (RootDomainName cfg)) desired"
    and "\<forall>k v. map_of desired k = Some v \<longrightarrow> accepted (m_dns v) \<and> d_records (m_dns v) \<noteq> []"
    and "\<forall>s. lookup_set (sets (world p)) (StateFqdn u (RootDomainName cfg), ''TXT'') = Some s \<longrightarrow>
           (\<exists>r. route53_storable r \<and> s = change_set r)"
  shows "\<exists>updated p'. UpdateProviderDnsRecords (route53_provider sdk env fuel) u cfg desired p = (Inr updated, p')
    \<and> route53_inv c zid ok p'
    \<and> (\<forall>k v. map_of desired k = Some v \<longrightarrow>
         route53_zone sets p' (managed_key (StateFqdn u (RootDomainName cfg)) k) = Some (set (d_records (m_dns v))))"
proof -
  have service: "route53_service c zid ok sets listed" using assms(1) by (rule reliable_route53.axioms)
  from reliable_route53.route53_sync_succeeds [OF assms] obtain updated p' where
    run: "UpdateProviderDnsRecords (route53_provider sdk env fuel) u cfg desired p = (Inr updated, p')" by blast
  note provider = route53_service.provider_contract [OF service]
  have zone: "manageable (\<lambda>_. True) (StateFqdn u (RootDomainName cfg)) (route53_zone sets p)" using assms(4) by simp
  from dns_provider.sync_converges [OF provider assms(2) zone assms(5) run]
    dns_provider.sync_keeps [OF provider assms(2) zone assms(5) run] run
  show ?thesis by blast
qed

theorem sync_completes_route53_witness:
  "\<exists>updated p'. ex_run = (Inr updated, p')
     \<and> route53_zone simSets p' (''api.s.e.ex.com.'', ''A'') = Some {''10.0.0.3''}"
proof -
  have inv: "route53_inv (simulated ex_zone) ''Z1'' sim_reliable ex_state"
  proof -
    have "sim_reliable ex_world" by code_simp
    then show ?thesis by (simp add: route53_inv_def ex_state_def)
  qed
  have few: "length (simSets (world ex_state)) < 5" by code_simp
  have "list_all (\<lambda>(k, v). d_records (m_dns v) \<noteq> []) ex_desired" by code_simp
  then have vals: "\<forall>k v. map_of ex_desired k = Some v \<longrightarrow> True \<and> d_records (m_dns v) \<noteq> []"
    by (auto simp: list_all_iff dest!: map_of_SomeD)
  let ?st = "ex_rec ex_state_name [''old.s.e.ex.com.'', ''web.s.e.ex.com.''] ''TXT''"
  have "lookup_set (simSets (world ex_state)) (ex_state_name, ''TXT'') = Some (change_set ?st)"
    and "route53_storable ?st" by code_simp+
  then have state: "\<forall>s. lookup_set (simSets (world ex_state)) (ex_state_name, ''TXT'') = Some s \<longrightarrow>
      (\<exists>r. route53_storable r \<and> s = change_set r)" by auto
  have api: "map_of ex_desired ''api.s.e.ex.com.'' = Some \<lparr>m_service = ''api'', m_stack = ''s'',
      m_dns = ex_rec ''api.s.e.ex.com.'' [''10.0.0.3''] ''A''\<rparr>" by code_simp
  have key: "managed_key ex_state_name ''api.s.e.ex.com.'' = (''api.s.e.ex.com.'', ''A'')" by code_simp
  from sync_completes_route53 [OF quiet.reliable_route53_axioms inv few, of "''u1''" ex_cfg ex_desired ex_sdk "\<lambda>_. []",
      unfolded ex_state_name_eq, OF ex_state_name_free ex_desired_ok vals state]
  obtain updated p' where "ex_run = (Inr updated, p')"
    and "route53_zone simSets p' (managed_key ex_state_name ''api.s.e.ex.com.'') = Some (set [''10.0.0.3''])"
    using api by (auto simp: ex_run_def ex_provider_def ex_rec_def)
  with key show ?thesis by auto
qed

text \<open>
  C5. Synchronizing again with the same desired records, after a run that succeeded, issues no
  change: the second run reads the zone once and reports an empty list, or the read error.
\<close>
theorem sync_idempotent_route53:
  assumes "route53_service c zid ok sets listed"
    and "route53_inv c zid ok p"
    and "route53_zone sets p (StateFqdn u (RootDomainName cfg), ''A'') = None"
    and "desired_ok route53_storable (StateFqdn u (RootDomainName cfg)) desired"
    and "closed_state (StateFqdn u (RootDomainName cfg)) desired"
    and "UpdateProviderDnsRecords (route53_provider sdk env fuel) u cfg desired p = (Inr updated, p')"
  shows "UpdateProviderDnsRecords (route53_provider sdk env fuel) u cfg desired p' =
           (case GetRecords fuel p' of (Inl e, q) \<Rightarrow> (Inl (ReadError e), q) | (Inr _, q) \<Rightarrow> (Inr [], q))"
  using dns_provider.sync_idempotent [OF route53_service.provider_contract [OF assms(1)] assms(2) _ assms(4-6)] assms(3)
  by (simp add: route53_provider_def)

theorem sync_idempotent_route53_witness:
  "fst (UpdateProviderDnsRecords (route53_provider ex_sdk (\<lambda>_. []) 5) ''u1'' ex_cfg ex_desired (snd ex_run)) = Inr []"
proof -
  obtain updated where run: "UpdateProviderDnsRecords (route53_provider ex_sdk (\<lambda>_. []) 5) ''u1'' ex_cfg
      ex_desired ex_state = (Inr updated, snd ex_run)"
    using ex_run_ok by (auto simp: ex_run_def ex_provider_def)
  have "isl (fst (GetRecords 5 (snd ex_run))) = False" by code_simp
  with sync_idempotent_route53 [OF sim.route53_service_axioms ex_inv _ _ _ run,
      unfolded ex_state_name_eq, OF ex_state_name_free ex_desired_ok ex_closed]
  show ?thesis by (simp add: isl_def split: prod.splits sum.splits)
qed

section \<open>Reading a hosted zone\<close>

text \<open>
  C10. \<open>GetRecords\<close> of the Route 53 provider returns the records of the whole hosted zone, across
  any number of pages, in the order of the service, without the incomplete and proprietary
  record sets, and changes nothing; it asks for at most one page per record set and one more,
  so that many pages are enough.
\<close>
theorem GetRecords_complete:
  assumes "route53_service c zid ok sets listed" and "route53_inv c zid ok p"
    and "GetRecords fuel p = (res, p')"
  shows "route53_inv c zid ok p' \<and> sets (world p') = sets (world p)
    \<and> (\<forall>rs. res = Inr rs \<longrightarrow> rs = sets_records (sets (world p)))
    \<and> (length (sets (world p)) < fuel \<longrightarrow> res \<noteq> Inl Unfinished)"
  using route53_service.GetRecords_sound [OF assms] route53_service.GetRecords_finishes [OF assms] by blast

theorem GetRecords_complete_witness:
  "\<exists>p'. GetRecords 5 ex_state = (Inr (sets_records (simSets ex_world)), p')"
proof -
  have "isl (fst (GetRecords 5 ex_state)) = False" by code_simp
  then obtain rs where run: "GetRecords 5 ex_state = (Inr rs, snd (GetRecords 5 ex_state))"
    by (metis isl_def sum.exhaust prod.collapse)
  moreover have "world ex_state = ex_world" by (simp add: ex_state_def)
  ultimately show ?thesis
    using GetRecords_complete [OF sim.route53_service_axioms ex_inv run] by metis
qed

text \<open>
  C32. A record that the Route 53 provider sends is read back as it was: the quotes around TXT
  values are put on and taken off, and name, type, TTL and the order of the values are kept.
\<close>
theorem record_roundtrip:
  assumes "route53_storable r"
  shows "sets_records [change_set r] = [r] \<and> set_key (change_set r) = rkey r"
proof -
  have "set_record (change_set r) = Some r"
    using assms by (intro set_record_change_set) (auto simp: route53_storable_def)
  then show ?thesis by (simp add: sets_records_def List.map_filter_def)
qed

theorem record_roundtrip_witness:
  "sets_records [change_set (ex_rec ex_state_name [''a.ex.com.'', ''b.ex.com.''] ''TXT'')]
     = [ex_rec ex_state_name [''a.ex.com.'', ''b.ex.com.''] ''TXT'']"
proof -
  have "route53_storable (ex_rec ex_state_name [''a.ex.com.'', ''b.ex.com.''] ''TXT'')" by code_simp
  from record_roundtrip [OF this] show ?thesis by blast
qed

section \<open>The main loop with Route 53\<close>

text \<open>
  C3. In every run of the main loop, whatever happens outside between the iterations, the provider
  state stays valid, and as long as the last synchronization that was tried succeeded, the zone
  agrees with the cached records: it holds their values, and its state RRSet claims no other name.
\<close>
theorem polls_agree_route53:
  assumes "route53_service c zid ok sets listed"
    and "polls su s0 outs s" and "su_provider su = route53_provider sdk env fuel"
    and "storable_records su route53_storable s0"
    and "route53_inv c zid ok (providerState s0)"
    and "route53_zone sets (providerState s0)
           (StateFqdn (mm_EnvironmentUUID (metadataClient s0)) (RootDomainName (su_config su)), ''A'') = None"
  shows "route53_inv c zid ok (providerState s)
    \<and> (settled outs \<longrightarrow> hasSynchronized s
         \<and> agrees (StateFqdn (mm_EnvironmentUUID (metadataClient s0)) (RootDomainName (su_config su)))
             (metadataRecsCached s) (route53_zone sets (providerState s)))"
  using dns_provider.polls_invariant [OF route53_service.provider_contract [OF assms(1)] assms(2-6)] by simp

theorem polls_agree_route53_witness:
  "agrees ex_state_name ex_records (route53_zone simSets (providerState ex_process'))"
proof -
  obtain updated where run: "polls ex_surroundings ex_process [Synchronized updated] ex_process'"
    using ex_polls by blast
  have su: "su_provider ex_surroundings = route53_provider ex_sdk (\<lambda>_. []) 5"
    by (simp add: ex_surroundings_def ex_provider_def)
  have inv: "route53_inv (simulated ex_zone) ''Z1'' sim_ok (providerState ex_process)"
    by (simp add: ex_process_def ex_inv)
  have sf: "StateFqdn (mm_EnvironmentUUID (metadataClient ex_process)) (RootDomainName (su_config ex_surroundings)) = ex_state_name"
    by (simp add: ex_process_def ex_client_def ex_surroundings_def ex_config_def ex_state_name_def)
  have free: "route53_zone simSets (providerState ex_process) (ex_state_name, ''A'') = None"
    using ex_state_name_free by (simp add: ex_process_def)
  have "metadataRecsCached ex_process' = ex_records" "settled ([Synchronized updated] :: string route53_error outcome list)"
    by (simp_all add: ex_process'_def settled_def)
  then show ?thesis
    using polls_agree_route53 [OF sim.route53_service_axioms run su ex_storable inv, unfolded sf, OF free] by simp
qed

section \<open>The synchronization with any provider\<close>

text \<open>
  C8. A synchronization is the run of a plan: the changes that the desired records and the listing
  call for, removals, then additions, then updates, applied one after the other until the first
  failure; on success it reports the added and then the updated records.
\<close>
theorem sync_refines_plan:
  "UpdateProviderDnsRecords P u cfg desired s =
     (case pGetRecords P s of
        (Inl e, s1) \<Rightarrow> (Inl (ReadError e), s1)
      | (Inr rs, s1) \<Rightarrow>
          (case classify (StateFqdn u (RootDomainName cfg)) rs of (ours, alls) \<Rightarrow>
             (case run_plan P (plan desired ours alls) s1 of
                (_, Some e, s2) \<Rightarrow> (Inl e, s2)
              | (_, None, s2) \<Rightarrow> (Inr (toAdd desired alls @ toUpdate desired alls), s2))))"
proof (cases "pGetRecords P s")
  case (Pair r s1)
  show ?thesis
  proof (cases r)
    case (Inl e)
    with Pair show ?thesis by (simp add: UpdateProviderDnsRecords_def getProviderDnsRecords_eq)
  next
    case (Inr rs)
    obtain ours alls where cl: "classify (StateFqdn u (RootDomainName cfg)) rs = (ours, alls)" by fastforce
    with Pair Inr have "getProviderDnsRecords P u cfg s = (Inr (ours, alls), s1)"
      by (simp add: getProviderDnsRecords_eq)
    from UpdateProviderDnsRecords_plan [OF this, of desired] Pair Inr cl show ?thesis by simp
  qed
qed

text \<open>
  C9. A synchronization that fails has read the zone and failed at one change of its plan: every
  change before it was applied, in order, none after it was tried, and the error names the
  operation and the record.
\<close>
theorem sync_stops_at_first_failure:
  assumes "UpdateProviderDnsRecords P u cfg desired s = (Inl err, s')" and "pGetRecords P s = (Inr rs, s1)"
    and "classify (StateFqdn u (RootDomainName cfg)) rs = (ours, alls)"
  shows "\<exists>done failed rest q e. plan desired ours alls = done @ failed # rest
    \<and> run_plan P done s1 = (done, None, q)
    \<and> apply_op P (fst failed) (m_dns (snd failed)) q = Some (Some e, s')
    \<and> err = OpError (fst failed) (d_fqdn (m_dns (snd failed))) e"
proof -
  have "getProviderDnsRecords P u cfg s = (Inr (ours, alls), s1)"
    using assms(2,3) by (simp add: getProviderDnsRecords_eq)
  from UpdateProviderDnsRecords_plan [OF this, of desired] assms(1)
  obtain d where "run_plan P (plan desired ours alls) s1 = (d, Some err, s')"
    by (auto split: prod.splits option.splits)
  from run_plan_error [OF this plan_ops] show ?thesis by blast
qed

theorem sync_stops_at_first_failure_witness:
  "\<exists>rs ours alls done failed rest e. classify ex_state_name rs = (ours, alls)
     \<and> plan ex_desired ours alls = done @ failed # rest
     \<and> fst ex_failing_run = Inl (OpError (fst failed) (d_fqdn (m_dns (snd failed))) e)"
proof -
  have "isl (fst ex_failing_run) \<and> \<not> isl (fst (pGetRecords ex_provider ex_failing_state))" by code_simp
  then obtain err rs where
    run: "UpdateProviderDnsRecords ex_provider ''u1'' ex_cfg ex_desired ex_failing_state = (Inl err, snd ex_failing_run)" and
    get: "pGetRecords ex_provider ex_failing_state = (Inr rs, snd (pGetRecords ex_provider ex_failing_state))"
    unfolding ex_failing_run_def by (metis isl_def sum.exhaust prod.collapse)
  obtain ours alls where cl: "classify ex_state_name rs = (ours, alls)" by fastforce
  from run have "fst ex_failing_run = Inl err" unfolding ex_failing_run_def by (metis fst_conv)
  with cl sync_stops_at_first_failure [OF run get, unfolded ex_state_name_eq, OF cl] show ?thesis by metis
qed

text \<open>
  C30. The order in which Go iterates over the map of desired records makes no difference to a
  synchronization: not to the calls to the provider, not to its result.
\<close>
theorem sync_map_order:
  assumes "desired_ok storable sf desired" and "mset desired' = mset desired"
  shows "UpdateProviderDnsRecords P u cfg desired' s = UpdateProviderDnsRecords P u cfg desired s"
proof -
  have "gomap_wf desired" using assms(1) by (simp add: desired_ok_def)
  from plan_permute [OF this desired_ok_plain [OF assms(1)] assms(2)]
  have same: "removeExtraRecords P desired' = removeExtraRecords P desired"
    "addMissingRecords P desired' = addMissingRecords P desired"
    "updateExistingRecords P desired' = updateExistingRecords P desired"
    by (auto simp: fun_eq_iff removeExtraRecords_def addMissingRecords_def updateExistingRecords_def)
  show ?thesis unfolding UpdateProviderDnsRecords_def same by (rule refl)
qed

theorem sync_map_order_witness:
  "UpdateProviderDnsRecords ex_provider ''u1'' ex_cfg (rev ex_desired) ex_state = ex_run"
  using sync_map_order [OF ex_desired_ok, of "rev ex_desired"] by (simp add: ex_run_def)

text \<open>
  C31. In each phase of a synchronization the state RRSet comes after all address records, so the
  names it lists exist when it is added, and an address record is removed before the state RRSet
  that claims it.
\<close>
theorem sync_state_last:
  assumes "distinct (map rkey rs)" and "rview rs (sf, ''A'') = None"
    and "classify sf rs = (ours, alls)" and "desired_ok storable sf desired"
  shows "state_last (toRemove desired ours) \<and> state_last (toAdd desired alls) \<and> state_last (toUpdate desired alls)"
  using plan_state_last [of rs sf ours alls desired storable] assms by (simp add: listing_def)

theorem sync_state_last_witness:
  "\<exists>ours alls. classify ex_state_name (sets_records (simSets ex_world)) = (ours, alls)
     \<and> state_last (toUpdate ex_desired alls)"
proof -
  have rs: "distinct (map rkey (sets_records (simSets ex_world)))"
    "rview (sets_records (simSets ex_world)) (ex_state_name, ''A'') = None" by code_simp+
  obtain ours alls where cl: "classify ex_state_name (sets_records (simSets ex_world)) = (ours, alls)" by fastforce
  from sync_state_last [OF rs cl ex_desired_ok] cl show ?thesis by blast
qed

section \<open>Starting up\<close>

text \<open>
  C24. The upgrade of a Route 53 zone, successful or not, changes nothing but the state RRSet, and
  nothing at all when there is one already. When it succeeds on a zone without one, the state
  RRSet names exactly the address records with the legacy suffix and the configured TTL; when
  there are none, it stays absent.
\<close>
theorem upgrade_route53:
  fixes sets :: "'w \<Rightarrow> rr_set list" and cfg :: config and n u :: string and p :: "('e, 'w) route53"
  defines "sf \<equiv> StateFqdn u (RootDomainName cfg)"
    and "legacy \<equiv> legacy_fqdns n cfg (sets_records (sets (world p)))"
  assumes "route53_service c zid ok sets listed" and "route53_inv c zid ok p"
    and "route53_name sf" and "list_all plain_value legacy"
    and "EnsureUpgradeToStateRRSet (route53_provider sdk env fuel) n u cfg p = (err, p')"
  shows "(\<forall>k. k \<noteq> (sf, ''TXT'') \<longrightarrow> route53_zone sets p' k = route53_zone sets p k)
    \<and> (route53_zone sets p (sf, ''TXT'') \<noteq> None \<longrightarrow> route53_zone sets p' = route53_zone sets p)
    \<and> (err = None \<longrightarrow> route53_zone sets p (sf, ''TXT'') = None \<longrightarrow>
         route53_zone sets p' (sf, ''TXT'') = (if legacy = [] then None else Some (set legacy)))"
proof -
  let ?P = "route53_provider sdk env fuel"
  have storable: "route53_storable (StateRecord sf (TTL cfg) legacy)"
    using assms(5,6) by (simp add: route53_storable_def list_all_iff)
  have listing: "rs = sets_records (sets (world p))" if "pGetRecords ?P p = (Inr rs, t)" for rs t
    using route53_service.GetRecords_sound [OF assms(3,4), of fuel "Inr rs" t] that by (simp add: route53_provider_def)
  have adopt: "route53_storable (StateRecord (StateFqdn u (RootDomainName cfg)) (TTL cfg) (legacy_fqdns n cfg rs))"
    if "pGetRecords ?P p = (Inr rs, t)" for rs t
    using storable listing [OF that] by (simp add: sf_def legacy_def)
  have run: "route53_inv c zid ok p'
    \<and> (\<forall>k. k \<noteq> (sf, ''TXT'') \<longrightarrow> route53_zone sets p' k = route53_zone sets p k)
    \<and> (route53_zone sets p (sf, ''TXT'') \<noteq> None \<longrightarrow> route53_zone sets p' = route53_zone sets p)
    \<and> (\<forall>rs t. err = None \<longrightarrow> route53_zone sets p (sf, ''TXT'') = None \<longrightarrow> pGetRecords ?P p = (Inr rs, t) \<longrightarrow>
      route53_zone sets p' (sf, ''TXT'') = (if legacy_fqdns n cfg rs = [] then None else Some (set (legacy_fqdns n cfg rs))))"
    unfolding sf_def
    by (rule dns_provider.upgrade_run [OF route53_service.provider_contract [OF assms(3)] assms(4,7)]) (rule adopt)
  have "route53_zone sets p' (sf, ''TXT'') = (if legacy = [] then None else Some (set legacy))"
    if "err = None" "route53_zone sets p (sf, ''TXT'') = None"
  proof -
    from assms(7) that(1) obtain rs t where get: "pGetRecords ?P p = (Inr rs, t)"
      by (auto simp: EnsureUpgradeToStateRRSet_def split: prod.splits sum.splits)
    with run that listing [OF get] show ?thesis by (auto simp: legacy_def)
  qed
  with run show ?thesis by (elim conjE) (intro conjI impI; assumption?; simp)
qed

theorem upgrade_route53_witness:
  "route53_zone simSets (snd ex_upgrade) (ex_state_name, ''TXT'') = Some {''web.s.e.ex.com.''}"
proof -
  have err: "fst ex_upgrade = None" by code_simp
  have run: "EnsureUpgradeToStateRRSet (route53_provider ex_sdk (\<lambda>_. []) 5) ''e'' ''u1'' ex_cfg ex_legacy_state
      = (fst ex_upgrade, snd ex_upgrade)" by (simp add: ex_upgrade_def ex_provider_def)
  have names: "route53_name ex_state_name"
    "list_all plain_value (legacy_fqdns ''e'' ex_cfg (sets_records (simSets (world ex_legacy_state))))"
    "legacy_fqdns ''e'' ex_cfg (sets_records (simSets (world ex_legacy_state))) = [''web.s.e.ex.com.'']"
    "route53_zone simSets ex_legacy_state (ex_state_name, ''TXT'') = None"
    by code_simp+
  have inv: "route53_inv (simulated ex_zone) ''Z1'' sim_ok ex_legacy_state"
  proof -
    have "sim_ok (world ex_legacy_state)" by code_simp
    then show ?thesis by (simp add: route53_inv_def ex_legacy_state_def ex_state_def)
  qed
  from upgrade_route53 [OF sim.route53_service_axioms inv, of "''u1''" ex_cfg "''e''", unfolded ex_state_name_eq,
      OF names(1,2) run] err names(3,4) show ?thesis by simp
qed

text \<open>
  C33. When \<open>Init\<close> of the Route 53 provider succeeds, the number of retries is between 0 and 10, the
  legacy keys were given both or not at all, a configured endpoint passed the URL policy, and the
  hosted zone it uses is one the service returned under the name of the root domain: the one with
  the configured identifier, or the first of the listing.
\<close>
theorem Init_correct:
  assumes "Init sdk env root p = (None, p')" and "0 \<le> route53MaxRetries p \<and> route53MaxRetries p \<le> 10"
  shows "0 \<le> route53MaxRetries p' \<and> route53MaxRetries p' \<le> 10
    \<and> (TrimSpace (env ''AWS_ACCESS_KEY'') = [] \<longleftrightarrow> TrimSpace (env ''AWS_SECRET_KEY'') = [])
    \<and> (let endpoint = TrimSpace (env ''ROUTE53_ENDPOINT_URL'') in
        endpoint = [] \<or> (\<exists>u. sdkParseURL sdk endpoint = Some u \<and> service_url u))
    \<and> (if env ''ROUTE53_ZONE_ID'' \<noteq> []
       then hostedZoneId p' = TrimSpace (env ''ROUTE53_ZONE_ID'')
         \<and> (\<exists>z w. cGetHostedZone (client p') (hostedZoneId p') (world p) = (Inr (Some z), w)
              \<and> hzName z = Some root)
       else (\<exists>z zs w zoneID. cListHostedZonesByName (client p') (UnFqdn root) 1 (world p) = (Inr (z # zs), w)
              \<and> ToString (hzName z) = root \<and> hzId z = Some zoneID
              \<and> hostedZoneId p' = TrimPrefix zoneID ''/hostedzone/''))"
proof -
  have retries: "0 \<le> max_retries env (route53MaxRetries p) \<and> max_retries env (route53MaxRetries p) \<le> 10"
    using assms(2) by (simp add: max_retries_def split: option.splits)
  from assms(1) obtain credentials q where
    cred: "legacy_credentials env = (Inr credentials :: 'a route53_error + _)" and
    endp: "TrimSpace (env ''ROUTE53_ENDPOINT_URL'') = []
      \<or> validateEndpointURL (sdkParseURL sdk) (TrimSpace (env ''ROUTE53_ENDPOINT_URL'')) = (None :: 'a route53_error option)" and
    zone: "setHostedZone env root q = (None, p')" and
    q: "route53MaxRetries q = max_retries env (route53MaxRetries p)" "world q = world p"
    by (auto simp: Init_def Let_def split: sum.splits option.splits if_splits)
  have "TrimSpace (env ''AWS_ACCESS_KEY'') = [] \<longleftrightarrow> TrimSpace (env ''AWS_SECRET_KEY'') = []"
    using cred by (auto simp: legacy_credentials_def Let_def split: if_splits)
  moreover have "TrimSpace (env ''ROUTE53_ENDPOINT_URL'') = []
      \<or> (\<exists>u. sdkParseURL sdk (TrimSpace (env ''ROUTE53_ENDPOINT_URL'')) = Some u \<and> service_url u)"
    using endp by (auto simp: validateEndpointURL_None)
  ultimately show ?thesis
    using retries setHostedZone_None [OF zone] q
    by (cases "env ''ROUTE53_ZONE_ID'' = []") (auto simp: Let_def)
qed

theorem Init_correct_witness:
  "\<exists>p'. Init ex_sdk (\<lambda>_. []) ''ex.com.'' ex_state = (None, p') \<and> hostedZoneId p' = ''Z1''"
proof -
  have "fst (Init ex_sdk (\<lambda>_. []) ''ex.com.'' ex_state) = None" by code_simp
  then have run: "Init ex_sdk (\<lambda>_. []) ''ex.com.'' ex_state = (None, snd (Init ex_sdk (\<lambda>_. []) ''ex.com.'' ex_state))"
    by (metis prod.collapse)
  have "0 \<le> route53MaxRetries ex_state \<and> route53MaxRetries ex_state \<le> 10" by (simp add: ex_state_def)
  from Init_correct [OF run this] have "0 \<le> route53MaxRetries (snd (Init ex_sdk (\<lambda>_. []) ''ex.com.'' ex_state))" by blast
  moreover have "hostedZoneId (snd (Init ex_sdk (\<lambda>_. []) ''ex.com.'' ex_state)) = ''Z1''" by code_simp
  ultimately show ?thesis using run by blast
qed

theorem poll_outcome_witness:
  "\<exists>updated. poll_effect ex_surroundings ex_process (Synchronized updated) ex_process'"
proof -
  obtain updated where "poll ex_surroundings ex_process = Inr (Synchronized updated, ex_process')" using ex_poll by blast
  from poll_outcome [OF this] show ?thesis by blast
qed

theorem poll_forced_witness:
  "\<exists>out s'. poll (ex_surroundings\<lparr>su_Now := (\<lambda>_. minute)\<rparr>) ex_process' = Inr (out, s') \<and> out \<noteq> Unchanged \<and> out \<noteq> NoUpdate"
proof -
  let ?su = "ex_surroundings\<lparr>su_Now := (\<lambda>_. minute)\<rparr>"
  have version: "mc_GetVersion (mm_MetadataClient (metadataClient ex_process')) (outside ex_process')
      = (Inr (currentVersion ex_process'), ())"
    by (simp add: ex_process'_def ex_process_def ex_client_def ex_get_version)
  have due: "minute \<le> su_Now ?su () - lastUpdated ex_process'" by (simp add: ex_process'_def ex_process_def)
  have "GetMetadataDnsRecords (su_config ?su) (su_Sleep ?su) (metadataClient ex_process') w = Inr (Inr ex_records, ex_client, ())" for w
    using ex_records_run by (simp add: ex_process'_def ex_process_def ex_surroundings_def)
  then obtain out s' where run: "poll ?su ex_process' = Inr (out, s')"
    using poll_abort [of ?su ex_process'] by (cases "poll ?su ex_process'") auto
  from poll_forced [OF version due run] run show ?thesis by auto
qed

section \<open>The clients of the other services\<close>

text \<open>
  C35. A request to the metadata service yields a body exactly when the request can be made and the
  answer has status 200, arrives completely and has at most 4 MiB; the body is the one sent.
\<close>
theorem SendRequest_accepts:
  "SendRequest h m path w = (Inr body, w') \<longleftrightarrow>
     h_NewRequest h ''GET'' (cl_url m @ path) = None
     \<and> length body \<le> 4194304
     \<and> (\<exists>resp. h_Do h (metadata_request m path) w = (Inr resp, w')
          \<and> rs_status resp = 200 \<and> rs_body resp = body \<and> rs_body_error resp = None)"
  by (simp add: SendRequest_Inr maxResponseSize_def)

text \<open>
  C34. The two retry loops of the metadata clients, the connection test and the reading of the
  environment, both are the bounded retry: five attempts, with pauses of 1, 2, 4, 8 and 16 seconds
  after the failures, the first success ending it, and the last error reported.
\<close>
theorem retry_loops:
  "testConnection c sleep w =
     (case retry 5 (mc_GetVersion c) sleep 0 None w of (Inl err, w') \<Rightarrow> (err, w') | (Inr _, w') \<Rightarrow> (None, w'))
   \<and> getEnvironment c sleep w =
     (case retry 5 (mc_GetSelfStack c) sleep 0 None w of
        (Inl err, w') \<Rightarrow> (Inl err, w')
      | (Inr stack, w') \<Rightarrow> (Inr (st_EnvironmentName stack, st_EnvironmentUUID stack), w'))"
  by (simp add: testConnection_retry getEnvironment_retry)

text \<open>
  C29. A client of the platform API sends its credentials only to the origin it was configured with:
  a call either is refused without touching the network, or makes one request, whose URL parses,
  without user information and fragment, to the origin of the configured URL. It reports success
  exactly when that request is answered completely, with a status below 300 and at most 4 MiB.
\<close>
theorem platform_request_origin:
  assumes "NewClient (pk_Parse k) rawURL accessKey secretKey = (Inr c :: 'e platform_error + Client)"
    and "request k c meth path query body w = (res, w')"
  shows "(w' = w \<and> res \<noteq> None)
    \<or> (\<exists>u0 u v r. pk_Parse k rawURL = Some u0 \<and> pk_Parse k (pk_String k u) = Some v
         \<and> \<not> uHasUser v \<and> uFragment v = []
         \<and> canonicalOrigin v = (canonicalOrigin u0 :: unit platform_error + string)
         \<and> pk_RoundTrip k \<lparr>pq_method = meth, pq_url = u, pq_header = platform_header k c body, pq_body = body\<rparr> w = (r, w')
         \<and> (res = None \<longleftrightarrow> (\<exists>resp. r = Inr resp \<and> ps_status resp < 300 \<and> length (ps_body resp) \<le> 4194304
              \<and> ps_body_error resp = None)))"
  using assms(2)
proof (cases rule: request_network)
  case (sent u r)
  from NewClient_Inr [OF assms(1)] obtain u0 where u0: "pk_Parse k rawURL = Some u0"
    and origin: "canonicalOrigin u0 = (Inr (pc_origin c) :: 'e platform_error + string)" by blast
  from sent(1) obtain v where v: "pk_Parse k (pk_String k u) = Some v" "\<not> uHasUser v" "uFragment v = []"
    "canonicalOrigin v = (Inr (pc_origin c) :: unit platform_error + string)"
    unfolding isValidRedirectURL_iff by blast
  have "canonicalOrigin v = (canonicalOrigin u0 :: unit platform_error + string)"
    using v(4) canonicalOrigin_Inr_type [OF origin, where 'b = unit] by simp
  moreover have "res = None \<longleftrightarrow> (\<exists>resp. r = Inr resp \<and> ps_status resp < 300 \<and> length (ps_body resp) \<le> 4194304
              \<and> ps_body_error resp = None)"
    using sent(3) by (simp add: platform_answer_None platform_maxResponseSize_def)
  ultimately show ?thesis using u0 v(1-3) sent(2) by blast
qed simp

theorem platform_request_origin_witness:
  "\<exists>u v. ex_Parse (ex_String u) = Some v \<and> canonicalOrigin v = (canonicalOrigin ex_base :: unit platform_error + string)"
proof -
  have new: "NewClient (pk_Parse ex_network) ''HTTP://P.example.:80/v1'' ''a'' ''s''
      = (Inr ex_platform :: string platform_error + Client)"
    using ex_platform_new by (simp add: ex_network_def)
  have run: "request ex_network ex_platform ''GET'' ''/externalDnsEvents'' ''limit=1'' None 0 = (None, Suc 0)"
    using ex_platform_test [of 0] by (simp add: TestConnection_def)
  have "ex_Parse ''HTTP://P.example.:80/v1'' = Some ex_base" by (simp add: ex_Parse_def)
  then show ?thesis
    using platform_request_origin [OF new run] by (auto simp: ex_network_def)
qed

end
